(* ===== verification/Prelude.thy ===== *)
theory Prelude
  imports Main "HOL-Library.Word"
begin

text \<open>
  Shared vocabulary of the development: the machine types of the C sources, return codes,
  error propagation, the search loops \<open>for (i = 0; i < N; ++i) if (p(a[i])) ...\<close>, the
  little-endian helpers that \<open>uci_sim_device.c\<close>, \<open>uci_sim_handlers.c\<close>,
  \<open>uci_sim_validation.c\<close> and \<open>uci_sim_measurement.c\<close> each repeat, and the generic
  lemmas on lists the components share.
\<close>

unbundle bit_operations_syntax

type_synonym u8 = "8 word"
type_synonym u16 = "16 word"
type_synonym u32 = "32 word"
type_synonym u64 = "64 word"
type_synonym bytes = "8 word list"

text \<open>A C function that returns 0 or -1 and may have changed its state in both cases.\<close>

datatype rc = RC_OK | RC_FAIL

definition rc_of_bool :: "bool \<Rightarrow> rc" where
  "rc_of_bool b = (if b then RC_OK else RC_FAIL)"

lemma rc_of_bool_simps [simp]:
  "rc_of_bool b = RC_OK \<longleftrightarrow> b" "rc_of_bool b = RC_FAIL \<longleftrightarrow> \<not> b"
  by (simp_all add: rc_of_bool_def)

lemma rc_not_ok [simp]: "c \<noteq> RC_OK \<longleftrightarrow> c = RC_FAIL" "c \<noteq> RC_FAIL \<longleftrightarrow> c = RC_OK"
  by (cases c; simp)+

text \<open>\<open>if (f(...) != 0) return -1; k\<close>: the first error of a chain is the result.\<close>

definition vbind :: "'e + 'a \<Rightarrow> ('a \<Rightarrow> 'e + 'b) \<Rightarrow> 'e + 'b" where
  "vbind r k = (case r of Inl e \<Rightarrow> Inl e | Inr x \<Rightarrow> k x)"

lemma vbind_simps [simp]: "vbind (Inl e) k = Inl e" "vbind (Inr x) k = k x"
  by (simp_all add: vbind_def)

lemma vbind_Inr_iff: "vbind r k = Inr y \<longleftrightarrow> (\<exists>x. r = Inr x \<and> k x = Inr y)"
  by (cases r) simp_all

lemma vbind_Inl_iff:
  "vbind r k = Inl e \<longleftrightarrow> r = Inl e \<or> (\<exists>x. r = Inr x \<and> k x = Inl e)"
  by (cases r) simp_all

named_theorems wf_intros \<open>introduction rules for well-formedness of states\<close>
named_theorems wf_simps \<open>rewrite rules for well-formedness of states\<close>

subsection \<open>Search loops\<close>

fun find_index :: "('a \<Rightarrow> bool) \<Rightarrow> 'a list \<Rightarrow> nat option" where
  "find_index p [] = None"
| "find_index p (x # xs) = (if p x then Some 0 else map_option Suc (find_index p xs))"

lemma find_index_Some_iff:
  "find_index p xs = Some i \<longleftrightarrow> i < length xs \<and> p (xs ! i) \<and> (\<forall>j<i. \<not> p (xs ! j))"
proof (induction xs arbitrary: i)
  case Nil
  then show ?case by simp
next
  case (Cons x xs)
  then show ?case by (cases i) (auto simp: less_Suc_eq_0_disj)
qed

lemma find_index_SomeD:
  assumes "find_index p xs = Some i"
  shows "i < length xs" and "p (xs ! i)" and "j < i \<Longrightarrow> \<not> p (xs ! j)"
  using assms by (simp_all add: find_index_Some_iff)

lemma find_index_None_iff: "find_index p xs = None \<longleftrightarrow> (\<forall>x\<in>set xs. \<not> p x)"
  by (induction xs) auto

lemma find_index_cong:
  assumes len: "length xs = length ys" and eq: "\<And>j. j < length xs \<Longrightarrow> p (xs ! j) = q (ys ! j)"
  shows "find_index p xs = find_index q ys"
proof (cases "find_index p xs")
  case None
  then have "find_index q ys = None"
    using len eq by (metis find_index_None_iff in_set_conv_nth)
  with None show ?thesis by simp
next
  case (Some i)
  then have i: "i < length xs" "p (xs ! i)" and before: "\<And>j. j < i \<Longrightarrow> \<not> p (xs ! j)"
    by (simp_all add: find_index_Some_iff)
  have "\<not> q (ys ! j)" if "j < i" for j
    using before [OF that] eq [of j] that i(1) by simp
  with i have "find_index q ys = Some i"
    using len eq by (simp add: find_index_Some_iff)
  with Some show ?thesis by simp
qed

lemma find_index_unique:
  assumes "i < length xs" and "p (xs ! i)"
    and "\<And>j. j < length xs \<Longrightarrow> p (xs ! j) \<Longrightarrow> j = i"
  shows "find_index p xs = Some i"
  unfolding find_index_Some_iff
proof (intro conjI allI impI)
  fix j
  assume "j < i"
  with assms(1) have "j < length xs" by simp
  with assms(3) \<open>j < i\<close> show "\<not> p (xs ! j)" by blast
qed (rule assms)+

lemma find_index_split:
  assumes "find_index p xs = Some i"
  obtains pre x post where "xs = pre @ x # post" "length pre = i" "p x" "\<forall>y\<in>set pre. \<not> p y"
proof
  show "xs = take i xs @ xs ! i # drop (Suc i) xs"
    using find_index_SomeD(1) [OF assms] by (rule id_take_nth_drop)
  show "length (take i xs) = i" using find_index_SomeD(1) [OF assms] by simp
  show "p (xs ! i)" using assms by (rule find_index_SomeD)
  show "\<forall>y\<in>set (take i xs). \<not> p y"
    using find_index_SomeD(3) [OF assms] by (auto simp: in_set_conv_nth)
qed

lemma find_index_replicate:
  "find_index p (replicate n x) = (if p x \<and> 0 < n then Some 0 else None)"
  by (induction n) auto

lemma find_index_append:
  "find_index p (xs @ ys) =
     (case find_index p xs of Some i \<Rightarrow> Some i
      | None \<Rightarrow> map_option ((+) (length xs)) (find_index p ys))"
proof (induction xs)
  case Nil
  then show ?case by (cases "find_index p ys") simp_all
next
  case (Cons x xs)
  then show ?case by (cases "find_index p ys"; cases "find_index p xs") simp_all
qed

subsection \<open>Lists written in place\<close>

lemma set_list_updateD: "x \<in> set (xs[i := y]) \<Longrightarrow> x \<in> set xs \<or> x = y"
  using set_update_subset_insert [of xs i y] by blast

lemma distinct_map_filter_iff:
  "distinct (map f (filter P xs)) \<longleftrightarrow>
     (\<forall>i<length xs. \<forall>j<length xs. P (xs ! i) \<longrightarrow> P (xs ! j) \<longrightarrow> f (xs ! i) = f (xs ! j) \<longrightarrow> i = j)"
proof (induction xs)
  case (Cons x xs)
  have "f x \<notin> f ` set (filter P xs) \<longleftrightarrow> (\<forall>j<length xs. P (xs ! j) \<longrightarrow> f x \<noteq> f (xs ! j))"
    by (auto simp: in_set_conv_nth image_iff)
  with Cons.IH show ?case by (auto simp: All_less_Suc2)
qed simp

lemma list_all_update:
  "list_all P xs \<Longrightarrow> P y \<Longrightarrow> list_all P (xs[i := y])"
  by (auto simp: list_all_iff dest!: set_list_updateD)

lemma list_all_nth: "list_all P xs \<Longrightarrow> i < length xs \<Longrightarrow> P (xs ! i)"
  by (simp add: list_all_length)

lemma map_of_rev_distinct:
  assumes "distinct (map fst xs)"
  shows "map_of (rev xs) = map_of xs"
  by (rule map_of_eqI) (use assms in \<open>auto simp: rev_map [symmetric] map_of_eq_Some_iff [of "rev xs"]\<close>)

lemma map_of_insert_mid:
  assumes "k \<notin> fst ` set xs"
  shows "map_of (xs @ (k, v) # ys) = (map_of (xs @ ys))(k \<mapsto> v)"
proof -
  have "map_of xs k = None" using assms by (simp add: map_of_eq_None_iff)
  then show ?thesis by (auto simp: fun_eq_iff map_add_def split: option.splits)
qed

lemma map_of_delete_mid:
  assumes "k \<notin> fst ` set (xs @ ys)"
  shows "map_of (xs @ ys) = (map_of (xs @ (k, v) # ys))(k := None)"
proof -
  have "map_of xs k = None" "map_of ys k = None"
    using assms by (auto simp: map_of_eq_None_iff)
  then show ?thesis by (auto simp: fun_eq_iff map_add_def split: option.splits)
qed

lemma filter_all_iff_length: "(\<forall>x\<in>set xs. P x) \<longleftrightarrow> length (filter P xs) = length xs"
  by (metis filter_True length_filter_less less_irrefl)

subsection \<open>Little-endian integers\<close>

definition read_u16_le :: "bytes \<Rightarrow> u16" where
  "read_u16_le payload = ucast (payload ! 0) OR push_bit 8 (ucast (payload ! 1))"

definition read_u32_le :: "bytes \<Rightarrow> u32" where
  "read_u32_le payload =
     ucast (payload ! 0) OR push_bit 8 (ucast (payload ! 1))
     OR push_bit 16 (ucast (payload ! 2)) OR push_bit 24 (ucast (payload ! 3))"

definition write_u16_le :: "u16 \<Rightarrow> bytes" where
  "write_u16_le v = [ucast (v AND 0xFF), ucast (drop_bit 8 v AND 0xFF)]"

definition write_u32_le :: "u32 \<Rightarrow> bytes" where
  "write_u32_le v =
     [ucast (v AND 0xFF), ucast (drop_bit 8 v AND 0xFF),
      ucast (drop_bit 16 v AND 0xFF), ucast (drop_bit 24 v AND 0xFF)]"

definition write_u64_le :: "u64 \<Rightarrow> bytes" where
  "write_u64_le v =
     [ucast (v AND 0xFF), ucast (drop_bit 8 v AND 0xFF),
      ucast (drop_bit 16 v AND 0xFF), ucast (drop_bit 24 v AND 0xFF),
      ucast (drop_bit 32 v AND 0xFF), ucast (drop_bit 40 v AND 0xFF),
      ucast (drop_bit 48 v AND 0xFF), ucast (drop_bit 56 v AND 0xFF)]"

lemma length_write_le [simp]:
  "length (write_u16_le a) = 2" "length (write_u32_le b) = 4" "length (write_u64_le c) = 8"
  by (simp_all add: write_u16_le_def write_u32_le_def write_u64_le_def)

lemma low_byte [simp]:
  fixes v :: "'a::len word"
  shows "(ucast (v AND 0xFF) :: u8) = ucast v"
proof -
  have "(0xFF :: 'a word) = mask 8" by (simp add: mask_numeral)
  then have "v AND 0xFF = take_bit 8 v" by (simp only: take_bit_eq_mask)
  then show ?thesis
    by (simp only:) (rule bit_word_eqI, auto simp: bit_simps dest: bit_imp_le_length)
qed

lemma read_write_u16 [simp]: "read_u16_le (write_u16_le v @ rest) = v"
  by (rule bit_word_eqI) (auto simp: read_u16_le_def write_u16_le_def bit_simps)

lemma read_write_u32 [simp]: "read_u32_le (write_u32_le v @ rest) = v"
proof (rule bit_word_eqI)
  fix n
  assume n: "n < LENGTH(32)"
  then consider "n < 8" | "8 \<le> n" "n < 16" | "16 \<le> n" "n < 24" | "24 \<le> n" "n < 32"
    by fastforce
  then show "bit (read_u32_le (write_u32_le v @ rest)) n \<longleftrightarrow> bit v n"
    by cases (auto simp: read_u32_le_def write_u32_le_def bit_simps)
qed

lemma take_bit_small: "unat x < 2 ^ n \<Longrightarrow> take_bit n x = x"
  by (simp add: word_unat_eq_iff unsigned_take_bit_eq take_bit_nat_eq_self)

lemma and_mask_small: "unat x < 2 ^ n \<Longrightarrow> x AND mask n = x"
  by (simp add: take_bit_small flip: take_bit_eq_mask)

lemma unat_u8_less: "unat (x :: u8) < 256"
  using unsigned_less [of x, where 'a = nat] by simp

lemma unat_u8_le [simp]: "unat (x :: u8) \<le> 255"
  using unat_u8_less [of x] by simp

lemma ucast_u8_u16 [simp]: "(ucast (ucast (x :: u8) :: u16) :: u8) = x"
  by (rule bit_word_eqI) (auto simp: bit_simps)

lemma unat_ucast_u8_u16 [simp]: "unat (ucast (x :: u8) :: u16) = unat x"
  using unat_u8_less [of x] by (simp add: unsigned_ucast_eq take_bit_nat_eq_self)

lemma unat_and_mask_less: "unat (x AND mask n) < 2 ^ n"
  by (simp add: unsigned_take_bit_eq flip: take_bit_eq_mask)

lemma bit_small: "unat x < 2 ^ n \<Longrightarrow> bit x k \<Longrightarrow> k < n"
  by (metis bit_take_bit_iff take_bit_small)

lemmas read_write_u16_Nil [simp] = read_write_u16 [of _ "[]", unfolded append_Nil2]
lemmas read_write_u32_Nil [simp] = read_write_u32 [of _ "[]", unfolded append_Nil2]

end
