(* ===== verification/Uci_Spec.thy ===== *)
theory Uci_Spec
  imports Prelude
begin

text \<open>
  The constants of \<open>include/uci_sim_spec.h\<close>, under their C names: the wire codes as bytes
  (every C use of them is a \<open>uint8_t\<close>), the array sizes as numbers. They are
  abbreviations, so that statements and evaluation see the codes themselves.
\<close>

abbreviation UCI_SIM_HEADER_SIZE :: nat where
  "UCI_SIM_HEADER_SIZE \<equiv> 4"

abbreviation UCI_SIM_MAX_PAYLOAD :: nat where
  "UCI_SIM_MAX_PAYLOAD \<equiv> 1024"

abbreviation UCI_SIM_MAX_PACKET :: nat where
  "UCI_SIM_MAX_PACKET \<equiv> UCI_SIM_HEADER_SIZE + UCI_SIM_MAX_PAYLOAD"

abbreviation UCI_SIM_MAX_SESSIONS :: nat where
  "UCI_SIM_MAX_SESSIONS \<equiv> 8"

abbreviation UCI_SIM_MAX_MULTICAST_ENTRIES :: nat where
  "UCI_SIM_MAX_MULTICAST_ENTRIES \<equiv> 8"

abbreviation UCI_SIM_MAX_LOGICAL_LINKS :: nat where
  "UCI_SIM_MAX_LOGICAL_LINKS \<equiv> 8"

abbreviation UCI_SIM_MAX_DT_ROUNDS :: nat where
  "UCI_SIM_MAX_DT_ROUNDS \<equiv> 32"

abbreviation UCI_MT_DATA :: u8 where
  "UCI_MT_DATA \<equiv> 0x0"

abbreviation UCI_MT_COMMAND :: u8 where
  "UCI_MT_COMMAND \<equiv> 0x1"

abbreviation UCI_MT_RESPONSE :: u8 where
  "UCI_MT_RESPONSE \<equiv> 0x2"

abbreviation UCI_MT_NOTIFICATION :: u8 where
  "UCI_MT_NOTIFICATION \<equiv> 0x3"

abbreviation UCI_DATA_PACKET_FORMAT_SEND :: u8 where
  "UCI_DATA_PACKET_FORMAT_SEND \<equiv> 0x01"

abbreviation UCI_PBF_COMPLETE :: u8 where
  "UCI_PBF_COMPLETE \<equiv> 0x0"

abbreviation UCI_PBF_NOT_COMPLETE :: u8 where
  "UCI_PBF_NOT_COMPLETE \<equiv> 0x1"

abbreviation UCI_GID_CORE :: u8 where
  "UCI_GID_CORE \<equiv> 0x00"

abbreviation UCI_GID_SESSION_CONFIG :: u8 where
  "UCI_GID_SESSION_CONFIG \<equiv> 0x01"

abbreviation UCI_GID_SESSION_CONTROL :: u8 where
  "UCI_GID_SESSION_CONTROL \<equiv> 0x02"

abbreviation UCI_GID_QORVO_EXT2 :: u8 where
  "UCI_GID_QORVO_EXT2 \<equiv> 0x0B"

abbreviation UCI_GID_QORVO_MAC :: u8 where
  "UCI_GID_QORVO_MAC \<equiv> 0x0E"

abbreviation UCI_STATUS_OK :: u8 where
  "UCI_STATUS_OK \<equiv> 0x00"

abbreviation UCI_STATUS_REJECTED :: u8 where
  "UCI_STATUS_REJECTED \<equiv> 0x01"

abbreviation UCI_STATUS_FAILED :: u8 where
  "UCI_STATUS_FAILED \<equiv> 0x02"

abbreviation UCI_STATUS_SYNTAX_ERROR :: u8 where
  "UCI_STATUS_SYNTAX_ERROR \<equiv> 0x03"

abbreviation UCI_STATUS_INVALID_PARAM :: u8 where
  "UCI_STATUS_INVALID_PARAM \<equiv> 0x04"

abbreviation UCI_STATUS_INVALID_RANGE :: u8 where
  "UCI_STATUS_INVALID_RANGE \<equiv> 0x05"

abbreviation UCI_STATUS_INVALID_MSG_SIZE :: u8 where
  "UCI_STATUS_INVALID_MSG_SIZE \<equiv> 0x06"

abbreviation UCI_STATUS_UNKNOWN_GID :: u8 where
  "UCI_STATUS_UNKNOWN_GID \<equiv> 0x07"

abbreviation UCI_STATUS_UNKNOWN_OID :: u8 where
  "UCI_STATUS_UNKNOWN_OID \<equiv> 0x08"

abbreviation UCI_STATUS_MULTICAST_LIST_FULL :: u8 where
  "UCI_STATUS_MULTICAST_LIST_FULL \<equiv> 0x17"

abbreviation UCI_STATUS_ADDRESS_NOT_FOUND :: u8 where
  "UCI_STATUS_ADDRESS_NOT_FOUND \<equiv> 0x18"

abbreviation UCI_STATUS_ADDRESS_ALREADY_PRESENT :: u8 where
  "UCI_STATUS_ADDRESS_ALREADY_PRESENT \<equiv> 0x19"

abbreviation UCI_CORE_DEVICE_RESET :: u8 where
  "UCI_CORE_DEVICE_RESET \<equiv> 0x00"

abbreviation UCI_CORE_DEVICE_STATUS_NTF :: u8 where
  "UCI_CORE_DEVICE_STATUS_NTF \<equiv> 0x01"

abbreviation UCI_CORE_DEVICE_INFO :: u8 where
  "UCI_CORE_DEVICE_INFO \<equiv> 0x02"

abbreviation UCI_CORE_GET_CAPS_INFO :: u8 where
  "UCI_CORE_GET_CAPS_INFO \<equiv> 0x03"

abbreviation UCI_CORE_SET_CONFIG :: u8 where
  "UCI_CORE_SET_CONFIG \<equiv> 0x04"

abbreviation UCI_CORE_GET_CONFIG :: u8 where
  "UCI_CORE_GET_CONFIG \<equiv> 0x05"

abbreviation UCI_CORE_GENERIC_ERROR :: u8 where
  "UCI_CORE_GENERIC_ERROR \<equiv> 0x07"

abbreviation UCI_CORE_QUERY_UWBS_TIMESTAMP :: u8 where
  "UCI_CORE_QUERY_UWBS_TIMESTAMP \<equiv> 0x08"

abbreviation UCI_OID_QORVO_CORE_GET_DEVICE_STATS :: u8 where
  "UCI_OID_QORVO_CORE_GET_DEVICE_STATS \<equiv> 0x27"

abbreviation UCI_OID_QORVO_MAC_SET_CALIBRATIONS :: u8 where
  "UCI_OID_QORVO_MAC_SET_CALIBRATIONS \<equiv> 0x2A"

abbreviation UCI_OID_QORVO_MAC_GET_CALIBRATIONS :: u8 where
  "UCI_OID_QORVO_MAC_GET_CALIBRATIONS \<equiv> 0x2B"

abbreviation UCI_SESSION_INIT :: u8 where
  "UCI_SESSION_INIT \<equiv> 0x00"

abbreviation UCI_SESSION_DEINIT :: u8 where
  "UCI_SESSION_DEINIT \<equiv> 0x01"

abbreviation UCI_SESSION_STATUS_NTF :: u8 where
  "UCI_SESSION_STATUS_NTF \<equiv> 0x02"

abbreviation UCI_SESSION_SET_APP_CONFIG :: u8 where
  "UCI_SESSION_SET_APP_CONFIG \<equiv> 0x03"

abbreviation UCI_SESSION_GET_APP_CONFIG :: u8 where
  "UCI_SESSION_GET_APP_CONFIG \<equiv> 0x04"

abbreviation UCI_SESSION_GET_COUNT :: u8 where
  "UCI_SESSION_GET_COUNT \<equiv> 0x05"

abbreviation UCI_SESSION_GET_STATE :: u8 where
  "UCI_SESSION_GET_STATE \<equiv> 0x06"

abbreviation UCI_SESSION_UPDATE_CONTROLLER_MULTICAST_LIST :: u8 where
  "UCI_SESSION_UPDATE_CONTROLLER_MULTICAST_LIST \<equiv> 0x07"

abbreviation UCI_SESSION_UPDATE_DT_ANCHOR_RANGING_ROUNDS :: u8 where
  "UCI_SESSION_UPDATE_DT_ANCHOR_RANGING_ROUNDS \<equiv> 0x08"

abbreviation UCI_SESSION_UPDATE_DT_TAG_RANGING_ROUNDS :: u8 where
  "UCI_SESSION_UPDATE_DT_TAG_RANGING_ROUNDS \<equiv> 0x09"

abbreviation UCI_SESSION_DATA_TRANSFER_PHASE_CONFIG :: u8 where
  "UCI_SESSION_DATA_TRANSFER_PHASE_CONFIG \<equiv> 0x0E"

abbreviation UCI_SESSION_QUERY_DATA_SIZE_IN_RANGING :: u8 where
  "UCI_SESSION_QUERY_DATA_SIZE_IN_RANGING \<equiv> 0x0B"

abbreviation UCI_SESSION_SET_HUS_CONTROLLER_CONFIG :: u8 where
  "UCI_SESSION_SET_HUS_CONTROLLER_CONFIG \<equiv> 0x0C"

abbreviation UCI_SESSION_SET_HUS_CONTROLEE_CONFIG :: u8 where
  "UCI_SESSION_SET_HUS_CONTROLEE_CONFIG \<equiv> 0x0D"

abbreviation UCI_SESSION_START :: u8 where
  "UCI_SESSION_START \<equiv> 0x00"

abbreviation UCI_SESSION_STOP :: u8 where
  "UCI_SESSION_STOP \<equiv> 0x01"

abbreviation UCI_SESSION_GET_RANGING_COUNT :: u8 where
  "UCI_SESSION_GET_RANGING_COUNT \<equiv> 0x03"

abbreviation UCI_SESSION_DATA_CREDIT_NTF :: u8 where
  "UCI_SESSION_DATA_CREDIT_NTF \<equiv> 0x04"

abbreviation UCI_SESSION_DATA_TRANSFER_STATUS_NTF :: u8 where
  "UCI_SESSION_DATA_TRANSFER_STATUS_NTF \<equiv> 0x05"

abbreviation UCI_SESSION_LOGICAL_LINK_CREATE :: u8 where
  "UCI_SESSION_LOGICAL_LINK_CREATE \<equiv> 0x07"

abbreviation UCI_SESSION_LOGICAL_LINK_CLOSE :: u8 where
  "UCI_SESSION_LOGICAL_LINK_CLOSE \<equiv> 0x08"

abbreviation UCI_SESSION_LOGICAL_LINK_UWBS_CLOSE :: u8 where
  "UCI_SESSION_LOGICAL_LINK_UWBS_CLOSE \<equiv> 0x09"

abbreviation UCI_SESSION_LOGICAL_LINK_UWBS_CREATE :: u8 where
  "UCI_SESSION_LOGICAL_LINK_UWBS_CREATE \<equiv> 0x0A"

abbreviation UCI_SESSION_LOGICAL_LINK_GET_PARAM :: u8 where
  "UCI_SESSION_LOGICAL_LINK_GET_PARAM \<equiv> 0x0B"

abbreviation UCI_DEVICE_STATE_READY :: u8 where
  "UCI_DEVICE_STATE_READY \<equiv> 0x01"

abbreviation UCI_DEVICE_STATE_ACTIVE :: u8 where
  "UCI_DEVICE_STATE_ACTIVE \<equiv> 0x02"

abbreviation UCI_DEVICE_STATE_ERROR :: u8 where
  "UCI_DEVICE_STATE_ERROR \<equiv> 0xFF"

abbreviation UCI_DEVICE_CONFIG_DEVICE_STATE :: u8 where
  "UCI_DEVICE_CONFIG_DEVICE_STATE \<equiv> 0x00"

abbreviation UCI_DEVICE_CONFIG_LOW_POWER_MODE :: u8 where
  "UCI_DEVICE_CONFIG_LOW_POWER_MODE \<equiv> 0x01"

abbreviation UCI_DEVICE_CONFIG_DEVICE_PAN_ID :: u8 where
  "UCI_DEVICE_CONFIG_DEVICE_PAN_ID \<equiv> 0xA2"

abbreviation UCI_APP_CONFIG_DEVICE_TYPE :: u8 where
  "UCI_APP_CONFIG_DEVICE_TYPE \<equiv> 0x00"

abbreviation UCI_APP_CONFIG_STS_CONFIG :: u8 where
  "UCI_APP_CONFIG_STS_CONFIG \<equiv> 0x02"

abbreviation UCI_APP_CONFIG_RANGING_ROUND_USAGE :: u8 where
  "UCI_APP_CONFIG_RANGING_ROUND_USAGE \<equiv> 0x01"

abbreviation UCI_APP_CONFIG_MULTI_NODE_MODE :: u8 where
  "UCI_APP_CONFIG_MULTI_NODE_MODE \<equiv> 0x03"

abbreviation UCI_APP_CONFIG_CHANNEL_NUMBER :: u8 where
  "UCI_APP_CONFIG_CHANNEL_NUMBER \<equiv> 0x04"

abbreviation UCI_APP_CONFIG_NUMBER_OF_CONTROLEES :: u8 where
  "UCI_APP_CONFIG_NUMBER_OF_CONTROLEES \<equiv> 0x05"

abbreviation UCI_APP_CONFIG_DEVICE_MAC_ADDRESS :: u8 where
  "UCI_APP_CONFIG_DEVICE_MAC_ADDRESS \<equiv> 0x06"

abbreviation UCI_APP_CONFIG_DST_MAC_ADDRESS :: u8 where
  "UCI_APP_CONFIG_DST_MAC_ADDRESS \<equiv> 0x07"

abbreviation UCI_APP_CONFIG_SLOT_DURATION :: u8 where
  "UCI_APP_CONFIG_SLOT_DURATION \<equiv> 0x08"

abbreviation UCI_APP_CONFIG_RANGING_INTERVAL :: u8 where
  "UCI_APP_CONFIG_RANGING_INTERVAL \<equiv> 0x09"

abbreviation UCI_APP_CONFIG_AOA_RESULT_REQ :: u8 where
  "UCI_APP_CONFIG_AOA_RESULT_REQ \<equiv> 0x0D"

abbreviation UCI_APP_CONFIG_SESSION_INFO_NTF_CONFIG :: u8 where
  "UCI_APP_CONFIG_SESSION_INFO_NTF_CONFIG \<equiv> 0x0E"

abbreviation UCI_APP_CONFIG_RNG_DATA_NTF_PROXIMITY_NEAR :: u8 where
  "UCI_APP_CONFIG_RNG_DATA_NTF_PROXIMITY_NEAR \<equiv> 0x0F"

abbreviation UCI_APP_CONFIG_RNG_DATA_NTF_PROXIMITY_FAR :: u8 where
  "UCI_APP_CONFIG_RNG_DATA_NTF_PROXIMITY_FAR \<equiv> 0x10"

abbreviation UCI_APP_CONFIG_DEVICE_ROLE :: u8 where
  "UCI_APP_CONFIG_DEVICE_ROLE \<equiv> 0x11"

abbreviation UCI_APP_CONFIG_RSSI_REPORTING :: u8 where
  "UCI_APP_CONFIG_RSSI_REPORTING \<equiv> 0x13"

abbreviation UCI_APP_CONFIG_PREAMBLE_CODE_INDEX :: u8 where
  "UCI_APP_CONFIG_PREAMBLE_CODE_INDEX \<equiv> 0x14"

abbreviation UCI_APP_CONFIG_SFD_ID :: u8 where
  "UCI_APP_CONFIG_SFD_ID \<equiv> 0x15"

abbreviation UCI_APP_CONFIG_PSDU_DATA_RATE :: u8 where
  "UCI_APP_CONFIG_PSDU_DATA_RATE \<equiv> 0x16"

abbreviation UCI_APP_CONFIG_PREAMBLE_DURATION :: u8 where
  "UCI_APP_CONFIG_PREAMBLE_DURATION \<equiv> 0x17"

abbreviation UCI_APP_CONFIG_LINK_LAYER_MODE :: u8 where
  "UCI_APP_CONFIG_LINK_LAYER_MODE \<equiv> 0x18"

abbreviation UCI_APP_CONFIG_DATA_REPETITION_COUNT :: u8 where
  "UCI_APP_CONFIG_DATA_REPETITION_COUNT \<equiv> 0x19"

abbreviation UCI_APP_CONFIG_RANGING_TIME_STRUCT :: u8 where
  "UCI_APP_CONFIG_RANGING_TIME_STRUCT \<equiv> 0x1A"

abbreviation UCI_APP_CONFIG_SLOTS_PER_RR :: u8 where
  "UCI_APP_CONFIG_SLOTS_PER_RR \<equiv> 0x1B"

abbreviation UCI_APP_CONFIG_RESPONDER_SLOT_INDEX :: u8 where
  "UCI_APP_CONFIG_RESPONDER_SLOT_INDEX \<equiv> 0x1E"

abbreviation UCI_APP_CONFIG_CAP_SIZE_RANGE :: u8 where
  "UCI_APP_CONFIG_CAP_SIZE_RANGE \<equiv> 0x20"

abbreviation UCI_APP_CONFIG_SCHEDULED_MODE :: u8 where
  "UCI_APP_CONFIG_SCHEDULED_MODE \<equiv> 0x22"

abbreviation UCI_APP_CONFIG_KEY_ROTATION :: u8 where
  "UCI_APP_CONFIG_KEY_ROTATION \<equiv> 0x23"

abbreviation UCI_APP_CONFIG_KEY_ROTATION_RATE :: u8 where
  "UCI_APP_CONFIG_KEY_ROTATION_RATE \<equiv> 0x24"

abbreviation UCI_APP_CONFIG_BLOCK_STRIDE_LENGTH :: u8 where
  "UCI_APP_CONFIG_BLOCK_STRIDE_LENGTH \<equiv> 0x2D"

abbreviation UCI_APP_CONFIG_PRF_MODE :: u8 where
  "UCI_APP_CONFIG_PRF_MODE \<equiv> 0x1F"

abbreviation UCI_APP_CONFIG_MAC_ADDRESS_MODE :: u8 where
  "UCI_APP_CONFIG_MAC_ADDRESS_MODE \<equiv> 0x26"

abbreviation UCI_APP_CONFIG_STATIC_STS_IV :: u8 where
  "UCI_APP_CONFIG_STATIC_STS_IV \<equiv> 0x28"

abbreviation UCI_APP_CONFIG_NUMBER_OF_STS_SEGMENTS :: u8 where
  "UCI_APP_CONFIG_NUMBER_OF_STS_SEGMENTS \<equiv> 0x29"

abbreviation UCI_APP_CONFIG_MAX_RR_RETRY :: u8 where
  "UCI_APP_CONFIG_MAX_RR_RETRY \<equiv> 0x2A"

abbreviation UCI_APP_CONFIG_RESULT_REPORT_CONFIG :: u8 where
  "UCI_APP_CONFIG_RESULT_REPORT_CONFIG \<equiv> 0x2E"

abbreviation UCI_APP_CONFIG_MAX_NUMBER_OF_MEASUREMENTS :: u8 where
  "UCI_APP_CONFIG_MAX_NUMBER_OF_MEASUREMENTS \<equiv> 0x32"

abbreviation UCI_APP_CONFIG_STS_LENGTH :: u8 where
  "UCI_APP_CONFIG_STS_LENGTH \<equiv> 0x35"

abbreviation UCI_APP_CONFIG_SESSION_KEY :: u8 where
  "UCI_APP_CONFIG_SESSION_KEY \<equiv> 0x45"

abbreviation UCI_APP_CONFIG_SUBSESSION_KEY :: u8 where
  "UCI_APP_CONFIG_SUBSESSION_KEY \<equiv> 0x46"

abbreviation UCI_DEVICE_TYPE_CONTROLEE :: u8 where
  "UCI_DEVICE_TYPE_CONTROLEE \<equiv> 0x00"

abbreviation UCI_DEVICE_TYPE_CONTROLLER :: u8 where
  "UCI_DEVICE_TYPE_CONTROLLER \<equiv> 0x01"

abbreviation UCI_DEVICE_ROLE_RESPONDER :: u8 where
  "UCI_DEVICE_ROLE_RESPONDER \<equiv> 0x00"

abbreviation UCI_DEVICE_ROLE_INITIATOR :: u8 where
  "UCI_DEVICE_ROLE_INITIATOR \<equiv> 0x01"

abbreviation UCI_DEVICE_ROLE_ADVERTISER :: u8 where
  "UCI_DEVICE_ROLE_ADVERTISER \<equiv> 0x05"

abbreviation UCI_DEVICE_ROLE_OBSERVER :: u8 where
  "UCI_DEVICE_ROLE_OBSERVER \<equiv> 0x06"

abbreviation UCI_DEVICE_ROLE_DT_ANCHOR :: u8 where
  "UCI_DEVICE_ROLE_DT_ANCHOR \<equiv> 0x07"

abbreviation UCI_DEVICE_ROLE_DT_TAG :: u8 where
  "UCI_DEVICE_ROLE_DT_TAG \<equiv> 0x08"

abbreviation UCI_MAC_ADDRESS_MODE_SHORT :: u8 where
  "UCI_MAC_ADDRESS_MODE_SHORT \<equiv> 0x00"

abbreviation UCI_MAC_ADDRESS_MODE_EXTENDED :: u8 where
  "UCI_MAC_ADDRESS_MODE_EXTENDED \<equiv> 0x01"

abbreviation UCI_SCHEDULED_MODE_CONTENTION_BASED :: u8 where
  "UCI_SCHEDULED_MODE_CONTENTION_BASED \<equiv> 0x00"

abbreviation UCI_SCHEDULED_MODE_TIME_SCHEDULED :: u8 where
  "UCI_SCHEDULED_MODE_TIME_SCHEDULED \<equiv> 0x01"

abbreviation UCI_SCHEDULED_MODE_HYBRID :: u8 where
  "UCI_SCHEDULED_MODE_HYBRID \<equiv> 0x02"

abbreviation UCI_SESSION_TYPE_RANGING :: u8 where
  "UCI_SESSION_TYPE_RANGING \<equiv> 0x00"

abbreviation UCI_SESSION_TYPE_DATA :: u8 where
  "UCI_SESSION_TYPE_DATA \<equiv> 0x01"

abbreviation UCI_SESSION_TYPE_RADAR :: u8 where
  "UCI_SESSION_TYPE_RADAR \<equiv> 0xA1"

abbreviation UCI_SESSION_TYPE_TEST :: u8 where
  "UCI_SESSION_TYPE_TEST \<equiv> 0xD0"

abbreviation UCI_SESSION_STATE_INIT :: u8 where
  "UCI_SESSION_STATE_INIT \<equiv> 0x00"

abbreviation UCI_SESSION_STATE_DEINIT :: u8 where
  "UCI_SESSION_STATE_DEINIT \<equiv> 0x01"

abbreviation UCI_SESSION_STATE_ACTIVE :: u8 where
  "UCI_SESSION_STATE_ACTIVE \<equiv> 0x02"

abbreviation UCI_SESSION_STATE_IDLE :: u8 where
  "UCI_SESSION_STATE_IDLE \<equiv> 0x03"

abbreviation UCI_SESSION_REASON_STATE_CHANGE_WITH_SESSION_MANAGEMENT_COMMANDS :: u8 where
  "UCI_SESSION_REASON_STATE_CHANGE_WITH_SESSION_MANAGEMENT_COMMANDS \<equiv> 0x00"

abbreviation UCI_SESSION_REASON_MAX_NUMBER_OF_MEASUREMENTS_REACHED :: u8 where
  "UCI_SESSION_REASON_MAX_NUMBER_OF_MEASUREMENTS_REACHED \<equiv> 0x02"

abbreviation UCI_SESSION_REASON_ERROR_SLOT_LENGTH_NOT_SUPPORTED :: u8 where
  "UCI_SESSION_REASON_ERROR_SLOT_LENGTH_NOT_SUPPORTED \<equiv> 0x20"

abbreviation UCI_SESSION_REASON_ERROR_INSUFFICIENT_SLOTS_PER_RR :: u8 where
  "UCI_SESSION_REASON_ERROR_INSUFFICIENT_SLOTS_PER_RR \<equiv> 0x21"

abbreviation UCI_SESSION_REASON_ERROR_MAC_ADDRESS_MODE_NOT_SUPPORTED :: u8 where
  "UCI_SESSION_REASON_ERROR_MAC_ADDRESS_MODE_NOT_SUPPORTED \<equiv> 0x22"

abbreviation UCI_SESSION_REASON_ERROR_INVALID_RANGING_INTERVAL :: u8 where
  "UCI_SESSION_REASON_ERROR_INVALID_RANGING_INTERVAL \<equiv> 0x23"

abbreviation UCI_SESSION_REASON_ERROR_INVALID_STS_CONFIG :: u8 where
  "UCI_SESSION_REASON_ERROR_INVALID_STS_CONFIG \<equiv> 0x24"

abbreviation UCI_SESSION_REASON_ERROR_INVALID_PREAMBLE_CODE_INDEX :: u8 where
  "UCI_SESSION_REASON_ERROR_INVALID_PREAMBLE_CODE_INDEX \<equiv> 0x2C"

abbreviation UCI_SESSION_REASON_ERROR_INVALID_SFD_ID :: u8 where
  "UCI_SESSION_REASON_ERROR_INVALID_SFD_ID \<equiv> 0x2D"

abbreviation UCI_SESSION_REASON_ERROR_INVALID_PSDU_DATA_RATE :: u8 where
  "UCI_SESSION_REASON_ERROR_INVALID_PSDU_DATA_RATE \<equiv> 0x2E"

abbreviation UCI_SESSION_REASON_ERROR_INVALID_PREAMBLE_DURATION :: u8 where
  "UCI_SESSION_REASON_ERROR_INVALID_PREAMBLE_DURATION \<equiv> 0x30"

abbreviation UCI_SESSION_REASON_ERROR_INVALID_STS_LENGTH :: u8 where
  "UCI_SESSION_REASON_ERROR_INVALID_STS_LENGTH \<equiv> 0x31"

abbreviation UCI_SESSION_REASON_ERROR_INVALID_NUM_OF_CONTROLEES :: u8 where
  "UCI_SESSION_REASON_ERROR_INVALID_NUM_OF_CONTROLEES \<equiv> 0x33"

abbreviation UCI_SESSION_REASON_ERROR_INVALID_DST_ADDRESS_LIST :: u8 where
  "UCI_SESSION_REASON_ERROR_INVALID_DST_ADDRESS_LIST \<equiv> 0x35"

abbreviation UCI_SESSION_REASON_ERROR_INVALID_RESULT_REPORT_CONFIG :: u8 where
  "UCI_SESSION_REASON_ERROR_INVALID_RESULT_REPORT_CONFIG \<equiv> 0x37"

abbreviation UCI_SESSION_REASON_ERROR_INVALID_RANGING_ROUND_USAGE :: u8 where
  "UCI_SESSION_REASON_ERROR_INVALID_RANGING_ROUND_USAGE \<equiv> 0x39"

abbreviation UCI_SESSION_REASON_ERROR_INVALID_MULTI_NODE_MODE :: u8 where
  "UCI_SESSION_REASON_ERROR_INVALID_MULTI_NODE_MODE \<equiv> 0x3A"

abbreviation UCI_SESSION_REASON_ERROR_REF_UWB_SESSION_DOES_NOT_EXIST :: u8 where
  "UCI_SESSION_REASON_ERROR_REF_UWB_SESSION_DOES_NOT_EXIST \<equiv> 0x3C"

abbreviation UCI_SESSION_REASON_ERROR_REF_UWB_SESSION_RANGING_DURATION_MISMATCH :: u8 where
  "UCI_SESSION_REASON_ERROR_REF_UWB_SESSION_RANGING_DURATION_MISMATCH \<equiv> 0x3D"

abbreviation UCI_SESSION_REASON_ERROR_REF_UWB_SESSION_INVALID_OFFSET_TIME :: u8 where
  "UCI_SESSION_REASON_ERROR_REF_UWB_SESSION_INVALID_OFFSET_TIME \<equiv> 0x3E"

abbreviation UCI_SESSION_REASON_ERROR_REF_UWB_SESSION_LOST :: u8 where
  "UCI_SESSION_REASON_ERROR_REF_UWB_SESSION_LOST \<equiv> 0x3F"

abbreviation UCI_SESSION_REASON_ERROR_INVALID_CAP_SIZE_RANGE :: u8 where
  "UCI_SESSION_REASON_ERROR_INVALID_CAP_SIZE_RANGE \<equiv> 0xFA"

abbreviation UCI_MULTICAST_ACTION_ADD :: u8 where
  "UCI_MULTICAST_ACTION_ADD \<equiv> 0x00"

abbreviation UCI_MULTICAST_ACTION_REMOVE :: u8 where
  "UCI_MULTICAST_ACTION_REMOVE \<equiv> 0x01"

abbreviation UCI_MULTICAST_ACTION_ADD_SHORT_KEY :: u8 where
  "UCI_MULTICAST_ACTION_ADD_SHORT_KEY \<equiv> 0x02"

abbreviation UCI_MULTICAST_ACTION_ADD_LONG_KEY :: u8 where
  "UCI_MULTICAST_ACTION_ADD_LONG_KEY \<equiv> 0x03"

abbreviation UCI_DATA_TRANSFER_STATUS_REPETITION_OK :: u8 where
  "UCI_DATA_TRANSFER_STATUS_REPETITION_OK \<equiv> 0x00"

abbreviation UCI_DATA_TRANSFER_STATUS_OK :: u8 where
  "UCI_DATA_TRANSFER_STATUS_OK \<equiv> 0x01"

abbreviation UCI_DATA_TRANSFER_STATUS_ERROR_DATA_TRANSFER :: u8 where
  "UCI_DATA_TRANSFER_STATUS_ERROR_DATA_TRANSFER \<equiv> 0x02"

abbreviation UCI_DATA_TRANSFER_STATUS_ERROR_NO_CREDIT_AVAILABLE :: u8 where
  "UCI_DATA_TRANSFER_STATUS_ERROR_NO_CREDIT_AVAILABLE \<equiv> 0x03"

abbreviation UCI_DATA_TRANSFER_STATUS_ERROR_REJECTED :: u8 where
  "UCI_DATA_TRANSFER_STATUS_ERROR_REJECTED \<equiv> 0x04"

abbreviation UCI_DATA_TRANSFER_STATUS_SESSION_TYPE_NOT_SUPPORTED :: u8 where
  "UCI_DATA_TRANSFER_STATUS_SESSION_TYPE_NOT_SUPPORTED \<equiv> 0x05"

abbreviation UCI_DATA_TRANSFER_STATUS_ERROR_DATA_TRANSFER_IS_ONGOING :: u8 where
  "UCI_DATA_TRANSFER_STATUS_ERROR_DATA_TRANSFER_IS_ONGOING \<equiv> 0x06"

abbreviation UCI_DATA_TRANSFER_STATUS_INVALID_FORMAT :: u8 where
  "UCI_DATA_TRANSFER_STATUS_INVALID_FORMAT \<equiv> 0x07"

end
