(* ===== verification/Profile.thy ===== *)
theory Profile
  imports Uci_Spec
begin

text \<open>
  \<open>include/uci_sim_profile.h\<close> and \<open>src/spec/uci_sim_profile.c\<close>: the device profile, the
  default profile and the queries on a profile. The C struct is one flat list of about 150
  members; the record groups them as their names do: the capability limits
  (\<open>supported_X_max\<close>, \<open>supported_X_mask\<close>, ...) are \<open>profile_limits\<close>, the triples
  \<open>invalid_X_status\<close>, \<open>invalid_X_reason_code\<close>, \<open>invalid_X_surface\<close> are values of
  \<open>invalid_policy\<close>, and an array with its count is a list. \<open>device->profile\<close> may be NULL,
  so the queries take an option.
\<close>

subsection \<open>The profile as a record\<close>

abbreviation UCI_SIM_INVALID_CONFIG_SURFACE_IMMEDIATE :: u8 where
  "UCI_SIM_INVALID_CONFIG_SURFACE_IMMEDIATE \<equiv> 0"

abbreviation UCI_SIM_INVALID_CONFIG_SURFACE_SESSION_STATUS :: u8 where
  "UCI_SIM_INVALID_CONFIG_SURFACE_SESSION_STATUS \<equiv> 1"

abbreviation UCI_SIM_MAX_RANGE_DATA_TEMPLATE :: nat where
  "UCI_SIM_MAX_RANGE_DATA_TEMPLATE \<equiv> 64"

abbreviation UCI_SIM_MAX_PROFILE_APP_CONFIG_LEN :: nat where
  "UCI_SIM_MAX_PROFILE_APP_CONFIG_LEN \<equiv> 32"

record uci_sim_session_transition =
  tr_oid :: u8
  tr_allowed_states_mask :: u8
  tr_next_state :: u8
  tr_invalid_status :: u8

record invalid_policy =
  inv_status :: u8
  inv_reason :: u8
  inv_surface :: u8

record profile_limits =
  supported_min_ranging_interval_ms :: u16
  supported_min_slot_duration_rstu :: u16
  supported_result_report_config_mask :: u8
  supported_sts_config_mask :: u8
  supported_aoa_result_req_max :: u8
  supported_prf_mode_max :: u8
  supported_bprf_preamble_code_index_min :: u8
  supported_bprf_preamble_code_index_max :: u8
  supported_hprf_preamble_code_index_min :: u8
  supported_hprf_preamble_code_index_max :: u8
  supported_bprf_sfd_id_mask :: u8
  supported_hprf_sfd_id_mask :: u8
  supported_psdu_data_rate_max :: u8
  supported_preamble_duration_max :: u8
  supported_sts_length_max :: u8
  supported_key_rotation_max :: u8
  supported_key_rotation_rate_max :: u8
  supported_number_of_sts_segments_max :: u8
  supported_link_layer_mode_max :: u8
  supported_ranging_time_struct_mask :: u8
  supported_scheduled_mode_mask :: u8
  supported_max_block_stride_length :: u8
  supported_min_slots_per_rr :: u8
  supported_max_slots_per_rr :: u8
  supported_rssi_reporting_max :: u8
  supported_ranging_round_usage_mask :: u16
  supported_multi_node_mode_mask :: u8
  supported_channel_number_mask :: u16
  supported_max_controlees :: u8
  supported_mac_address_mode_mask :: u8
  supported_device_type_mask :: u8

record profile_policies =
  invalid_ranging_interval :: invalid_policy
  invalid_slot_duration :: invalid_policy
  invalid_result_report_config :: invalid_policy
  invalid_sts_config :: invalid_policy
  invalid_aoa_result_req :: invalid_policy
  invalid_prf_mode :: invalid_policy
  invalid_preamble_code_index :: invalid_policy
  invalid_sfd_id :: invalid_policy
  invalid_psdu_data_rate :: invalid_policy
  invalid_preamble_duration :: invalid_policy
  invalid_sts_length :: invalid_policy
  invalid_key_rotation :: invalid_policy
  invalid_key_rotation_rate :: invalid_policy
  invalid_number_of_sts_segments :: invalid_policy
  invalid_link_layer_mode :: invalid_policy
  invalid_ranging_time_struct :: invalid_policy
  invalid_scheduled_mode :: invalid_policy
  invalid_block_stride_length :: invalid_policy
  invalid_slots_per_rr :: invalid_policy
  invalid_cap_size_range :: invalid_policy
  invalid_rssi_reporting :: invalid_policy
  invalid_ranging_round_usage :: invalid_policy
  invalid_multi_node_mode :: invalid_policy
  invalid_channel_number :: invalid_policy
  invalid_num_of_controlees :: invalid_policy
  invalid_mac_address_mode :: invalid_policy
  invalid_device_mac_address :: invalid_policy
  invalid_dst_mac_address :: invalid_policy
  invalid_device_type :: invalid_policy

record uci_sim_profile =
  profile_name :: string
  uci_version :: u16
  mac_version :: u16
  phy_version :: u16
  test_version :: u16
  vendor_specific_length :: u8
  vendor_specific_data :: bytes
  device_stats_temperature :: u16
  default_device_state :: u8
  default_low_power_mode :: u8
  default_device_pan_id :: bytes
  initial_uwbs_timestamp :: u64
  uwbs_timestamp_increment :: u64
  default_session_type :: u8
  initial_session_state :: u8
  session_status_reason_code :: u8
  limits :: profile_limits
  policies :: profile_policies
  session_transitions :: "uci_sim_session_transition list"
  default_session_max_data_size :: u16
  ranging_interval_ms :: u32
  ranging_event_period_ms :: u32
  ranging_stream_burst_count :: u8
  core_caps_payload :: bytes
  core_caps_payload_len :: u16
  range_data_notification_oid :: u8
  range_data_payload_template :: bytes
  range_data_payload_len :: u16
  range_data_sequence_offset :: u8
  range_data_primary_session_id_offset :: u8
  range_data_secondary_session_id_offset :: u8
  range_data_interval_offset :: u8
  range_data_measurement_type_offset :: u8
  range_data_measurement_distance_offset :: u8
  range_data_distance_base_cm :: u16
  range_data_distance_step_cm :: u16
  supported_core_oids :: bytes
  supported_session_config_oids :: bytes
  supported_session_control_oids :: bytes
  supported_core_config_ids :: bytes
  supported_session_app_config_ids :: bytes
  default_session_app_config_ids :: bytes
  default_session_app_config_value_lens :: bytes
  default_session_app_config_values :: "bytes list"
  supported_notification_oids :: bytes

text \<open>
  The first \<open>n\<close> bytes of a C array of \<open>cap\<close> bytes whose initialiser is \<open>xs\<close>: the members
  the initialiser leaves out are zero.
\<close>

definition array_prefix :: "nat \<Rightarrow> nat \<Rightarrow> bytes \<Rightarrow> bytes" where
  "array_prefix cap n xs = take n (xs @ replicate (cap - length xs) 0)"

lemma length_array_prefix: "length xs \<le> cap \<Longrightarrow> n \<le> cap \<Longrightarrow> length (array_prefix cap n xs) = n"
  by (simp add: array_prefix_def)

subsection \<open>The default profile\<close>

definition default_vendor_specific_data :: bytes where
  "default_vendor_specific_data =
     [0x01, 0x00, 0x00, 0x00, 0x42, 0x00, 0x00, 0x00, 0x00, 0x00, 0x00, 0x00,
      0x01, 0x00, 0x00, 0x51, 0x4D, 0x33, 0x35, 0x38, 0x32, 0x35, 0x00, 0x00,
      0x00, 0x00, 0x00, 0x00, 0x00, 0x00, 0x00, 0x00, 0x00, 0x00, 0x00, 0x00,
      0x00, 0x00, 0x00, 0x00, 0x00, 0x00, 0x00, 0x00, 0x00, 0x00, 0x00, 0xED,
      0x8B, 0x00, 0x00, 0x01, 0x51, 0x4D, 0x33, 0x35, 0x38, 0x32, 0x35, 0x5F,
      0x53, 0x49, 0x50, 0x5F, 0x56, 0x31, 0x2E, 0x30, 0x20, 0x20, 0x20, 0x20,
      0x20, 0x20, 0x20, 0x20, 0xED, 0x8B, 0x00, 0x00, 0x02, 0x00, 0x00, 0x00,
      0x01, 0x00]"

definition default_limits :: profile_limits where
  "default_limits = \<lparr>
     supported_min_ranging_interval_ms = 50,
     supported_min_slot_duration_rstu = 16,
     supported_result_report_config_mask = 0x0F,
     supported_sts_config_mask = 0x1F,
     supported_aoa_result_req_max = 0x03,
     supported_prf_mode_max = 0x02,
     supported_bprf_preamble_code_index_min = 9,
     supported_bprf_preamble_code_index_max = 12,
     supported_hprf_preamble_code_index_min = 25,
     supported_hprf_preamble_code_index_max = 32,
     supported_bprf_sfd_id_mask = push_bit 0 1 OR push_bit 2 1,
     supported_hprf_sfd_id_mask = push_bit 1 1 OR push_bit 2 1 OR push_bit 3 1 OR push_bit 4 1,
     supported_psdu_data_rate_max = 0x03,
     supported_preamble_duration_max = 0x01,
     supported_sts_length_max = 0x02,
     supported_key_rotation_max = 0x01,
     supported_key_rotation_rate_max = 0x0F,
     supported_number_of_sts_segments_max = 0x04,
     supported_link_layer_mode_max = 0x01,
     supported_ranging_time_struct_mask = push_bit 0 1 OR push_bit 1 1,
     supported_scheduled_mode_mask = push_bit 1 1,
     supported_max_block_stride_length = 0xFF,
     supported_min_slots_per_rr = 1,
     supported_max_slots_per_rr = 0xFF,
     supported_rssi_reporting_max = 0x01,
     supported_ranging_round_usage_mask = push_bit 1 1 OR push_bit 2 1 OR push_bit 3 1 OR push_bit 4 1 OR push_bit 7 1 OR push_bit 8 1,
     supported_multi_node_mode_mask = push_bit 0 1 OR push_bit 1 1 OR push_bit 2 1,
     supported_channel_number_mask = push_bit 5 1 OR push_bit 9 1,
     supported_max_controlees = 8,
     supported_mac_address_mode_mask = push_bit 0 1,
     supported_device_type_mask = push_bit 0 1 OR push_bit 1 1\<rparr>"

definition default_policies :: profile_policies where
  "default_policies = \<lparr>
     invalid_ranging_interval = \<lparr>inv_status = UCI_STATUS_INVALID_RANGE,
       inv_reason = UCI_SESSION_REASON_ERROR_INVALID_RANGING_INTERVAL,
       inv_surface = UCI_SIM_INVALID_CONFIG_SURFACE_IMMEDIATE\<rparr>,
     invalid_slot_duration = \<lparr>inv_status = UCI_STATUS_INVALID_PARAM,
       inv_reason = UCI_SESSION_REASON_ERROR_SLOT_LENGTH_NOT_SUPPORTED,
       inv_surface = UCI_SIM_INVALID_CONFIG_SURFACE_IMMEDIATE\<rparr>,
     invalid_result_report_config = \<lparr>inv_status = UCI_STATUS_INVALID_PARAM,
       inv_reason = UCI_SESSION_REASON_ERROR_INVALID_RESULT_REPORT_CONFIG,
       inv_surface = UCI_SIM_INVALID_CONFIG_SURFACE_IMMEDIATE\<rparr>,
     invalid_sts_config = \<lparr>inv_status = UCI_STATUS_INVALID_PARAM,
       inv_reason = UCI_SESSION_REASON_ERROR_INVALID_STS_CONFIG,
       inv_surface = UCI_SIM_INVALID_CONFIG_SURFACE_IMMEDIATE\<rparr>,
     invalid_aoa_result_req = \<lparr>inv_status = UCI_STATUS_INVALID_PARAM,
       inv_reason = UCI_SESSION_REASON_STATE_CHANGE_WITH_SESSION_MANAGEMENT_COMMANDS,
       inv_surface = UCI_SIM_INVALID_CONFIG_SURFACE_IMMEDIATE\<rparr>,
     invalid_prf_mode = \<lparr>inv_status = UCI_STATUS_INVALID_PARAM,
       inv_reason = UCI_SESSION_REASON_STATE_CHANGE_WITH_SESSION_MANAGEMENT_COMMANDS,
       inv_surface = UCI_SIM_INVALID_CONFIG_SURFACE_IMMEDIATE\<rparr>,
     invalid_preamble_code_index = \<lparr>inv_status = UCI_STATUS_INVALID_PARAM,
       inv_reason = UCI_SESSION_REASON_ERROR_INVALID_PREAMBLE_CODE_INDEX,
       inv_surface = UCI_SIM_INVALID_CONFIG_SURFACE_IMMEDIATE\<rparr>,
     invalid_sfd_id = \<lparr>inv_status = UCI_STATUS_INVALID_PARAM,
       inv_reason = UCI_SESSION_REASON_ERROR_INVALID_SFD_ID,
       inv_surface = UCI_SIM_INVALID_CONFIG_SURFACE_IMMEDIATE\<rparr>,
     invalid_psdu_data_rate = \<lparr>inv_status = UCI_STATUS_INVALID_PARAM,
       inv_reason = UCI_SESSION_REASON_ERROR_INVALID_PSDU_DATA_RATE,
       inv_surface = UCI_SIM_INVALID_CONFIG_SURFACE_IMMEDIATE\<rparr>,
     invalid_preamble_duration = \<lparr>inv_status = UCI_STATUS_INVALID_PARAM,
       inv_reason = UCI_SESSION_REASON_ERROR_INVALID_PREAMBLE_DURATION,
       inv_surface = UCI_SIM_INVALID_CONFIG_SURFACE_IMMEDIATE\<rparr>,
     invalid_sts_length = \<lparr>inv_status = UCI_STATUS_INVALID_PARAM,
       inv_reason = UCI_SESSION_REASON_ERROR_INVALID_STS_LENGTH,
       inv_surface = UCI_SIM_INVALID_CONFIG_SURFACE_IMMEDIATE\<rparr>,
     invalid_key_rotation = \<lparr>inv_status = UCI_STATUS_INVALID_PARAM,
       inv_reason = UCI_SESSION_REASON_STATE_CHANGE_WITH_SESSION_MANAGEMENT_COMMANDS,
       inv_surface = UCI_SIM_INVALID_CONFIG_SURFACE_IMMEDIATE\<rparr>,
     invalid_key_rotation_rate = \<lparr>inv_status = UCI_STATUS_INVALID_PARAM,
       inv_reason = UCI_SESSION_REASON_STATE_CHANGE_WITH_SESSION_MANAGEMENT_COMMANDS,
       inv_surface = UCI_SIM_INVALID_CONFIG_SURFACE_IMMEDIATE\<rparr>,
     invalid_number_of_sts_segments = \<lparr>inv_status = UCI_STATUS_INVALID_PARAM,
       inv_reason = UCI_SESSION_REASON_STATE_CHANGE_WITH_SESSION_MANAGEMENT_COMMANDS,
       inv_surface = UCI_SIM_INVALID_CONFIG_SURFACE_IMMEDIATE\<rparr>,
     invalid_link_layer_mode = \<lparr>inv_status = UCI_STATUS_INVALID_PARAM,
       inv_reason = UCI_SESSION_REASON_STATE_CHANGE_WITH_SESSION_MANAGEMENT_COMMANDS,
       inv_surface = UCI_SIM_INVALID_CONFIG_SURFACE_IMMEDIATE\<rparr>,
     invalid_ranging_time_struct = \<lparr>inv_status = UCI_STATUS_INVALID_PARAM,
       inv_reason = UCI_SESSION_REASON_STATE_CHANGE_WITH_SESSION_MANAGEMENT_COMMANDS,
       inv_surface = UCI_SIM_INVALID_CONFIG_SURFACE_IMMEDIATE\<rparr>,
     invalid_scheduled_mode = \<lparr>inv_status = UCI_STATUS_INVALID_PARAM,
       inv_reason = UCI_SESSION_REASON_STATE_CHANGE_WITH_SESSION_MANAGEMENT_COMMANDS,
       inv_surface = UCI_SIM_INVALID_CONFIG_SURFACE_IMMEDIATE\<rparr>,
     invalid_block_stride_length = \<lparr>inv_status = UCI_STATUS_INVALID_PARAM,
       inv_reason = UCI_SESSION_REASON_STATE_CHANGE_WITH_SESSION_MANAGEMENT_COMMANDS,
       inv_surface = UCI_SIM_INVALID_CONFIG_SURFACE_IMMEDIATE\<rparr>,
     invalid_slots_per_rr = \<lparr>inv_status = UCI_STATUS_INVALID_PARAM,
       inv_reason = UCI_SESSION_REASON_ERROR_INSUFFICIENT_SLOTS_PER_RR,
       inv_surface = UCI_SIM_INVALID_CONFIG_SURFACE_IMMEDIATE\<rparr>,
     invalid_cap_size_range = \<lparr>inv_status = UCI_STATUS_INVALID_PARAM,
       inv_reason = UCI_SESSION_REASON_ERROR_INVALID_CAP_SIZE_RANGE,
       inv_surface = UCI_SIM_INVALID_CONFIG_SURFACE_IMMEDIATE\<rparr>,
     invalid_rssi_reporting = \<lparr>inv_status = UCI_STATUS_INVALID_PARAM,
       inv_reason = UCI_SESSION_REASON_STATE_CHANGE_WITH_SESSION_MANAGEMENT_COMMANDS,
       inv_surface = UCI_SIM_INVALID_CONFIG_SURFACE_IMMEDIATE\<rparr>,
     invalid_ranging_round_usage = \<lparr>inv_status = UCI_STATUS_INVALID_PARAM,
       inv_reason = UCI_SESSION_REASON_ERROR_INVALID_RANGING_ROUND_USAGE,
       inv_surface = UCI_SIM_INVALID_CONFIG_SURFACE_IMMEDIATE\<rparr>,
     invalid_multi_node_mode = \<lparr>inv_status = UCI_STATUS_INVALID_PARAM,
       inv_reason = UCI_SESSION_REASON_ERROR_INVALID_MULTI_NODE_MODE,
       inv_surface = UCI_SIM_INVALID_CONFIG_SURFACE_IMMEDIATE\<rparr>,
     invalid_channel_number = \<lparr>inv_status = UCI_STATUS_INVALID_PARAM,
       inv_reason = UCI_SESSION_REASON_STATE_CHANGE_WITH_SESSION_MANAGEMENT_COMMANDS,
       inv_surface = UCI_SIM_INVALID_CONFIG_SURFACE_IMMEDIATE\<rparr>,
     invalid_num_of_controlees = \<lparr>inv_status = UCI_STATUS_INVALID_PARAM,
       inv_reason = UCI_SESSION_REASON_ERROR_INVALID_NUM_OF_CONTROLEES,
       inv_surface = UCI_SIM_INVALID_CONFIG_SURFACE_IMMEDIATE\<rparr>,
     invalid_mac_address_mode = \<lparr>inv_status = UCI_STATUS_INVALID_PARAM,
       inv_reason = UCI_SESSION_REASON_ERROR_MAC_ADDRESS_MODE_NOT_SUPPORTED,
       inv_surface = UCI_SIM_INVALID_CONFIG_SURFACE_IMMEDIATE\<rparr>,
     invalid_device_mac_address = \<lparr>inv_status = UCI_STATUS_INVALID_PARAM,
       inv_reason = UCI_SESSION_REASON_STATE_CHANGE_WITH_SESSION_MANAGEMENT_COMMANDS,
       inv_surface = UCI_SIM_INVALID_CONFIG_SURFACE_IMMEDIATE\<rparr>,
     invalid_dst_mac_address = \<lparr>inv_status = UCI_STATUS_INVALID_PARAM,
       inv_reason = UCI_SESSION_REASON_ERROR_INVALID_DST_ADDRESS_LIST,
       inv_surface = UCI_SIM_INVALID_CONFIG_SURFACE_IMMEDIATE\<rparr>,
     invalid_device_type = \<lparr>inv_status = UCI_STATUS_INVALID_PARAM,
       inv_reason = UCI_SESSION_REASON_STATE_CHANGE_WITH_SESSION_MANAGEMENT_COMMANDS,
       inv_surface = UCI_SIM_INVALID_CONFIG_SURFACE_IMMEDIATE\<rparr>\<rparr>"

definition default_session_transitions :: "uci_sim_session_transition list" where
  "default_session_transitions = [
     \<lparr>tr_oid = UCI_SESSION_START, tr_allowed_states_mask = push_bit 0 1 OR push_bit 3 1,
      tr_next_state = UCI_SESSION_STATE_ACTIVE, tr_invalid_status = UCI_STATUS_REJECTED\<rparr>,
     \<lparr>tr_oid = UCI_SESSION_STOP, tr_allowed_states_mask = push_bit 2 1,
      tr_next_state = UCI_SESSION_STATE_IDLE, tr_invalid_status = UCI_STATUS_REJECTED\<rparr>]"

definition default_core_caps_payload :: bytes where
  "default_core_caps_payload =
     [UCI_STATUS_OK, 0x01, 0xE4, 0x04,
      ucast ((50 :: u32) AND 0xFF), ucast (drop_bit 8 (50 :: u32) AND 0xFF), 0x00, 0x00]"

definition default_range_data_payload_template :: bytes where
  "default_range_data_payload_template =
     [0x00, 0x00, 0x00, 0x00, 0x00, 0x00, 0x00, 0x00, 0x00, 0xD0, 0x07, 0x00,
      0x00, 0x01, 0x00, 0x00, 0x00, 0x00, 0x00, 0x00, 0x00, 0x00, 0x00, 0x00,
      0x01, 0x12, 0x34, 0x00, 0x00, 0x64, 0x00, 0x14, 0x00, 0x08, 0x05, 0x00,
      0x07, 0x10, 0x00, 0x06, 0x03, 0x00, 0x09, 0x02, 0xE0, 0x00, 0x00, 0x00,
      0x00, 0x00, 0x00, 0x00]"

definition default_supported_session_config_oids :: bytes where
  "default_supported_session_config_oids =
     [UCI_SESSION_INIT, UCI_SESSION_DEINIT, UCI_SESSION_SET_APP_CONFIG,
      UCI_SESSION_GET_APP_CONFIG, UCI_SESSION_GET_COUNT, UCI_SESSION_GET_STATE,
      UCI_SESSION_UPDATE_CONTROLLER_MULTICAST_LIST, UCI_SESSION_UPDATE_DT_ANCHOR_RANGING_ROUNDS, UCI_SESSION_UPDATE_DT_TAG_RANGING_ROUNDS,
      UCI_SESSION_DATA_TRANSFER_PHASE_CONFIG, UCI_SESSION_QUERY_DATA_SIZE_IN_RANGING]"

definition default_supported_session_control_oids :: bytes where
  "default_supported_session_control_oids =
     [UCI_SESSION_START, UCI_SESSION_STOP, UCI_SESSION_GET_RANGING_COUNT,
      UCI_SESSION_LOGICAL_LINK_CREATE, UCI_SESSION_LOGICAL_LINK_CLOSE, UCI_SESSION_LOGICAL_LINK_GET_PARAM]"

definition default_supported_session_app_config_ids :: bytes where
  "default_supported_session_app_config_ids =
     [0x00, 0x01, 0x02, 0x03, 0x04, 0x05, 0x06, 0x07, 0x08, 0x09, 0x0A, 0x0B,
      0x0C, 0x0D, 0x0E, 0x0F, 0x10, 0x11, 0x12, 0x13, 0x14, 0x15, 0x16, 0x17,
      0x18, 0x19, 0x1A, 0x1B, 0x1C, 0x1D, 0x1E, 0x1F, 0x20, 0x21, 0x22, 0x23,
      0x24, 0x25, 0x26, 0x27, 0x28, 0x29, 0x2A, 0x2B, 0x2C, 0x2D, 0x2E, 0x2F,
      0x30, 0x31, 0x32, 0x33, 0x34, 0x35, 0x36, 0x37, 0x38, 0x39, 0x3A, 0x3B,
      0x3C, 0x3D, 0x3E, 0x3F, 0x40, 0x41, 0x42, 0x43, 0x44, 0x45, 0x46, 0x47,
      0x49, 0x4A, 0x4B, 0x4C, 0x4D, 0xB6, 0xE6, 0xE7]"

definition default_app_config_ids :: bytes where
  "default_app_config_ids =
     [0x00, 0x01, 0x02, 0x03, 0x04, 0x05, 0x06, 0x07, 0x08, 0x09, 0x0A, 0x0B,
      0x0C, 0x0D, 0x0E, 0x0F, 0x10, 0x11, 0x12, 0x13, 0x14, 0x15, 0x16, 0x17,
      0x18, 0x19, 0x1A, 0x1B, 0x1C, 0x1D, 0x1E, 0x1F, 0x20, 0x21, 0x22, 0x23,
      0x24, 0x25, 0x26, 0x27, 0x28, 0x29, 0x2A, 0x2B, 0x2C, 0x2D, 0x2E, 0x2F,
      0x30, 0x31, 0x32, 0x33, 0x34, 0x35, 0x36, 0x37, 0x38, 0x39, 0x3A, 0x3B,
      0x3C, 0x3D, 0x3E, 0x3F, 0x40, 0x41, 0x42, 0x43, 0x44, 0x45, 0x46, 0x47,
      0x49, 0x4A, 0x4B, 0x4C, 0x4D]"

definition default_app_config_value_lens :: bytes where
  "default_app_config_value_lens =
     [1, 1, 1, 1, 1, 1, 2, 6, 2, 4, 4, 1, 1, 1, 1, 2, 2, 1, 1, 1,
      1, 1, 1, 1, 1, 1, 1, 1, 1, 2, 1, 1, 2, 2, 1, 1, 2, 1, 1, 2,
      8, 1, 2, 4, 1, 1, 1, 1, 4, 1, 2, 4, 4, 1, 1, 3, 1, 1, 1, 2,
      1, 1, 1, 1, 1, 1, 1, 1, 1, 16, 16, 1, 1, 1, 1, 1, 1]"

definition default_app_config_values :: "bytes list" where
  "default_app_config_values =
     [[0x01], [0x01], [0x01], [0x01], [0x05], [0x03], [0xCD, 0xAB],
      [0x78, 0x56, 0x89, 0x67, 0x9A, 0x78], [0x60, 0x09], [0xD0, 0x07, 0x00, 0x00],
      [0x05, 0x00, 0x00, 0x00], [0x01], [0x05], [0x03], [0x01], [0x64, 0x00], [0xF4, 0x01],
      [0x01], [0x02], [0x01], [0x0C], [0x02], [0x01], [0x01], [0x01], [0x00], [0x00], [0x06],
      [0x01], [0x2D, 0x00], [0x00], [0x00], [0x00, 0x00], [0x10, 0x00], [0x01], [0x01],
      [0x0F, 0x00], [0x4B], [0x00], [0x34, 0x12],
      [0x01, 0x02, 0x03, 0x04, 0x05, 0x06, 0x07, 0x08], [0x02], [0x00, 0x00],
      [0xE8, 0x03, 0x00, 0x00], [0x01], [0x00], [0x07], [0x04], [0x78, 0x56, 0x34, 0x12],
      [0x01], [0x10, 0x00], [0x64, 0x00, 0x00, 0x00], [0xFA, 0x00, 0x00, 0x00], [0x02],
      [0x03], [0x01, 0x02, 0x03], [0x07], [0x01], [0x02], [0x00, 0x04], [0x05], [0x01],
      [0x03], [0x01], [0x01], [0x00], [0x01], [0x01], [0x01],
      [0x00, 0x11, 0x22, 0x33, 0x44, 0x55, 0x66, 0x77, 0x88, 0x99, 0xAA, 0xBB, 0xCC, 0xDD, 0xEE, 0xFF],
      [0xFF, 0xEE, 0xDD, 0xCC, 0xBB, 0xAA, 0x99, 0x88, 0x77, 0x66, 0x55, 0x44, 0x33, 0x22, 0x11, 0x00],
      [0x01], [0x01], [0x02], [0x03], [0x01], [0x0A]]"

definition k_default_profile :: uci_sim_profile where
  "k_default_profile = \<lparr>
     profile_name = ''default_qorvo_like'',
     uci_version = 0x0100,
     mac_version = 0x0200,
     phy_version = 0x0200,
     test_version = 0x0100,
     vendor_specific_length = 86,
     vendor_specific_data = default_vendor_specific_data,
     device_stats_temperature = 3500,
     default_device_state = UCI_DEVICE_STATE_READY,
     default_low_power_mode = 0x00,
     default_device_pan_id = [0x00, 0x00],
     initial_uwbs_timestamp = 0x1122334455667788,
     uwbs_timestamp_increment = 1,
     default_session_type = UCI_SESSION_TYPE_RANGING,
     initial_session_state = UCI_SESSION_STATE_INIT,
     session_status_reason_code = UCI_SESSION_REASON_STATE_CHANGE_WITH_SESSION_MANAGEMENT_COMMANDS,
     limits = default_limits,
     policies = default_policies,
     session_transitions = default_session_transitions,
     default_session_max_data_size = 0x0200,
     ranging_interval_ms = 2000,
     ranging_event_period_ms = 2000,
     ranging_stream_burst_count = 3,
     core_caps_payload = default_core_caps_payload,
     core_caps_payload_len = 8,
     range_data_notification_oid = UCI_SESSION_START,
     range_data_payload_template = default_range_data_payload_template,
     range_data_payload_len = 52,
     range_data_sequence_offset = 0,
     range_data_primary_session_id_offset = 4,
     range_data_secondary_session_id_offset = 16,
     range_data_interval_offset = 9,
     range_data_measurement_type_offset = 13,
     range_data_measurement_distance_offset = 29,
     range_data_distance_base_cm = 100,
     range_data_distance_step_cm = 5,
     supported_core_oids = [UCI_CORE_DEVICE_RESET, UCI_CORE_DEVICE_INFO, UCI_CORE_GET_CAPS_INFO,
        UCI_CORE_SET_CONFIG, UCI_CORE_GET_CONFIG, UCI_CORE_QUERY_UWBS_TIMESTAMP],
     supported_session_config_oids = default_supported_session_config_oids,
     supported_session_control_oids = default_supported_session_control_oids,
     supported_core_config_ids = [UCI_DEVICE_CONFIG_DEVICE_STATE, UCI_DEVICE_CONFIG_LOW_POWER_MODE, UCI_DEVICE_CONFIG_DEVICE_PAN_ID],
     supported_session_app_config_ids = default_supported_session_app_config_ids,
     default_session_app_config_ids = default_app_config_ids,
     default_session_app_config_value_lens = default_app_config_value_lens,
     default_session_app_config_values = default_app_config_values,
     supported_notification_oids = [UCI_CORE_DEVICE_STATUS_NTF, UCI_SESSION_STATUS_NTF, UCI_SESSION_START,
        UCI_SESSION_DATA_CREDIT_NTF, UCI_SESSION_DATA_TRANSFER_STATUS_NTF, UCI_SESSION_LOGICAL_LINK_UWBS_CREATE,
        UCI_SESSION_LOGICAL_LINK_UWBS_CLOSE]\<rparr>"

definition uci_sim_default_profile :: uci_sim_profile where
  "uci_sim_default_profile = k_default_profile"

subsection \<open>Queries\<close>

fun list_contains :: "bytes \<Rightarrow> u8 \<Rightarrow> bool" where
  "list_contains [] needle = False"
| "list_contains (v # vs) needle = (if v = needle then True else list_contains vs needle)"

lemma list_contains_iff: "list_contains vs needle \<longleftrightarrow> needle \<in> set vs"
  by (induction vs) auto

definition uci_sim_profile_supports_command :: "uci_sim_profile option \<Rightarrow> u8 \<Rightarrow> u8 \<Rightarrow> bool" where
  "uci_sim_profile_supports_command profile g o' =
     (case profile of None \<Rightarrow> False
      | Some p \<Rightarrow>
          if g = UCI_GID_CORE then list_contains (supported_core_oids p) o'
          else if g = UCI_GID_SESSION_CONFIG then list_contains (supported_session_config_oids p) o'
          else if g = UCI_GID_SESSION_CONTROL then list_contains (supported_session_control_oids p) o'
          else False)"

definition uci_sim_profile_supports_core_config :: "uci_sim_profile option \<Rightarrow> u8 \<Rightarrow> bool" where
  "uci_sim_profile_supports_core_config profile config_id =
     (case profile of None \<Rightarrow> False | Some p \<Rightarrow> list_contains (supported_core_config_ids p) config_id)"

definition uci_sim_profile_supports_session_app_config :: "uci_sim_profile option \<Rightarrow> u8 \<Rightarrow> bool" where
  "uci_sim_profile_supports_session_app_config profile config_id =
     (case profile of None \<Rightarrow> False
      | Some p \<Rightarrow> list_contains (supported_session_app_config_ids p) config_id)"

definition uci_sim_profile_supports_notification :: "uci_sim_profile option \<Rightarrow> u8 \<Rightarrow> bool" where
  "uci_sim_profile_supports_notification profile o' =
     (case profile of None \<Rightarrow> False | Some p \<Rightarrow> list_contains (supported_notification_oids p) o')"

definition uci_sim_profile_supports_multicast_action :: "uci_sim_profile option \<Rightarrow> u8 \<Rightarrow> bool" where
  "uci_sim_profile_supports_multicast_action profile action \<longleftrightarrow>
     action = UCI_MULTICAST_ACTION_ADD \<or> action = UCI_MULTICAST_ACTION_REMOVE
     \<or> action = UCI_MULTICAST_ACTION_ADD_SHORT_KEY \<or> action = UCI_MULTICAST_ACTION_ADD_LONG_KEY"

definition uci_sim_profile_get_session_transition ::
    "uci_sim_profile option \<Rightarrow> u8 \<Rightarrow> uci_sim_session_transition option" where
  "uci_sim_profile_get_session_transition profile o' =
     (case profile of None \<Rightarrow> None | Some p \<Rightarrow> find (\<lambda>t. tr_oid t = o') (session_transitions p))"

subsection \<open>Profiles the code can serve\<close>

text \<open>
  What a profile must satisfy for the copies out of it to stay inside the C arrays and for the
  session states to be the protocol's. The default profile satisfies it.
\<close>

definition protocol_state :: "u8 \<Rightarrow> bool" where
  "protocol_state s \<longleftrightarrow>
     s = UCI_SESSION_STATE_INIT \<or> s = UCI_SESSION_STATE_ACTIVE \<or> s = UCI_SESSION_STATE_IDLE"

definition default_app_configs :: "uci_sim_profile \<Rightarrow> (u8 \<times> bytes) list" where
  "default_app_configs p =
     map (\<lambda>((i, row), n). (i, array_prefix UCI_SIM_MAX_PROFILE_APP_CONFIG_LEN (unat n) row))
       (zip (zip (default_session_app_config_ids p) (default_session_app_config_values p))
         (default_session_app_config_value_lens p))"

text \<open>
  The transitions a profile may give: START leads from INIT or IDLE to ACTIVE, STOP from ACTIVE
  to IDLE, and a refused transition is not reported as OK.
\<close>

definition transition_ok :: "uci_sim_session_transition \<Rightarrow> bool" where
  "transition_ok t \<longleftrightarrow> tr_invalid_status t \<noteq> UCI_STATUS_OK
     \<and> (tr_oid t = UCI_SESSION_START \<and> tr_next_state t = UCI_SESSION_STATE_ACTIVE
          \<and> tr_allowed_states_mask t = 0x09
        \<or> tr_oid t = UCI_SESSION_STOP \<and> tr_next_state t = UCI_SESSION_STATE_IDLE
          \<and> tr_allowed_states_mask t = 0x04)"

definition policy_list :: "profile_policies \<Rightarrow> invalid_policy list" where
  "policy_list ps =
     [invalid_ranging_interval ps,
      invalid_slot_duration ps,
      invalid_result_report_config ps,
      invalid_sts_config ps,
      invalid_aoa_result_req ps,
      invalid_prf_mode ps,
      invalid_preamble_code_index ps,
      invalid_sfd_id ps,
      invalid_psdu_data_rate ps,
      invalid_preamble_duration ps,
      invalid_sts_length ps,
      invalid_key_rotation ps,
      invalid_key_rotation_rate ps,
      invalid_number_of_sts_segments ps,
      invalid_link_layer_mode ps,
      invalid_ranging_time_struct ps,
      invalid_scheduled_mode ps,
      invalid_block_stride_length ps,
      invalid_slots_per_rr ps,
      invalid_cap_size_range ps,
      invalid_rssi_reporting ps,
      invalid_ranging_round_usage ps,
      invalid_multi_node_mode ps,
      invalid_channel_number ps,
      invalid_num_of_controlees ps,
      invalid_mac_address_mode ps,
      invalid_device_mac_address ps,
      invalid_dst_mac_address ps,
      invalid_device_type ps]"

definition profile_ok :: "uci_sim_profile \<Rightarrow> bool" where
  "profile_ok p \<longleftrightarrow>
     length (vendor_specific_data p) \<le> UCI_SIM_MAX_PAYLOAD \<and> range_data_notification_oid p < 64
     \<and> length (core_caps_payload p) \<le> UCI_SIM_MAX_PAYLOAD
     \<and> 0 < core_caps_payload_len p \<and> unat (core_caps_payload_len p) \<le> 255
     \<and> core_caps_payload p \<noteq> [] \<and> hd (core_caps_payload p) = UCI_STATUS_OK
     \<and> length (default_device_pan_id p) = 2
     \<and> initial_session_state p = UCI_SESSION_STATE_INIT
     \<and> length (range_data_payload_template p) \<le> UCI_SIM_MAX_RANGE_DATA_TEMPLATE
     \<and> 0 < range_data_payload_len p
     \<and> unat (range_data_payload_len p) \<le> UCI_SIM_MAX_RANGE_DATA_TEMPLATE
     \<and> (\<forall>t\<in>set (session_transitions p). transition_ok t)
     \<and> (\<forall>q\<in>set (policy_list (policies p)). inv_status q \<noteq> UCI_STATUS_OK)
     \<and> (\<forall>b\<in>set (default_app_configs p). length (snd b) \<le> 32)"

lemma default_profile_ok: "profile_ok uci_sim_default_profile"
  by code_simp

end
