(* ===== verification/Config_Store.thy ===== *)
theory Config_Store
  imports Profile
begin

text \<open>
  The configuration arrays of \<open>src/model/uci_sim_device.c\<close>: a session has 80 entries
  (\<open>uci_sim_session_store_config\<close>, \<open>uci_sim_session_get_config\<close>), the device 8. An entry
  carries an id, the bytes of its value and an \<open>in_use\<close> flag; storing overwrites the entry
  of the id or takes the first free one. \<open>value_len\<close> is the length of the list: no code
  reads a byte of \<open>value\<close> past it. The contract of such an array, a finite map of bounded
  size from ids to values, is the locale \<open>config_table\<close>; the device and session theories
  interpret it.
\<close>

abbreviation UCI_SIM_MAX_CONFIG_VALUE :: nat where
  "UCI_SIM_MAX_CONFIG_VALUE \<equiv> 64"

abbreviation UCI_SIM_MAX_SESSION_CONFIGS :: nat where
  "UCI_SIM_MAX_SESSION_CONFIGS \<equiv> 80"

abbreviation UCI_SIM_MAX_DEVICE_CONFIGS :: nat where
  "UCI_SIM_MAX_DEVICE_CONFIGS \<equiv> 8"

record uci_sim_session_config =
  config_id :: u8
  cfg_value :: bytes
  cfg_in_use :: bool

type_synonym uci_sim_device_config = uci_sim_session_config

definition free_config :: uci_sim_session_config where
  "free_config = \<lparr>config_id = 0, cfg_value = [], cfg_in_use = False\<rparr>"

lemma free_config_simps [simp]:
  "config_id free_config = 0" "cfg_value free_config = []" "\<not> cfg_in_use free_config"
  by (simp_all add: free_config_def)

definition config_match :: "u8 \<Rightarrow> uci_sim_session_config \<Rightarrow> bool" where
  "config_match k e \<longleftrightarrow> cfg_in_use e \<and> config_id e = k"

definition store_entry ::
    "uci_sim_session_config list \<Rightarrow> u8 \<Rightarrow> bytes \<Rightarrow> uci_sim_session_config list option" where
  "store_entry es k v =
     (if length v > UCI_SIM_MAX_CONFIG_VALUE then None
      else case find_index (config_match k) es of
             Some i \<Rightarrow> Some (es[i := (es ! i)\<lparr>cfg_value := v\<rparr>])
           | None \<Rightarrow>
               (case find_index (\<lambda>e. \<not> cfg_in_use e) es of
                  Some i \<Rightarrow> Some (es[i := \<lparr>config_id = k, cfg_value = v, cfg_in_use = True\<rparr>])
                | None \<Rightarrow> None))"

definition lookup_entry :: "uci_sim_session_config list \<Rightarrow> u8 \<Rightarrow> bytes option" where
  "lookup_entry es k = map_option (\<lambda>i. cfg_value (es ! i)) (find_index (config_match k) es)"

definition entries_ok :: "uci_sim_session_config list \<Rightarrow> bool" where
  "entries_ok es \<longleftrightarrow>
     distinct (map config_id (filter cfg_in_use es))
     \<and> (\<forall>e\<in>set es. length (cfg_value e) \<le> UCI_SIM_MAX_CONFIG_VALUE)"

subsection \<open>The array as a finite map\<close>

lemma lookup_entry_simps [simp]:
  "lookup_entry [] k = None"
  "lookup_entry (e # es) k = (if config_match k e then Some (cfg_value e) else lookup_entry es k)"
  by (simp_all add: lookup_entry_def option.map_comp comp_def)

lemma lookup_entry_None_iff:
  "lookup_entry es k = None \<longleftrightarrow> k \<notin> config_id ` set (filter cfg_in_use es)"
  by (induction es) (auto simp: config_match_def)

lemma dom_lookup_entry: "dom (lookup_entry es) = config_id ` set (filter cfg_in_use es)"
  by (rule set_eqI) (metis domIff lookup_entry_None_iff)

lemma card_dom_lookup_entry:
  "entries_ok es \<Longrightarrow> card (dom (lookup_entry es)) = length (filter cfg_in_use es)"
  using distinct_card [of "map config_id (filter cfg_in_use es)"]
  by (simp add: dom_lookup_entry entries_ok_def)

lemma lookup_entry_bound:
  "entries_ok es \<Longrightarrow> lookup_entry es k = Some v \<Longrightarrow> length v \<le> UCI_SIM_MAX_CONFIG_VALUE"
  by (auto simp: lookup_entry_def entries_ok_def dest: find_index_SomeD(1))

text \<open>The two loops of the store, as recursions that stop at the same entry.\<close>

lemma find_index_update_Cons:
  "(case find_index p (x # xs) of Some i \<Rightarrow> Some ((x # xs)[i := f ((x # xs) ! i)]) | None \<Rightarrow> None)
   = (if p x then Some (f x # xs)
      else map_option ((#) x)
        (case find_index p xs of Some i \<Rightarrow> Some (xs[i := f (xs ! i)]) | None \<Rightarrow> None))"
  by (simp split: option.splits)

definition update_first :: "('a \<Rightarrow> bool) \<Rightarrow> ('a \<Rightarrow> 'a) \<Rightarrow> 'a list \<Rightarrow> 'a list option" where
  "update_first p f xs =
     (case find_index p xs of Some i \<Rightarrow> Some (xs[i := f (xs ! i)]) | None \<Rightarrow> None)"

lemma update_first_simps [simp]:
  "update_first p f [] = None"
  "update_first p f (x # xs) = (if p x then Some (f x # xs) else map_option ((#) x) (update_first p f xs))"
  by (simp_all add: update_first_def find_index_update_Cons del: find_index.simps(2))

lemma store_entry_alt:
  "store_entry es k v =
     (if length v > UCI_SIM_MAX_CONFIG_VALUE then None
      else case update_first (config_match k) (\<lambda>e. e\<lparr>cfg_value := v\<rparr>) es of
             Some es' \<Rightarrow> Some es'
           | None \<Rightarrow> update_first (\<lambda>e. \<not> cfg_in_use e)
                       (\<lambda>e. \<lparr>config_id = k, cfg_value = v, cfg_in_use = True\<rparr>) es)"
  by (auto simp: store_entry_def update_first_def split: option.splits)

lemma update_first_None_iff: "update_first p f xs = None \<longleftrightarrow> (\<forall>x\<in>set xs. \<not> p x)"
  by (induction xs) auto

lemma update_first_length: "update_first p f xs = Some ys \<Longrightarrow> length ys = length xs"
  by (auto simp: update_first_def split: option.splits)

lemma update_first_split:
  assumes "update_first p f xs = Some ys"
  obtains pre x post where "xs = pre @ x # post" "ys = pre @ f x # post" "p x" "\<forall>y\<in>set pre. \<not> p y"
  using assms
proof (induction xs arbitrary: ys thesis)
  case Nil
  then show ?case by simp
next
  case (Cons a xs)
  show ?case
  proof (cases "p a")
    case True
    with Cons.prems(2) show ?thesis by (intro Cons.prems(1) [of "[]" a xs]) simp_all
  next
    case False
    with Cons.prems(2) obtain zs where zs: "update_first p f xs = Some zs" "ys = a # zs"
      by auto
    from Cons.IH [OF _ zs(1)] obtain pre x post where
      "xs = pre @ x # post" "zs = pre @ f x # post" "p x" "\<forall>y\<in>set pre. \<not> p y" by blast
    with False zs(2) show ?thesis by (intro Cons.prems(1) [of "a # pre" x post]) simp_all
  qed
qed

lemma lookup_entry_append:
  "lookup_entry (xs @ ys) k = (case lookup_entry xs k of Some v \<Rightarrow> Some v | None \<Rightarrow> lookup_entry ys k)"
  by (induction xs) simp_all

lemma store_entry_length: "store_entry es k v = Some es' \<Longrightarrow> length es' = length es"
  by (auto simp: store_entry_alt split: if_splits option.splits dest: update_first_length)

lemma store_entry_cases:
  assumes "store_entry es k v = Some es'"
  obtains (overwrite) pre e post where "es = pre @ e # post" "config_match k e"
      "\<forall>x\<in>set pre. \<not> config_match k x" "es' = pre @ e\<lparr>cfg_value := v\<rparr> # post" "length v \<le> 64"
    | (fresh) pre e post where "es = pre @ e # post" "\<not> cfg_in_use e" "\<forall>x\<in>set pre. cfg_in_use x"
      "\<forall>x\<in>set es. \<not> config_match k x"
      "es' = pre @ \<lparr>config_id = k, cfg_value = v, cfg_in_use = True\<rparr> # post" "length v \<le> 64"
proof (cases "update_first (config_match k) (\<lambda>e. e\<lparr>cfg_value := v\<rparr>) es")
  case (Some zs)
  with assms have "es' = zs" "length v \<le> 64" by (simp_all add: store_entry_alt split: if_splits)
  with Some overwrite show ?thesis by (auto elim!: update_first_split)
next
  case None
  with assms have "length v \<le> 64" "update_first (\<lambda>e. \<not> cfg_in_use e)
      (\<lambda>e. \<lparr>config_id = k, cfg_value = v, cfg_in_use = True\<rparr>) es = Some es'"
    by (simp_all add: store_entry_alt split: if_splits)
  with None fresh show ?thesis by (auto simp: update_first_None_iff elim!: update_first_split)
qed

lemma store_entry_lookup:
  assumes "store_entry es k v = Some es'"
  shows "lookup_entry es' = (lookup_entry es)(k \<mapsto> v)"
  using assms
proof (cases rule: store_entry_cases)
  case (overwrite pre e post)
  then have "lookup_entry pre k = None" by (auto simp: lookup_entry_None_iff config_match_def)
  with overwrite show ?thesis
    by (auto simp: fun_eq_iff lookup_entry_append config_match_def split: option.splits)
next
  case (fresh pre e post)
  then have "lookup_entry pre k = None" "lookup_entry post k = None"
    by (auto simp: lookup_entry_None_iff config_match_def)
  with fresh show ?thesis
    by (auto simp: fun_eq_iff lookup_entry_append config_match_def split: option.splits)
qed

lemma store_entry_ok:
  assumes "store_entry es k v = Some es'" and "entries_ok es"
  shows "entries_ok es'"
  using assms(1)
proof (cases rule: store_entry_cases)
  case (overwrite pre e post)
  then show ?thesis using assms(2) by (auto simp: entries_ok_def config_match_def)
next
  case (fresh pre e post)
  then show ?thesis using assms(2) by (auto simp: entries_ok_def config_match_def)
qed

lemma store_entry_defined:
  assumes "entries_ok es"
  shows "store_entry es k v \<noteq> None \<longleftrightarrow>
    length v \<le> UCI_SIM_MAX_CONFIG_VALUE
    \<and> (lookup_entry es k \<noteq> None \<or> card (dom (lookup_entry es)) < length es)"
proof -
  have "(\<exists>e\<in>set es. \<not> cfg_in_use e) \<longleftrightarrow> length (filter cfg_in_use es) < length es"
    using length_filter_less [of _ es cfg_in_use] by (auto simp: filter_id_conv intro: ccontr)
  then have free: "(\<exists>e\<in>set es. \<not> cfg_in_use e) \<longleftrightarrow> card (dom (lookup_entry es)) < length es"
    using card_dom_lookup_entry [OF assms] by simp
  have known: "(\<exists>e\<in>set es. config_match k e) \<longleftrightarrow> lookup_entry es k \<noteq> None"
    by (auto simp: lookup_entry_None_iff config_match_def)
  let ?over = "update_first (config_match k) (\<lambda>e. e\<lparr>cfg_value := v\<rparr>) es"
  let ?new = "update_first (\<lambda>e. \<not> cfg_in_use e)
      (\<lambda>e. \<lparr>config_id = k, cfg_value = v, cfg_in_use = True\<rparr>) es"
  have "?over = None \<longleftrightarrow> \<not> (\<exists>e\<in>set es. config_match k e)"
    and "?new = None \<longleftrightarrow> \<not> (\<exists>e\<in>set es. \<not> cfg_in_use e)"
    by (simp_all add: update_first_None_iff)
  then show ?thesis
    unfolding store_entry_alt free [symmetric] known [symmetric]
    by (cases ?over; cases ?new) simp_all
qed

lemma entries_ok_free [simp]: "entries_ok (replicate n free_config)"
  by (simp add: entries_ok_def)

lemma lookup_entry_free [simp]: "lookup_entry (replicate n free_config) k = None"
  by (induction n) (simp_all add: config_match_def)

subsection \<open>The contract of a configuration table\<close>

text \<open>
  What the handlers rely on: a store that succeeds changes exactly the entry of its id, and it
  succeeds exactly when the id is writable, the value fits and there is an entry for the id or
  a free one. \<open>load_configs\<close> is the loop of \<open>alloc_session\<close> that stores a list of defaults
  and ignores the failures.
\<close>

fun load_configs :: "('s \<Rightarrow> u8 \<Rightarrow> bytes \<Rightarrow> 's option) \<Rightarrow> (u8 \<times> bytes) list \<Rightarrow> 's \<Rightarrow> 's" where
  "load_configs store [] s = s"
| "load_configs store ((k, v) # bs) s =
     load_configs store bs (case store s k v of None \<Rightarrow> s | Some s' \<Rightarrow> s')"

locale config_table =
  fixes store :: "'s \<Rightarrow> u8 \<Rightarrow> bytes \<Rightarrow> 's option"
    and lookup :: "'s \<Rightarrow> u8 \<Rightarrow> bytes option"
    and ok :: "'s \<Rightarrow> bool"
    and writable :: "u8 \<Rightarrow> bool"
    and capacity :: nat
  assumes store_ok: "ok s \<Longrightarrow> store s k v = Some s' \<Longrightarrow> ok s'"
    and store_lookup: "ok s \<Longrightarrow> store s k v = Some s' \<Longrightarrow> lookup s' = (lookup s)(k \<mapsto> v)"
    and store_defined: "ok s \<Longrightarrow>
      store s k v \<noteq> None \<longleftrightarrow>
        writable k \<and> length v \<le> UCI_SIM_MAX_CONFIG_VALUE
        \<and> (lookup s k \<noteq> None \<or> card (dom (lookup s)) < capacity)"
    and lookup_finite: "ok s \<Longrightarrow> finite (dom (lookup s))"
begin

lemma store_same: "ok s \<Longrightarrow> store s k v = Some s' \<Longrightarrow> lookup s' k = Some v"
  by (simp add: store_lookup)

lemma store_other: "ok s \<Longrightarrow> store s k v = Some s' \<Longrightarrow> j \<noteq> k \<Longrightarrow> lookup s' j = lookup s j"
  by (simp add: store_lookup)

text \<open>
  Where the ids in use and the id stored lie in a set no larger than the table, the store
  succeeds: no request inside that set is ever turned down for lack of room.
\<close>

lemma store_within:
  assumes "ok s" and "dom (lookup s) \<subseteq> K" and "k \<in> K" and "finite K" and "card K \<le> capacity"
    and "writable k" and "length v \<le> UCI_SIM_MAX_CONFIG_VALUE"
  shows "\<exists>s'. store s k v = Some s'"
proof -
  have "lookup s k \<noteq> None \<or> card (dom (lookup s)) < capacity"
  proof (cases "lookup s k")
    case None
    then have "dom (lookup s) \<subset> K" using assms(2,3) by auto
    then have "card (dom (lookup s)) < card K" by (rule psubset_card_mono [OF assms(4)])
    with assms(5) show ?thesis by simp
  qed simp
  then have "store s k v \<noteq> None"
    unfolding store_defined [OF assms(1)] using assms(6,7) by simp
  then show ?thesis by simp
qed

lemma load_ok: "ok s \<Longrightarrow> ok (load_configs store bs s)"
proof (induction bs arbitrary: s)
  case (Cons b bs)
  then show ?case by (cases b) (auto intro: store_ok split: option.splits)
qed simp

lemma load_lookup:
  assumes "ok s" and "dom (lookup s) \<subseteq> K" and "fst ` set bs \<subseteq> K" and "finite K"
    and "card K \<le> capacity" and "\<forall>k\<in>K. writable k"
    and "\<forall>b\<in>set bs. length (snd b) \<le> UCI_SIM_MAX_CONFIG_VALUE"
  shows "lookup (load_configs store bs s) = lookup s ++ map_of (rev bs)"
  using assms(1,2,3,7)
proof (induction bs arbitrary: s)
  case Nil
  then show ?case by simp
next
  case (Cons b bs)
  obtain k v where b: "b = (k, v)" by (cases b)
  from Cons.prems b have kv: "k \<in> K" "length v \<le> UCI_SIM_MAX_CONFIG_VALUE" by auto
  then obtain s' where s': "store s k v = Some s'"
    using store_within [OF Cons.prems(1,2) kv(1) assms(4,5)] assms(6) by auto
  from store_lookup [OF Cons.prems(1) s'] have l: "lookup s' = (lookup s)(k \<mapsto> v)" .
  have "lookup (load_configs store bs s') = lookup s' ++ map_of (rev bs)"
  proof (rule Cons.IH)
    show "dom (lookup s') \<subseteq> K" unfolding l using Cons.prems(2) kv(1) by auto
  qed (use Cons.prems store_ok [OF Cons.prems(1) s'] in auto)
  then show ?case by (simp add: b s' l)
qed

end

interpretation entry_table: config_table store_entry lookup_entry
  "\<lambda>es. entries_ok es \<and> length es = n" "\<lambda>_. True" n
proof unfold_locales
  fix s k v
  assume "entries_ok s \<and> length s = n"
  then show "(store_entry s k v \<noteq> None) \<longleftrightarrow> True \<and> length v \<le> UCI_SIM_MAX_CONFIG_VALUE
      \<and> (lookup_entry s k \<noteq> None \<or> card (dom (lookup_entry s)) < n)"
    using store_entry_defined [of s k v] by simp
qed (auto dest: store_entry_ok store_entry_length store_entry_lookup simp: dom_lookup_entry)

end
