(* ===== verification/Session.thy ===== *)
theory Session
  imports Config_Store
begin

text \<open>
  The session of \<open>include/uci_sim_device.h\<close> and the operations of
  \<open>src/model/uci_sim_device.c\<close> that touch one session only: its configuration getters, its
  multicast list and its logical links. A C flag that only ever holds 0 or 1 is a \<open>bool\<close>; an
  array with a count of its entries in use (\<open>logical_links\<close>, \<open>logical_link_count\<close>) is the
  list of those entries; the other arrays keep their C length. Pointers into the session
  (an entry found or allocated) are indices. Pointer arguments are never NULL at a call site
  of \<open>src/\<close>, so the NULL guards have no counterpart.
\<close>

record uci_sim_multicast_entry =
  mc_short_address :: u16
  mc_subsession_id :: u32
  mc_key :: bytes
  mc_in_use :: bool

definition free_multicast :: uci_sim_multicast_entry where
  "free_multicast =
     \<lparr>mc_short_address = 0, mc_subsession_id = 0, mc_key = [], mc_in_use = False\<rparr>"

record uci_sim_logical_link =
  ll_link_id :: u8
  ll_mode :: u8
  ll_credit :: u8
  ll_in_use :: bool

record uci_sim_session =
  session_id :: u32
  session_type :: u8
  state :: u8
  ranging_count :: u32
  max_data_size :: u16
  ranging_stream_remaining :: u8
  dt_anchor_round_indexes :: bytes
  dt_anchor_round_count :: u8
  dt_tag_round_indexes :: bytes
  dt_tag_round_count :: u8
  dtp_repetition :: u8
  dtp_control :: u8
  dtp_size :: u8
  dtp_payload_len :: u8
  dtp_payload :: bytes
  last_data_sequence :: u16
  last_data_length :: u16
  has_last_data_message :: bool
  data_transfer_in_progress :: bool
  data_transfer_repetitions_remaining :: u8
  data_transfer_tx_count :: u8
  data_transfer_sequence :: u16
  has_last_proximity_state :: bool
  last_in_proximity_range :: bool
  allocated :: bool
  configs :: "uci_sim_session_config list"
  multicast_entries :: "uci_sim_multicast_entry list"
  logical_links :: "uci_sim_logical_link list"

abbreviation UCI_SIM_DTP_PAYLOAD :: nat where
  "UCI_SIM_DTP_PAYLOAD \<equiv> 64"

text \<open>\<open>memset(session, 0, sizeof(*session))\<close>: the state of a free slot.\<close>

definition zero_session :: uci_sim_session where
  "zero_session =
     \<lparr>session_id = 0, session_type = 0, state = 0, ranging_count = 0, max_data_size = 0,
      ranging_stream_remaining = 0,
      dt_anchor_round_indexes = replicate UCI_SIM_MAX_DT_ROUNDS 0, dt_anchor_round_count = 0,
      dt_tag_round_indexes = replicate UCI_SIM_MAX_DT_ROUNDS 0, dt_tag_round_count = 0,
      dtp_repetition = 0, dtp_control = 0, dtp_size = 0, dtp_payload_len = 0,
      dtp_payload = replicate UCI_SIM_DTP_PAYLOAD 0,
      last_data_sequence = 0, last_data_length = 0, has_last_data_message = False,
      data_transfer_in_progress = False, data_transfer_repetitions_remaining = 0,
      data_transfer_tx_count = 0, data_transfer_sequence = 0,
      has_last_proximity_state = False, last_in_proximity_range = False, allocated = False,
      configs = replicate UCI_SIM_MAX_SESSION_CONFIGS free_config,
      multicast_entries = replicate UCI_SIM_MAX_MULTICAST_ENTRIES free_multicast,
      logical_links = []\<rparr>"

subsection \<open>Configuration values\<close>

definition uci_sim_session_store_config ::
    "uci_sim_session \<Rightarrow> u8 \<Rightarrow> bytes \<Rightarrow> uci_sim_session option" where
  "uci_sim_session_store_config s k v =
     map_option (\<lambda>es. s\<lparr>configs := es\<rparr>) (store_entry (configs s) k v)"

definition uci_sim_session_get_config :: "uci_sim_session \<Rightarrow> u8 \<Rightarrow> bytes option" where
  "uci_sim_session_get_config s k = lookup_entry (configs s) k"

text \<open>
  \<open>uci_sim_session_get_config\<close> copies the whole stored value to the address it is given. The
  copy leaves the caller's variable when the value is longer than that variable; the getters
  below read the bytes the variable has room for.
\<close>

definition config_read_overruns :: "uci_sim_session \<Rightarrow> u8 \<Rightarrow> nat \<Rightarrow> bool" where
  "config_read_overruns s k room =
     (case uci_sim_session_get_config s k of None \<Rightarrow> False | Some v \<Rightarrow> room < length v)"

definition uci_sim_session_get_range_data_ntf_config :: "uci_sim_session \<Rightarrow> u8" where
  "uci_sim_session_get_range_data_ntf_config s =
     (case uci_sim_session_get_config s UCI_APP_CONFIG_SESSION_INFO_NTF_CONFIG of
        None \<Rightarrow> 0x01
      | Some v \<Rightarrow> if length v \<noteq> 1 then 0x01 else v ! 0)"

definition uci_sim_session_get_range_data_ntf_proximity_near :: "uci_sim_session \<Rightarrow> u16" where
  "uci_sim_session_get_range_data_ntf_proximity_near s =
     (case uci_sim_session_get_config s UCI_APP_CONFIG_RNG_DATA_NTF_PROXIMITY_NEAR of
        None \<Rightarrow> 0
      | Some v \<Rightarrow> if length v \<noteq> 2 then 0 else read_u16_le v)"

definition uci_sim_session_get_range_data_ntf_proximity_far :: "uci_sim_session \<Rightarrow> u16" where
  "uci_sim_session_get_range_data_ntf_proximity_far s =
     (case uci_sim_session_get_config s UCI_APP_CONFIG_RNG_DATA_NTF_PROXIMITY_FAR of
        None \<Rightarrow> 0xFFFF
      | Some v \<Rightarrow> if length v \<noteq> 2 then 0xFFFF else read_u16_le v)"

definition uci_sim_session_get_ranging_round_usage :: "uci_sim_session \<Rightarrow> u8" where
  "uci_sim_session_get_ranging_round_usage s =
     (case uci_sim_session_get_config s UCI_APP_CONFIG_RANGING_ROUND_USAGE of
        None \<Rightarrow> 0x01
      | Some v \<Rightarrow> if length v \<noteq> 1 then 0x01 else v ! 0)"

definition uci_sim_session_get_data_repetition_count :: "uci_sim_session \<Rightarrow> u8" where
  "uci_sim_session_get_data_repetition_count s =
     (case uci_sim_session_get_config s UCI_APP_CONFIG_DATA_REPETITION_COUNT of
        None \<Rightarrow> 0x00
      | Some v \<Rightarrow> if length v \<noteq> 1 then 0x00 else v ! 0)"

definition uci_sim_session_get_max_number_of_measurements :: "uci_sim_session \<Rightarrow> u16" where
  "uci_sim_session_get_max_number_of_measurements s =
     (case uci_sim_session_get_config s UCI_APP_CONFIG_MAX_NUMBER_OF_MEASUREMENTS of
        None \<Rightarrow> 0
      | Some v \<Rightarrow> if length v \<noteq> 2 then 0 else read_u16_le v)"

definition uci_sim_session_get_ranging_interval_ms ::
    "uci_sim_session \<Rightarrow> uci_sim_profile option \<Rightarrow> u32" where
  "uci_sim_session_get_ranging_interval_ms s profile =
     (let dflt = (case profile of None \<Rightarrow> 0 | Some p \<Rightarrow> ranging_interval_ms p)
      in case uci_sim_session_get_config s UCI_APP_CONFIG_RANGING_INTERVAL of
           None \<Rightarrow> dflt
         | Some v \<Rightarrow> if length v \<noteq> 4 then dflt else read_u32_le v)"

definition uci_sim_session_get_slot_duration_rstu :: "uci_sim_session \<Rightarrow> u16" where
  "uci_sim_session_get_slot_duration_rstu s =
     (case uci_sim_session_get_config s UCI_APP_CONFIG_SLOT_DURATION of
        None \<Rightarrow> 0
      | Some v \<Rightarrow> if length v \<noteq> 2 then 0 else read_u16_le v)"

definition uci_sim_session_get_slots_per_rr :: "uci_sim_session \<Rightarrow> u8" where
  "uci_sim_session_get_slots_per_rr s =
     (case uci_sim_session_get_config s UCI_APP_CONFIG_SLOTS_PER_RR of
        None \<Rightarrow> 0x01
      | Some v \<Rightarrow> if length v \<noteq> 1 then 0x01 else v ! 0)"

definition uci_sim_session_get_responder_slot_index :: "uci_sim_session \<Rightarrow> u8" where
  "uci_sim_session_get_responder_slot_index s =
     (case uci_sim_session_get_config s 0x1E of
        None \<Rightarrow> 0x00
      | Some v \<Rightarrow> if length v \<noteq> 1 then 0x00 else v ! 0)"

definition uci_sim_session_get_aoa_result_req :: "uci_sim_session \<Rightarrow> u8" where
  "uci_sim_session_get_aoa_result_req s =
     (case uci_sim_session_get_config s UCI_APP_CONFIG_AOA_RESULT_REQ of
        None \<Rightarrow> 0x00
      | Some v \<Rightarrow> if length v \<noteq> 1 then 0x00 else v ! 0)"

definition uci_sim_session_get_rssi_reporting :: "uci_sim_session \<Rightarrow> u8" where
  "uci_sim_session_get_rssi_reporting s =
     (case uci_sim_session_get_config s UCI_APP_CONFIG_RSSI_REPORTING of
        None \<Rightarrow> 0x00
      | Some v \<Rightarrow> if length v \<noteq> 1 then 0x00 else v ! 0)"

definition uci_sim_session_get_result_report_config :: "uci_sim_session \<Rightarrow> u8" where
  "uci_sim_session_get_result_report_config s =
     (case uci_sim_session_get_config s UCI_APP_CONFIG_RESULT_REPORT_CONFIG of
        None \<Rightarrow> 0x01
      | Some v \<Rightarrow> if length v \<noteq> 1 then 0x01 else v ! 0)"

subsection \<open>The multicast list\<close>

definition multicast_match :: "u16 \<Rightarrow> u32 \<Rightarrow> uci_sim_multicast_entry \<Rightarrow> bool" where
  "multicast_match a sub e \<longleftrightarrow>
     mc_in_use e \<and> mc_short_address e = a \<and> mc_subsession_id e = sub"

definition uci_sim_session_add_multicast_entry ::
    "uci_sim_session \<Rightarrow> u16 \<Rightarrow> u32 \<Rightarrow> bytes \<Rightarrow> int \<times> uci_sim_session" where
  "uci_sim_session_add_multicast_entry s a sub key =
     (if length key > 32 then (-1, s)
      else case find_index (multicast_match a sub) (multicast_entries s) of
             Some _ \<Rightarrow> (uint UCI_STATUS_ADDRESS_ALREADY_PRESENT, s)
           | None \<Rightarrow>
               (case find_index (\<lambda>e. \<not> mc_in_use e) (multicast_entries s) of
                  Some i \<Rightarrow>
                    (uint UCI_STATUS_OK,
                     s\<lparr>multicast_entries := (multicast_entries s)
                         [i := \<lparr>mc_short_address = a, mc_subsession_id = sub, mc_key = key,
                                mc_in_use = True\<rparr>]\<rparr>)
                | None \<Rightarrow> (uint UCI_STATUS_MULTICAST_LIST_FULL, s)))"

definition uci_sim_session_remove_multicast_entry ::
    "uci_sim_session \<Rightarrow> u16 \<Rightarrow> u32 \<Rightarrow> int \<times> uci_sim_session" where
  "uci_sim_session_remove_multicast_entry s a sub =
     (case find_index (multicast_match a sub) (multicast_entries s) of
        Some i \<Rightarrow>
          (uint UCI_STATUS_OK, s\<lparr>multicast_entries := (multicast_entries s)[i := free_multicast]\<rparr>)
      | None \<Rightarrow> (uint UCI_STATUS_ADDRESS_NOT_FOUND, s))"

subsection \<open>Logical links\<close>

definition uci_sim_session_find_logical_link :: "uci_sim_session \<Rightarrow> u8 \<Rightarrow> nat option" where
  "uci_sim_session_find_logical_link s link_id =
     find_index (\<lambda>l. ll_in_use l \<and> ll_link_id l = link_id) (logical_links s)"

text \<open>\<open>while (find(candidate) && candidate < 0xFF) candidate++\<close>\<close>

function next_free_link :: "uci_sim_session \<Rightarrow> u8 \<Rightarrow> u8" where
  "next_free_link s candidate =
     (if uci_sim_session_find_logical_link s candidate \<noteq> None \<and> candidate < 0xFF
      then next_free_link s (candidate + 1) else candidate)"
  by pat_completeness auto
termination
proof (relation "measure (\<lambda>(s, c). 255 - unat c)")
  fix s :: uci_sim_session and c :: u8
  assume "uci_sim_session_find_logical_link s c \<noteq> None \<and> c < 0xFF"
  then have "unat c < 255" by (simp add: word_less_nat_alt)
  then have "unat (c + 1) = unat c + 1" by (subst unat_add_lem [THEN iffD1]) simp_all
  with \<open>unat c < 255\<close> show "((s, c + 1), s, c) \<in> measure (\<lambda>(s, c). 255 - unat c)" by simp
qed simp

declare next_free_link.simps [simp del]

definition uci_sim_session_allocate_logical_link ::
    "uci_sim_session \<Rightarrow> u8 \<Rightarrow> (uci_sim_session \<times> nat \<times> u8) option" where
  "uci_sim_session_allocate_logical_link s requested_id =
     (if length (logical_links s) \<ge> UCI_SIM_MAX_LOGICAL_LINKS then None
      else
        let candidate = (if requested_id = 0xFF then next_free_link s 0 else requested_id)
        in if requested_id = 0xFF \<and> candidate = 0xFF
              \<and> uci_sim_session_find_logical_link s candidate \<noteq> None
           then None
           else Some (s\<lparr>logical_links := logical_links s
                          @ [\<lparr>ll_link_id = candidate, ll_mode = 0, ll_credit = 0, ll_in_use = True\<rparr>]\<rparr>,
                      length (logical_links s), candidate))"

definition uci_sim_session_remove_logical_link ::
    "uci_sim_session \<Rightarrow> u8 \<Rightarrow> uci_sim_session option" where
  "uci_sim_session_remove_logical_link s link_id =
     (case uci_sim_session_find_logical_link s link_id of
        Some i \<Rightarrow> Some (s\<lparr>logical_links := take i (logical_links s) @ drop (Suc i) (logical_links s)\<rparr>)
      | None \<Rightarrow> None)"


subsection \<open>What a session keeps true\<close>

definition multicast_key :: "uci_sim_multicast_entry \<Rightarrow> u16 \<times> u32" where
  "multicast_key e = (mc_short_address e, mc_subsession_id e)"

definition multicast_ok :: "uci_sim_multicast_entry list \<Rightarrow> bool" where
  "multicast_ok es \<longleftrightarrow> length es = UCI_SIM_MAX_MULTICAST_ENTRIES
     \<and> distinct (map multicast_key (filter mc_in_use es))
     \<and> (\<forall>e\<in>set es. length (mc_key e) \<le> 32)"

definition links_ok :: "uci_sim_logical_link list \<Rightarrow> bool" where
  "links_ok ls \<longleftrightarrow> length ls \<le> UCI_SIM_MAX_LOGICAL_LINKS
     \<and> (\<forall>l\<in>set ls. ll_in_use l \<and> ll_link_id l \<noteq> 0xFF) \<and> distinct (map ll_link_id ls)"

definition rounds_ok :: "bytes \<Rightarrow> u8 \<Rightarrow> bool" where
  "rounds_ok rounds n \<longleftrightarrow>
     length rounds = UCI_SIM_MAX_DT_ROUNDS \<and> unat n \<le> UCI_SIM_MAX_DT_ROUNDS"

definition configs_ok :: "uci_sim_session_config list \<Rightarrow> bool" where
  "configs_ok es \<longleftrightarrow> entries_ok es \<and> length es = UCI_SIM_MAX_SESSION_CONFIGS"

definition session_ok :: "uci_sim_session \<Rightarrow> bool" where
  "session_ok s \<longleftrightarrow>
     configs_ok (configs s) \<and> multicast_ok (multicast_entries s) \<and> links_ok (logical_links s)
     \<and> rounds_ok (dt_anchor_round_indexes s) (dt_anchor_round_count s)
     \<and> rounds_ok (dt_tag_round_indexes s) (dt_tag_round_count s)
     \<and> length (dtp_payload s) = UCI_SIM_DTP_PAYLOAD
     \<and> unat (dtp_payload_len s) \<le> UCI_SIM_DTP_PAYLOAD \<and> dtp_size s = dtp_payload_len s
     \<and> (allocated s \<longrightarrow> protocol_state (state s))
     \<and> (ranging_stream_remaining s \<noteq> 0 \<longrightarrow> state s = UCI_SESSION_STATE_ACTIVE)
     \<and> (\<not> allocated s \<longrightarrow> s = zero_session)"

lemma zero_session_ok [simp]: "session_ok zero_session"
  by (simp add: session_ok_def zero_session_def configs_ok_def multicast_ok_def links_ok_def
      rounds_ok_def free_multicast_def)

lemma session_okD:
  assumes "session_ok s"
  shows "configs_ok (configs s)" and "multicast_ok (multicast_entries s)"
    and "links_ok (logical_links s)" and "allocated s \<Longrightarrow> protocol_state (state s)"
    and "ranging_stream_remaining s \<noteq> 0 \<Longrightarrow> state s = UCI_SESSION_STATE_ACTIVE"
    and "\<not> allocated s \<Longrightarrow> s = zero_session"
  using assms by (auto simp: session_ok_def)

subsection \<open>The session's configuration table\<close>

interpretation session_configs: config_table
  uci_sim_session_store_config uci_sim_session_get_config "\<lambda>s. configs_ok (configs s)"
  "\<lambda>_. True" UCI_SIM_MAX_SESSION_CONFIGS
proof unfold_locales
  fix s :: uci_sim_session and k v
  assume ok: "configs_ok (configs s)"
  then have e: "entries_ok (configs s) \<and> length (configs s) = UCI_SIM_MAX_SESSION_CONFIGS"
    by (simp add: configs_ok_def)
  have get: "uci_sim_session_get_config s = lookup_entry (configs s)"
    by (simp add: fun_eq_iff uci_sim_session_get_config_def)
  show "(uci_sim_session_store_config s k v \<noteq> None) \<longleftrightarrow> True \<and> length v \<le> UCI_SIM_MAX_CONFIG_VALUE
      \<and> (uci_sim_session_get_config s k \<noteq> None
         \<or> card (dom (uci_sim_session_get_config s)) < UCI_SIM_MAX_SESSION_CONFIGS)"
    using entry_table.store_defined [OF e, of k v]
    by (simp add: get uci_sim_session_store_config_def)
  show "finite (dom (uci_sim_session_get_config s))"
    using entry_table.lookup_finite [OF e] by (simp add: get)
  fix s'
  assume "uci_sim_session_store_config s k v = Some s'"
  then obtain es where es: "store_entry (configs s) k v = Some es" "s' = s\<lparr>configs := es\<rparr>"
    by (auto simp: uci_sim_session_store_config_def)
  show "configs_ok (configs s')"
    using entry_table.store_ok [OF e es(1)] es(2) by (simp add: configs_ok_def)
  show "uci_sim_session_get_config s' = (uci_sim_session_get_config s)(k \<mapsto> v)"
    using entry_table.store_lookup [OF e es(1)] es(2) by (simp add: fun_eq_iff uci_sim_session_get_config_def)
qed

lemma store_config_frame:
  assumes "uci_sim_session_store_config s k v = Some s'"
  shows "s' = s\<lparr>configs := configs s'\<rparr>"
  using assms by (auto simp: uci_sim_session_store_config_def)

lemma session_store_config_ok [wf_intros]:
  assumes "uci_sim_session_store_config s k v = Some s'" and "session_ok s" and "allocated s"
  shows "session_ok s'"
proof -
  from assms(1) obtain es where es: "s' = s\<lparr>configs := es\<rparr>"
    by (auto simp: uci_sim_session_store_config_def)
  have "configs_ok (configs s')"
    using session_configs.store_ok assms(1,2) by (blast dest: session_okD)
  with assms(2,3) es show ?thesis by (simp add: session_ok_def)
qed


subsection \<open>The multicast list as a finite map\<close>

definition multicast_map :: "uci_sim_session \<Rightarrow> u16 \<times> u32 \<Rightarrow> bytes option" where
  "multicast_map s =
     map_of (map (\<lambda>e. (multicast_key e, mc_key e)) (filter mc_in_use (multicast_entries s)))"

lemma multicast_match_key: "multicast_match a sub e \<longleftrightarrow> mc_in_use e \<and> multicast_key e = (a, sub)"
  by (auto simp: multicast_match_def multicast_key_def)

lemma dom_multicast_map:
  "dom (multicast_map s) = multicast_key ` set (filter mc_in_use (multicast_entries s))"
  by (simp add: multicast_map_def dom_map_of_conv_image_fst image_image)

lemma card_multicast_map:
  "multicast_ok (multicast_entries s) \<Longrightarrow>
   card (dom (multicast_map s)) = length (filter mc_in_use (multicast_entries s))"
  using distinct_card [of "map multicast_key (filter mc_in_use (multicast_entries s))"]
  by (simp add: dom_multicast_map multicast_ok_def)

lemma multicast_present_iff:
  "find_index (multicast_match a sub) (multicast_entries s) = None \<longleftrightarrow> multicast_map s (a, sub) = None"
proof -
  have "multicast_map s (a, sub) = None \<longleftrightarrow> (a, sub) \<notin> dom (multicast_map s)"
    by (simp add: domIff)
  then show ?thesis
    by (auto simp: find_index_None_iff multicast_match_key dom_multicast_map image_iff)
qed

lemma multicast_full_iff:
  assumes "multicast_ok (multicast_entries s)"
  shows "find_index (\<lambda>e. \<not> mc_in_use e) (multicast_entries s) = None \<longleftrightarrow>
    card (dom (multicast_map s)) = UCI_SIM_MAX_MULTICAST_ENTRIES"
proof -
  let ?es = "multicast_entries s"
  have len: "length ?es = UCI_SIM_MAX_MULTICAST_ENTRIES"
    using assms by (simp add: multicast_ok_def)
  show ?thesis
    unfolding find_index_None_iff card_multicast_map [OF assms] not_not filter_all_iff_length len
    by (rule refl)
qed

lemma add_multicast_spec:
  assumes ok: "multicast_ok (multicast_entries s)" and key: "length key \<le> 32"
    and add: "uci_sim_session_add_multicast_entry s a sub key = (status, s')"
  shows "if multicast_map s (a, sub) \<noteq> None
         then status = uint UCI_STATUS_ADDRESS_ALREADY_PRESENT \<and> s' = s
         else if card (dom (multicast_map s)) = UCI_SIM_MAX_MULTICAST_ENTRIES
         then status = uint UCI_STATUS_MULTICAST_LIST_FULL \<and> s' = s
         else status = uint UCI_STATUS_OK \<and> multicast_ok (multicast_entries s')
              \<and> multicast_map s' = (multicast_map s)((a, sub) \<mapsto> key)
              \<and> s' = s\<lparr>multicast_entries := multicast_entries s'\<rparr>"
proof -
  let ?e = "\<lparr>mc_short_address = a, mc_subsession_id = sub, mc_key = key, mc_in_use = True\<rparr>"
  consider (present) "multicast_map s (a, sub) \<noteq> None"
    | (full) "multicast_map s (a, sub) = None"
        "find_index (\<lambda>e. \<not> mc_in_use e) (multicast_entries s) = None"
    | (free) i where "multicast_map s (a, sub) = None"
        "find_index (\<lambda>e. \<not> mc_in_use e) (multicast_entries s) = Some i"
    by (cases "multicast_map s (a, sub)";
        cases "find_index (\<lambda>e. \<not> mc_in_use e) (multicast_entries s)") auto
  then show ?thesis
  proof cases
    case present
    then obtain i where "find_index (multicast_match a sub) (multicast_entries s) = Some i"
      using multicast_present_iff [of a sub s] by (cases "find_index (multicast_match a sub) (multicast_entries s)") auto
    with add key present show ?thesis by (simp add: uci_sim_session_add_multicast_entry_def)
  next
    case full
    with multicast_present_iff [of a sub s]
    have "find_index (multicast_match a sub) (multicast_entries s) = None" by simp
    with full add key multicast_full_iff [OF ok] show ?thesis
      by (simp add: uci_sim_session_add_multicast_entry_def)
  next
    case (free i)
    with multicast_present_iff [of a sub s]
    have "find_index (multicast_match a sub) (multicast_entries s) = None" by simp
    with free have s': "status = uint UCI_STATUS_OK"
        "s' = s\<lparr>multicast_entries := (multicast_entries s)[i := ?e]\<rparr>"
      using add key by (simp_all add: uci_sim_session_add_multicast_entry_def)
    from free(2) obtain pre x post where split: "multicast_entries s = pre @ x # post"
        "length pre = i" "\<not> mc_in_use x" by (rule find_index_split)
    have absent: "(a, sub) \<notin> multicast_key ` set (filter mc_in_use (multicast_entries s))"
      using free(1) dom_multicast_map [of s] by blast
    have room: "card (dom (multicast_map s)) \<noteq> UCI_SIM_MAX_MULTICAST_ENTRIES"
      using free(2) multicast_full_iff [OF ok] by simp
    have es': "multicast_entries s' = pre @ ?e # post"
      using s'(2) split(1,2) by (simp add: list_update_append)
    have key_e: "multicast_key ?e = (a, sub)" by (simp add: multicast_key_def)
    have "multicast_ok (multicast_entries s')"
      using ok absent split key unfolding es' multicast_ok_def by (auto simp: key_e)
    moreover have "multicast_map s' = (multicast_map s)((a, sub) \<mapsto> key)"
      using absent split(3) map_of_insert_mid [of "(a, sub)"
          "map (\<lambda>e. (multicast_key e, mc_key e)) (filter mc_in_use pre)" key
          "map (\<lambda>e. (multicast_key e, mc_key e)) (filter mc_in_use post)"]
      unfolding multicast_map_def es' split(1)
      by (simp add: key_e image_image image_Un del: map_of_append)
    ultimately show ?thesis using s' free(1) room by simp
  qed
qed

lemma remove_multicast_spec:
  assumes ok: "multicast_ok (multicast_entries s)"
    and remove: "uci_sim_session_remove_multicast_entry s a sub = (status, s')"
  shows "if multicast_map s (a, sub) = None
         then status = uint UCI_STATUS_ADDRESS_NOT_FOUND \<and> s' = s
         else status = uint UCI_STATUS_OK \<and> multicast_ok (multicast_entries s')
              \<and> multicast_map s' = (multicast_map s)((a, sub) := None)
              \<and> s' = s\<lparr>multicast_entries := multicast_entries s'\<rparr>"
proof (cases "find_index (multicast_match a sub) (multicast_entries s)")
  case None
  with remove multicast_present_iff [of a sub s] show ?thesis
    by (simp add: uci_sim_session_remove_multicast_entry_def)
next
  case (Some i)
  then have s': "status = uint UCI_STATUS_OK"
      "s' = s\<lparr>multicast_entries := (multicast_entries s)[i := free_multicast]\<rparr>"
    using remove by (simp_all add: uci_sim_session_remove_multicast_entry_def)
  from Some obtain pre x post where split: "multicast_entries s = pre @ x # post"
      "length pre = i" "multicast_match a sub x" by (rule find_index_split)
  have es': "multicast_entries s' = pre @ free_multicast # post"
    using s'(2) split(1,2) by (simp add: list_update_append)
  have x: "mc_in_use x" "multicast_key x = (a, sub)"
    using split(3) by (simp_all add: multicast_match_key)
  have others: "(a, sub) \<notin> multicast_key ` set (filter mc_in_use (pre @ post))"
    using ok x unfolding multicast_ok_def split(1) by auto
  have "multicast_ok (multicast_entries s')"
    using ok x unfolding es' multicast_ok_def split(1) by (auto simp: free_multicast_def)
  moreover have "multicast_map s' = (multicast_map s)((a, sub) := None)"
    using others x map_of_delete_mid [of "(a, sub)"
        "map (\<lambda>e. (multicast_key e, mc_key e)) (filter mc_in_use pre)"
        "map (\<lambda>e. (multicast_key e, mc_key e)) (filter mc_in_use post)" "mc_key x"]
    unfolding multicast_map_def es' split(1)
    by (simp add: free_multicast_def image_image image_Un del: map_of_append)
  moreover have "multicast_map s (a, sub) \<noteq> None"
    using Some multicast_present_iff [of a sub s] by simp
  ultimately show ?thesis using s' by simp
qed


subsection \<open>Logical links\<close>

lemma find_logical_link_None_iff:
  "links_ok (logical_links s) \<Longrightarrow>
   uci_sim_session_find_logical_link s c = None \<longleftrightarrow> c \<notin> ll_link_id ` set (logical_links s)"
  by (auto simp: uci_sim_session_find_logical_link_def find_index_None_iff links_ok_def image_iff)

lemma next_free_link_run:
  "c \<le> next_free_link s c
   \<and> (\<forall>j. c \<le> j \<and> j < next_free_link s c \<longrightarrow> uci_sim_session_find_logical_link s j \<noteq> None)
   \<and> (uci_sim_session_find_logical_link s (next_free_link s c) = None \<or> \<not> next_free_link s c < 0xFF)"
proof (induction s c rule: next_free_link.induct)
  case (1 s c)
  show ?case
  proof (cases "uci_sim_session_find_logical_link s c \<noteq> None \<and> c < 0xFF")
    case True
    then have "unat c < 255" by (simp add: word_less_nat_alt)
    then have succ: "unat (c + 1) = unat c + 1" by (subst unat_add_lem [THEN iffD1]) simp_all
    have step: "next_free_link s c = next_free_link s (c + 1)"
      using True by (subst next_free_link.simps) (simp only: simp_thms if_True)
    note IH = 1 [OF True]
    have le: "c \<le> next_free_link s (c + 1)"
      using IH succ by (simp add: word_le_nat_alt)
    have "uci_sim_session_find_logical_link s j \<noteq> None"
      if "c \<le> j" "j < next_free_link s (c + 1)" for j
    proof (cases "j = c")
      case False
      with that(1) succ have "c + 1 \<le> j" by (simp add: word_le_nat_alt word_unat_eq_iff)
      with IH that(2) show ?thesis by blast
    qed (use True in simp)
    with IH le show ?thesis unfolding step by blast
  next
    case False
    then have "next_free_link s c = c" by (subst next_free_link.simps) (simp only: if_False)
    with False show ?thesis by (metis leD order_refl)
  qed
qed

text \<open>
  With at most seven links open, the search for a free id stops at one of 0 to 7, which no
  link uses; the test for an exhausted id space after the loop never succeeds.
\<close>

lemma next_free_link_free:
  assumes ok: "links_ok (logical_links s)" and room: "length (logical_links s) < UCI_SIM_MAX_LOGICAL_LINKS"
  shows "unat (next_free_link s 0) \<le> length (logical_links s)"
    and "uci_sim_session_find_logical_link s (next_free_link s 0) = None"
proof -
  let ?r = "next_free_link s 0"
  have used: "\<forall>j. j < ?r \<longrightarrow> uci_sim_session_find_logical_link s j \<noteq> None"
    and stop: "uci_sim_session_find_logical_link s ?r = None \<or> \<not> ?r < 0xFF"
    using next_free_link_run [of 0 s] by auto
  have "of_nat ` {..<unat ?r} \<subseteq> ll_link_id ` set (logical_links s)"
  proof
    fix j :: u8
    assume "j \<in> of_nat ` {..<unat ?r}"
    then obtain n where n: "j = of_nat n" "n < unat ?r" by auto
    then have "unat j = n" using unsigned_less [of ?r, where 'a = nat]
      by (simp add: unsigned_of_nat take_bit_nat_eq_self)
    with n have "j < ?r" by (simp add: word_less_nat_alt)
    with used have "uci_sim_session_find_logical_link s j \<noteq> None" by blast
    then show "j \<in> ll_link_id ` set (logical_links s)" using find_logical_link_None_iff [OF ok, of j] by simp
  qed
  then have "card (of_nat ` {..<unat ?r} :: u8 set) \<le> card (ll_link_id ` set (logical_links s))"
    by (intro card_mono) auto
  moreover have "card (of_nat ` {..<unat ?r} :: u8 set) = unat ?r"
  proof -
    have small: "n < 2 ^ 8" if "n < unat ?r" for n :: nat
      using that unsigned_less [of ?r, where 'a = nat] by simp
    have "inj_on (of_nat :: nat \<Rightarrow> u8) {..<unat ?r}"
    proof (rule inj_onI)
      fix m n :: nat
      assume "m \<in> {..<unat ?r}" "n \<in> {..<unat ?r}" "(of_nat m :: u8) = of_nat n"
      then show "m = n"
        using small [of m] small [of n] by (simp add: word_of_nat_eq_iff take_bit_nat_eq_self)
    qed
    then show ?thesis by (simp add: card_image)
  qed
  moreover have "card (ll_link_id ` set (logical_links s)) \<le> length (logical_links s)"
    by (metis card_length length_map list.set_map)
  ultimately show bound: "unat ?r \<le> length (logical_links s)" by simp
  then have "?r < 0xFF" using room by (simp add: word_less_nat_alt)
  with stop show "uci_sim_session_find_logical_link s ?r = None" by blast
qed

lemma allocate_link_spec:
  assumes ok: "links_ok (logical_links s)"
    and fresh: "req \<noteq> 0xFF \<Longrightarrow> uci_sim_session_find_logical_link s req = None"
  shows "uci_sim_session_allocate_logical_link s req =
     (if length (logical_links s) \<ge> UCI_SIM_MAX_LOGICAL_LINKS then None
      else let c = (if req = 0xFF then next_free_link s 0 else req)
           in Some (s\<lparr>logical_links := logical_links s
                 @ [\<lparr>ll_link_id = c, ll_mode = 0, ll_credit = 0, ll_in_use = True\<rparr>]\<rparr>,
               length (logical_links s), c))"
    and "uci_sim_session_allocate_logical_link s req = Some (s', i, c) \<Longrightarrow>
      uci_sim_session_find_logical_link s c = None \<and> c \<noteq> 0xFF \<and> (req \<noteq> 0xFF \<longrightarrow> c = req)
      \<and> length (logical_links s) < UCI_SIM_MAX_LOGICAL_LINKS"
proof -
  have lt: "next_free_link s 0 \<noteq> 0xFF" "uci_sim_session_find_logical_link s (next_free_link s 0) = None"
    if "length (logical_links s) < UCI_SIM_MAX_LOGICAL_LINKS"
    using next_free_link_free [OF ok that] that by auto
  then show "uci_sim_session_allocate_logical_link s req =
     (if length (logical_links s) \<ge> UCI_SIM_MAX_LOGICAL_LINKS then None
      else let c = (if req = 0xFF then next_free_link s 0 else req)
           in Some (s\<lparr>logical_links := logical_links s
                 @ [\<lparr>ll_link_id = c, ll_mode = 0, ll_credit = 0, ll_in_use = True\<rparr>]\<rparr>,
               length (logical_links s), c))"
    by (cases "length (logical_links s) < UCI_SIM_MAX_LOGICAL_LINKS")
      (simp_all add: uci_sim_session_allocate_logical_link_def Let_def)
  show "uci_sim_session_allocate_logical_link s req = Some (s', i, c) \<Longrightarrow>
      uci_sim_session_find_logical_link s c = None \<and> c \<noteq> 0xFF \<and> (req \<noteq> 0xFF \<longrightarrow> c = req)
      \<and> length (logical_links s) < UCI_SIM_MAX_LOGICAL_LINKS"
    using lt fresh
    by (auto simp: uci_sim_session_allocate_logical_link_def Let_def split: if_splits)
qed

lemma links_ok_append:
  "links_ok ls \<Longrightarrow> length ls < UCI_SIM_MAX_LOGICAL_LINKS \<Longrightarrow> ll_in_use l \<Longrightarrow> ll_link_id l \<noteq> 0xFF
   \<Longrightarrow> ll_link_id l \<notin> ll_link_id ` set ls \<Longrightarrow> links_ok (ls @ [l])"
  by (auto simp: links_ok_def)

lemma links_ok_remove: "links_ok ls \<Longrightarrow> links_ok (take i ls @ drop (Suc i) ls)"
proof (cases "i < length ls")
  case True
  assume ok: "links_ok ls"
  have ls: "ls = take i ls @ ls ! i # drop (Suc i) ls" using True by (rule id_take_nth_drop)
  from ok have "links_ok (take i ls @ ls ! i # drop (Suc i) ls)" using ls by simp
  then show ?thesis by (auto simp: links_ok_def)
qed simp

lemma remove_link_spec:
  assumes ok: "links_ok (logical_links s)"
  shows "uci_sim_session_remove_logical_link s c = None \<longleftrightarrow> c \<notin> ll_link_id ` set (logical_links s)"
    and "uci_sim_session_remove_logical_link s c = Some s' \<Longrightarrow>
      ll_link_id ` set (logical_links s') = ll_link_id ` set (logical_links s) - {c}
      \<and> links_ok (logical_links s') \<and> s' = s\<lparr>logical_links := logical_links s'\<rparr>"
proof -
  show "uci_sim_session_remove_logical_link s c = None \<longleftrightarrow> c \<notin> ll_link_id ` set (logical_links s)"
    using find_logical_link_None_iff [OF ok, of c]
    by (auto simp: uci_sim_session_remove_logical_link_def split: option.splits)
  assume "uci_sim_session_remove_logical_link s c = Some s'"
  then obtain i where i: "uci_sim_session_find_logical_link s c = Some i"
      and s': "s' = s\<lparr>logical_links := take i (logical_links s) @ drop (Suc i) (logical_links s)\<rparr>"
    by (auto simp: uci_sim_session_remove_logical_link_def split: option.splits)
  from i obtain pre l post where split: "logical_links s = pre @ l # post" "length pre = i" "ll_link_id l = c"
    unfolding uci_sim_session_find_logical_link_def by (auto elim: find_index_split)
  have "distinct (map ll_link_id (pre @ l # post))"
    using ok split(1) by (simp add: links_ok_def)
  then have c: "c \<notin> ll_link_id ` set pre" "c \<notin> ll_link_id ` set post"
    using split(3) by auto
  have "ll_link_id ` set (pre @ l # post) = insert c (ll_link_id ` set pre \<union> ll_link_id ` set post)"
    using split(3) by auto
  then have "ll_link_id ` set (pre @ post) = ll_link_id ` set (pre @ l # post) - {c}"
    using c by (simp add: image_Un)
  moreover have ls': "logical_links s' = pre @ post"
    using s' split(1,2) by simp
  moreover have "links_ok (logical_links s')"
    using links_ok_remove [OF ok, of i] s' by simp
  ultimately show "ll_link_id ` set (logical_links s') = ll_link_id ` set (logical_links s) - {c}
      \<and> links_ok (logical_links s') \<and> s' = s\<lparr>logical_links := logical_links s'\<rparr>"
    using split(1) s' by simp
qed

subsection \<open>Properties\<close>

text \<open>The 80 ids of the default profile are as many as the table has entries.\<close>

lemma default_ids_fit: "card (set default_supported_session_app_config_ids) \<le> UCI_SIM_MAX_SESSION_CONFIGS"
  by (rule order_trans [OF card_length]) (simp add: default_supported_session_app_config_ids_def)

lemma multicast_zero [simp]: "multicast_map zero_session = Map.empty"
  by (simp add: multicast_map_def zero_session_def free_multicast_def)

lemma zero_configs [simp]: "uci_sim_session_get_config zero_session = Map.empty"
  by (rule ext) (simp add: uci_sim_session_get_config_def zero_session_def)

text \<open>
  C34. The parameter table of a session never runs out under the default profile: while the ids
  stored are supported ones, storing a supported id succeeds exactly when the value is at most
  64 bytes long, and then it changes that parameter and no other.
\<close>

theorem supported_config_stored:
  assumes "configs_ok (configs s)"
    and "dom (uci_sim_session_get_config s) \<subseteq> set default_supported_session_app_config_ids"
    and "k \<in> set default_supported_session_app_config_ids"
  shows "case uci_sim_session_store_config s k v of
      Some s' \<Rightarrow> length v \<le> UCI_SIM_MAX_CONFIG_VALUE
        \<and> uci_sim_session_get_config s' = (uci_sim_session_get_config s)(k \<mapsto> v)
    | None \<Rightarrow> length v > UCI_SIM_MAX_CONFIG_VALUE"
proof (cases "uci_sim_session_store_config s k v")
  case None
  with session_configs.store_within [OF assms finite_set default_ids_fit TrueI, of v] show ?thesis
    by (cases "length v \<le> UCI_SIM_MAX_CONFIG_VALUE") auto
next
  case (Some s')
  have "uci_sim_session_store_config s k v \<noteq> None" using Some by simp
  then have "length v \<le> UCI_SIM_MAX_CONFIG_VALUE"
    unfolding session_configs.store_defined [OF assms(1)] by simp
  with Some session_configs.store_lookup [OF assms(1) Some] show ?thesis by simp
qed

lemma supported_config_stored_witness:
  "case uci_sim_session_store_config zero_session UCI_APP_CONFIG_RANGING_INTERVAL [200, 0, 0, 0] of
      Some s' \<Rightarrow> length [200, 0, 0, 0 :: u8] \<le> UCI_SIM_MAX_CONFIG_VALUE
        \<and> uci_sim_session_get_config s' =
            (uci_sim_session_get_config zero_session)(UCI_APP_CONFIG_RANGING_INTERVAL \<mapsto> [200, 0, 0, 0])
    | None \<Rightarrow> length [200, 0, 0, 0 :: u8] > UCI_SIM_MAX_CONFIG_VALUE"
  by (rule supported_config_stored)
    (use session_okD(1) [OF zero_session_ok] in \<open>simp_all add: default_supported_session_app_config_ids_def\<close>)

text \<open>
  C35. The multicast list is a finite map from address and sub-session to key: adding an entry
  that is present, or to a list of eight, changes nothing and says which; otherwise the map is
  updated at that entry and no other part of the session changes.
\<close>

theorem multicast_add_refines_map:
  assumes "multicast_ok (multicast_entries s)" and "length key \<le> 32"
  shows "case uci_sim_session_add_multicast_entry s a sub key of (status, s') \<Rightarrow>
    if multicast_map s (a, sub) \<noteq> None
    then status = uint UCI_STATUS_ADDRESS_ALREADY_PRESENT \<and> s' = s
    else if card (dom (multicast_map s)) = UCI_SIM_MAX_MULTICAST_ENTRIES
    then status = uint UCI_STATUS_MULTICAST_LIST_FULL \<and> s' = s
    else status = uint UCI_STATUS_OK \<and> multicast_ok (multicast_entries s')
         \<and> multicast_map s' = (multicast_map s)((a, sub) \<mapsto> key)
         \<and> s' = s\<lparr>multicast_entries := multicast_entries s'\<rparr>"
proof -
  obtain status s' where add: "uci_sim_session_add_multicast_entry s a sub key = (status, s')"
    by (cases "uci_sim_session_add_multicast_entry s a sub key")
  from add_multicast_spec [OF assms add] show ?thesis unfolding add prod.case .
qed

lemma multicast_add_refines_map_witness:
  "case uci_sim_session_add_multicast_entry zero_session 0x1234 7 [1, 2] of (status, s') \<Rightarrow>
    status = uint UCI_STATUS_OK \<and> multicast_map s' = [(0x1234, 7) \<mapsto> [1, 2]]"
  using multicast_add_refines_map [OF session_okD(2) [OF zero_session_ok], of "[1, 2]" "0x1234" 7]
  by (auto split: prod.splits)

text \<open>
  C36. Removing a multicast entry is refused when it is absent, and otherwise takes exactly that
  entry out of the map; after a successful add, removing the entry again restores the map.
\<close>

theorem multicast_remove_undoes_add:
  assumes "multicast_ok (multicast_entries s)" and "length key \<le> 32"
    and "uci_sim_session_add_multicast_entry s a sub key = (uint UCI_STATUS_OK, s')"
  shows "case uci_sim_session_remove_multicast_entry s' a sub of (status, s'') \<Rightarrow>
    status = uint UCI_STATUS_OK \<and> multicast_map s'' = multicast_map s
    \<and> fst (uci_sim_session_remove_multicast_entry s a sub) = uint UCI_STATUS_ADDRESS_NOT_FOUND"
proof -
  from add_multicast_spec [OF assms]
  have new: "multicast_map s (a, sub) = None" "multicast_ok (multicast_entries s')"
      "multicast_map s' = (multicast_map s)((a, sub) \<mapsto> key)"
    by (auto split: if_splits)
  obtain st0 s0 where r0: "uci_sim_session_remove_multicast_entry s a sub = (st0, s0)" by (cases "uci_sim_session_remove_multicast_entry s a sub")
  obtain st1 s1 where r1: "uci_sim_session_remove_multicast_entry s' a sub = (st1, s1)" by (cases "uci_sim_session_remove_multicast_entry s' a sub")
  from remove_multicast_spec [OF assms(1) r0] remove_multicast_spec [OF new(2) r1] new r0 r1
  show ?thesis by (simp add: fun_upd_idem)
qed

lemma multicast_remove_undoes_add_witness:
  "case uci_sim_session_remove_multicast_entry (snd (uci_sim_session_add_multicast_entry zero_session 5 6 [9])) 5 6 of
    (status, s'') \<Rightarrow> status = uint UCI_STATUS_OK \<and> multicast_map s'' = Map.empty
    \<and> fst (uci_sim_session_remove_multicast_entry zero_session 5 6) = uint UCI_STATUS_ADDRESS_NOT_FOUND"
proof -
  have "uci_sim_session_add_multicast_entry zero_session 5 6 [9] =
      (uint UCI_STATUS_OK, snd (uci_sim_session_add_multicast_entry zero_session 5 6 [9]))"
    using add_multicast_spec [OF session_okD(2) [OF zero_session_ok] _ surjective_pairing, of "[9]" 5 6]
    by (intro prod_eqI) simp_all
  from multicast_remove_undoes_add [OF session_okD(2) [OF zero_session_ok] _ this] show ?thesis by simp
qed

end
