(* ===== verification/Scenario.thy ===== *)
theory Scenario
  imports Prelude
begin

text \<open>
  \<open>include/uci_sim_scenario.h\<close> and the pure part of \<open>src/spec/uci_sim_scenario.c\<close>: the
  scenario kinds, their names on the command line and the two delivery policies. The hooks of
  the same file that start and stop a session's stream are in \<open>Streaming\<close>.
\<close>

datatype uci_sim_scenario_kind =
  UCI_SIM_SCENARIO_DEFAULT
| UCI_SIM_SCENARIO_DELAYED_NOTIFICATIONS
| UCI_SIM_SCENARIO_RANGING_STREAM

fun uci_sim_scenario_name :: "uci_sim_scenario_kind \<Rightarrow> string" where
  "uci_sim_scenario_name UCI_SIM_SCENARIO_DEFAULT = ''default''"
| "uci_sim_scenario_name UCI_SIM_SCENARIO_DELAYED_NOTIFICATIONS = ''delayed_notifications''"
| "uci_sim_scenario_name UCI_SIM_SCENARIO_RANGING_STREAM = ''ranging_stream''"

definition uci_sim_scenario_parse :: "string \<Rightarrow> uci_sim_scenario_kind option" where
  "uci_sim_scenario_parse name =
     (if name = ''default'' then Some UCI_SIM_SCENARIO_DEFAULT
      else if name = ''delayed_notifications'' then Some UCI_SIM_SCENARIO_DELAYED_NOTIFICATIONS
      else if name = ''ranging_stream'' then Some UCI_SIM_SCENARIO_RANGING_STREAM
      else None)"

definition uci_sim_scenario_should_defer_notification :: "uci_sim_scenario_kind \<Rightarrow> bool" where
  "uci_sim_scenario_should_defer_notification scenario \<longleftrightarrow>
     scenario = UCI_SIM_SCENARIO_DELAYED_NOTIFICATIONS"

definition uci_sim_scenario_should_auto_deliver_pending ::
    "uci_sim_scenario_kind \<Rightarrow> nat \<Rightarrow> bool" where
  "uci_sim_scenario_should_auto_deliver_pending scenario pending_count_before \<longleftrightarrow>
     \<not> (scenario = UCI_SIM_SCENARIO_DELAYED_NOTIFICATIONS \<and> pending_count_before = 0)"

lemma scenario_parse_name:
  "uci_sim_scenario_parse n = Some k \<longleftrightarrow> n = uci_sim_scenario_name k"
  by (cases k) (auto simp: uci_sim_scenario_parse_def)

end
