(* ===== verification/Packet.thy ===== *)
theory Packet
  imports Uci_Spec
begin

text \<open>
  \<open>include/uci_sim_packet.h\<close> and \<open>src/core/uci_sim_packet.c\<close>: the packet and its wire
  format. The C struct holds a 1024-byte array and the number \<open>payload_len\<close> of its bytes
  that count; no code reads a byte past \<open>payload_len\<close>, so the model keeps the list of the
  bytes that count and \<open>payload_len\<close> is its length. A buffer and its length are one list.
  The theorems are the two round trips between packets and bytes, the exact condition under
  which a packet can be serialised, and what the parser accepts.
\<close>

subsection \<open>The packet\<close>

record uci_sim_packet =
  mt :: u8
  pbf :: u8
  gid :: u8
  oid :: u8
  payload :: bytes

definition payload_len :: "uci_sim_packet \<Rightarrow> nat" where
  "payload_len p = length (payload p)"

definition payload_length_from_header :: "u8 \<Rightarrow> u8 \<Rightarrow> u8 \<Rightarrow> u16" where
  "payload_length_from_header mt' third fourth =
     (if mt' = UCI_MT_DATA then ucast third OR push_bit 8 (ucast fourth) else ucast fourth)"

definition uci_sim_packet_parse :: "bytes \<Rightarrow> uci_sim_packet option" where
  "uci_sim_packet_parse buffer =
     (if length buffer < UCI_SIM_HEADER_SIZE then None
      else
        let m = drop_bit 5 (buffer ! 0) AND 0x03;
            n = unat (payload_length_from_header m (buffer ! 2) (buffer ! 3))
        in if n > UCI_SIM_MAX_PAYLOAD then None
           else if length buffer < UCI_SIM_HEADER_SIZE + n then None
           else Some \<lparr>mt = m, pbf = drop_bit 4 (buffer ! 0) AND 0x01,
                      gid = buffer ! 0 AND 0x0F, oid = buffer ! 1 AND 0x3F,
                      payload = take n (drop UCI_SIM_HEADER_SIZE buffer)\<rparr>)"

definition header_byte0 :: "uci_sim_packet \<Rightarrow> u8" where
  "header_byte0 p =
     push_bit 5 (mt p AND 0x03) OR push_bit 4 (pbf p AND 0x01) OR (gid p AND 0x0F)"

definition uci_sim_packet_serialize :: "uci_sim_packet \<Rightarrow> nat \<Rightarrow> bytes option" where
  "uci_sim_packet_serialize p capacity =
     (if payload_len p > UCI_SIM_MAX_PAYLOAD then None
      else if mt p \<noteq> UCI_MT_DATA \<and> payload_len p > 255 then None
      else if capacity < UCI_SIM_HEADER_SIZE + payload_len p then None
      else
        let n = (of_nat (payload_len p) :: u16)
        in Some (header_byte0 p # (oid p AND 0x3F)
                 # (if mt p = UCI_MT_DATA
                    then [ucast (n AND 0xFF), ucast (drop_bit 8 n AND 0xFF)]
                    else [0, ucast (n AND 0xFF)])
                 @ payload p))"

subsection \<open>Packets whose fields fit the header\<close>

definition packet_ok :: "uci_sim_packet \<Rightarrow> bool" where
  "packet_ok p \<longleftrightarrow> mt p < 4 \<and> pbf p < 2 \<and> gid p < 16 \<and> oid p < 64
     \<and> payload_len p \<le> UCI_SIM_MAX_PAYLOAD \<and> (mt p \<noteq> UCI_MT_DATA \<longrightarrow> payload_len p \<le> 255)"

lemma header_fields:
  fixes m b g :: u8
  assumes "m < 4" and "b < 2" and "g < 16"
  defines "h \<equiv> push_bit 5 (m AND 0x03) OR push_bit 4 (b AND 0x01) OR (g AND 0x0F)"
  shows "drop_bit 5 h AND 0x03 = m" and "drop_bit 4 h AND 0x01 = b" and "h AND 0x0F = g"
proof -
  have masks: "(0x03 :: u8) = mask 2" "(0x01 :: u8) = mask 1" "(0x0F :: u8) = mask 4"
    by (simp_all add: mask_numeral)
  have small: "m AND mask 2 = m" "b AND mask 1 = b" "g AND mask 4 = g"
    using assms(1-3) by (intro and_mask_small; simp add: word_less_nat_alt)+
  have below: "k < 2" if "bit m k" for k
    using bit_small [of m 2] that assms(1) by (simp add: word_less_nat_alt)
  have below1: "k < 1" if "bit b k" for k
    using bit_small [of b 1] that assms(2) by (simp add: word_less_nat_alt)
  have below4: "k < 4" if "bit g k" for k
    using bit_small [of g 4] that assms(3) by (simp add: word_less_nat_alt)
  have h: "h = push_bit 5 m OR push_bit 4 b OR g"
    by (simp only: h_def masks small)
  show "drop_bit 5 h AND 0x03 = m" unfolding h masks
    by (rule bit_word_eqI) (auto simp: bit_simps dest: below below1 below4)
  show "drop_bit 4 h AND 0x01 = b" unfolding h masks
    by (rule bit_word_eqI) (auto simp: bit_simps dest: below below1 below4)
  show "h AND 0x0F = g" unfolding h masks
    by (rule bit_word_eqI) (auto simp: bit_simps dest: below below1 below4)
qed

lemma oid_field: "(x :: u8) < 64 \<Longrightarrow> x AND 0x3F AND 0x3F = x" "(x :: u8) < 64 \<Longrightarrow> x AND 0x3F = x"
  using and_mask_small [of x 6] by (simp_all add: word_less_nat_alt mask_numeral)

lemma data_length_roundtrip:
  "ucast (ucast n :: u8) OR push_bit 8 (ucast (ucast (drop_bit 8 n) :: u8)) = (n :: u16)"
  using read_write_u16_Nil [of n] by (simp add: read_u16_le_def write_u16_le_def)

lemma header_length:
  assumes "n \<le> UCI_SIM_MAX_PAYLOAD" and "m \<noteq> UCI_MT_DATA \<Longrightarrow> n \<le> 255"
  defines "w \<equiv> (of_nat n :: u16)"
  shows "m = UCI_MT_DATA \<Longrightarrow>
      unat (payload_length_from_header m (ucast w) (ucast (drop_bit 8 w))) = n"
    and "m \<noteq> UCI_MT_DATA \<Longrightarrow> unat (payload_length_from_header m x (ucast w)) = n"
proof -
  have w: "unat w = n"
    using assms(1) by (simp add: w_def unat_of_nat)
  show "m = UCI_MT_DATA \<Longrightarrow>
      unat (payload_length_from_header m (ucast w) (ucast (drop_bit 8 w))) = n"
    by (simp add: payload_length_from_header_def data_length_roundtrip w)
  assume m: "m \<noteq> UCI_MT_DATA"
  then have "take_bit 8 w = w"
    using assms(2) by (intro take_bit_small) (simp add: w)
  then have "(ucast (ucast w :: u8) :: u16) = w"
    by (simp add: unsigned_ucast_eq flip: take_bit_eq_mask)
  with m show "unat (payload_length_from_header m x (ucast w)) = n"
    by (simp add: payload_length_from_header_def w)
qed

subsection \<open>Round trips\<close>

lemma serialize_Some_iff:
  "(\<exists>w. uci_sim_packet_serialize p capacity = Some w) \<longleftrightarrow>
     payload_len p \<le> UCI_SIM_MAX_PAYLOAD \<and> (mt p = UCI_MT_DATA \<or> payload_len p \<le> 255)
     \<and> UCI_SIM_HEADER_SIZE + payload_len p \<le> capacity"
  by (auto simp: uci_sim_packet_serialize_def Let_def)

lemma serialize_length:
  "uci_sim_packet_serialize p capacity = Some w \<Longrightarrow> length w = UCI_SIM_HEADER_SIZE + payload_len p"
  by (auto simp: uci_sim_packet_serialize_def Let_def payload_len_def split: if_splits)

lemma parse_Some_nth:
  "uci_sim_packet_parse buffer = Some p \<longleftrightarrow>
     UCI_SIM_HEADER_SIZE \<le> length buffer
     \<and> mt p = drop_bit 5 (buffer ! 0) AND 0x03 \<and> pbf p = drop_bit 4 (buffer ! 0) AND 0x01
     \<and> gid p = buffer ! 0 AND 0x0F \<and> oid p = buffer ! 1 AND 0x3F
     \<and> payload_len p = unat (payload_length_from_header (mt p) (buffer ! 2) (buffer ! 3))
     \<and> payload_len p \<le> UCI_SIM_MAX_PAYLOAD
     \<and> UCI_SIM_HEADER_SIZE + payload_len p \<le> length buffer
     \<and> payload p = take (payload_len p) (drop UCI_SIM_HEADER_SIZE buffer)"
  by (cases p) (auto simp: uci_sim_packet_parse_def Let_def payload_len_def)

text \<open>A packet whose fields fit the header survives the wire, whatever follows it there.\<close>

lemma parse_serialize:
  assumes ok: "packet_ok p" and w: "uci_sim_packet_serialize p capacity = Some w"
  shows "uci_sim_packet_parse (w @ rest) = Some p"
proof -
  have fit: "mt p < 4" "pbf p < 2" "gid p < 16" "oid p < 64"
      "payload_len p \<le> UCI_SIM_MAX_PAYLOAD" "mt p \<noteq> UCI_MT_DATA \<Longrightarrow> payload_len p \<le> 255"
    using ok by (auto simp: packet_ok_def)
  note hf = header_fields [OF fit(1-3), folded header_byte0_def]
  let ?n = "of_nat (payload_len p) :: u16"
  have shape: "w = header_byte0 p # (oid p AND 0x3F)
      # (if mt p = UCI_MT_DATA then [ucast ?n, ucast (drop_bit 8 ?n)] else [0, ucast ?n]) @ payload p"
    using w by (simp add: uci_sim_packet_serialize_def Let_def split: if_splits)
  have len: "unat (payload_length_from_header (mt p) ((w @ rest) ! 2) ((w @ rest) ! 3)) = payload_len p"
    using header_length [OF fit(5), of "mt p"] fit(6) by (simp add: shape)
  show ?thesis
    unfolding parse_Some_nth len using hf oid_field [OF fit(4)] fit(5)
    by (simp add: shape payload_len_def)
qed

text \<open>
  A header is canonical when the bits no field uses are zero: bit 7 of the first byte, bits 6
  and 7 of the second, and the third byte of a control packet.
\<close>

definition canonical_header :: "bytes \<Rightarrow> bool" where
  "canonical_header buffer \<longleftrightarrow>
     buffer ! 0 < 0x80 \<and> buffer ! 1 < 0x40
     \<and> (drop_bit 5 (buffer ! 0) AND 0x03 \<noteq> UCI_MT_DATA \<longrightarrow> buffer ! 2 = 0)"

lemma parse_packet_ok: "uci_sim_packet_parse buffer = Some p \<Longrightarrow> packet_ok p"
proof -
  assume "uci_sim_packet_parse buffer = Some p"
  then have parsed: "mt p = drop_bit 5 (buffer ! 0) AND 0x03" "pbf p = drop_bit 4 (buffer ! 0) AND 0x01"
      "gid p = buffer ! 0 AND 0x0F" "oid p = buffer ! 1 AND 0x3F"
      "payload_len p = unat (payload_length_from_header (mt p) (buffer ! 2) (buffer ! 3))"
      "payload_len p \<le> UCI_SIM_MAX_PAYLOAD"
    unfolding parse_Some_nth by blast+
  have masks: "(0x03 :: u8) = mask 2" "(0x01 :: u8) = mask 1" "(0x0F :: u8) = mask 4" "(0x3F :: u8) = mask 6"
    by (simp_all add: mask_numeral)
  note f = parsed [unfolded masks]
  have "unat (mt p) < 2 ^ 2" "unat (pbf p) < 2 ^ 1" "unat (gid p) < 2 ^ 4" "unat (oid p) < 2 ^ 6"
    unfolding f(1-4) by (rule unat_and_mask_less)+
  moreover have "mt p \<noteq> UCI_MT_DATA \<Longrightarrow> payload_len p \<le> 255"
    by (simp add: f(5) payload_length_from_header_def)
  ultimately show ?thesis using f(6) by (simp add: packet_ok_def word_less_nat_alt)
qed

lemma header_byte0_parse:
  assumes "b < (0x80 :: u8)"
  shows "push_bit 5 (drop_bit 5 b AND 0x03 AND 0x03) OR push_bit 4 (drop_bit 4 b AND 0x01 AND 0x01)
           OR (b AND 0x0F AND 0x0F) = b"
proof -
  have masks: "(0x03 :: u8) = mask 2" "(0x01 :: u8) = mask 1" "(0x0F :: u8) = mask 4"
    by (simp_all add: mask_numeral)
  have below: "k < 7" if "bit b k" for k
    using bit_small [of b 7] that assms by (simp add: word_less_nat_alt)
  show ?thesis unfolding masks
  proof (rule bit_word_eqI)
    fix n
    assume "n < LENGTH(8)"
    consider "n < 4" | "n = 4" | "5 \<le> n" "n < 7" | "7 \<le> n" by linarith
    then show "bit (push_bit 5 (drop_bit 5 b AND mask 2 AND mask 2)
         OR push_bit 4 (drop_bit 4 b AND mask 1 AND mask 1) OR (b AND mask 4 AND mask 4)) n \<longleftrightarrow> bit b n"
      by cases (auto simp: bit_simps dest: below)
  qed
qed

lemma take_header [simp]: "take (4 + n) (a # b # c # d # xs) = a # b # c # d # take n xs"
  by (simp add: numeral_eq_Suc)

text \<open>A canonical buffer is what serialising the parsed packet gives back.\<close>

lemma serialize_parse:
  assumes parse: "uci_sim_packet_parse buffer = Some p" and canon: "canonical_header buffer"
    and cap: "UCI_SIM_HEADER_SIZE + payload_len p \<le> capacity"
  shows "uci_sim_packet_serialize p capacity
    = Some (take (UCI_SIM_HEADER_SIZE + payload_len p) buffer)"
proof -
  note ok = parse_packet_ok [OF parse, unfolded packet_ok_def]
  note f = parse [unfolded parse_Some_nth]
  from f obtain b0 b1 b2 b3 rest where buf: "buffer = b0 # b1 # b2 # b3 # rest"
    by (auto simp: numeral_eq_Suc Suc_le_length_iff)
  have b0: "header_byte0 p = b0"
    using f canon header_byte0_parse [of b0] by (simp add: header_byte0_def canonical_header_def buf)
  have b1: "oid p AND 0x3F = b1"
    using f canon oid_field [of b1] by (simp add: canonical_header_def buf)
  have len: "payload_len p = unat (payload_length_from_header (mt p) b2 b3)"
    using f by (simp add: buf)
  have tail: "payload p = take (payload_len p) rest"
    using f by (simp add: buf)
  let ?n = "of_nat (payload_len p) :: u16"
  have n: "?n = payload_length_from_header (mt p) b2 b3"
    by (simp add: len)
  have high: "\<not> bit b2 (8 + k)" for k
    using bit_imp_le_length [of b2 "8 + k"] by auto
  have data: "[ucast ?n, ucast (drop_bit 8 ?n)] = [b2, b3]" if "mt p = UCI_MT_DATA"
    using that high unfolding n
    by (auto simp: payload_length_from_header_def bit_simps intro!: bit_word_eqI
        dest: bit_imp_le_length)
  have control: "[0, ucast ?n] = [b2, b3]" if "mt p \<noteq> UCI_MT_DATA"
    using that canon f unfolding n by (simp add: payload_length_from_header_def canonical_header_def buf)
  show ?thesis
    using ok cap b0 b1 tail data control
    by (cases "mt p = UCI_MT_DATA") (auto simp: uci_sim_packet_serialize_def Let_def buf)
qed


subsection \<open>The properties\<close>

text \<open>
  C18. Serialise then parse: whatever follows on the wire, the parser gives back exactly the
  packet that was serialised, when the packet's fields fit their header bits.
\<close>

theorem packet_roundtrip:
  assumes "packet_ok p" and "uci_sim_packet_serialize p capacity = Some w"
  shows "uci_sim_packet_parse (w @ rest) = Some p \<and> length w = UCI_SIM_HEADER_SIZE + payload_len p"
  using parse_serialize [OF assms] serialize_length [OF assms(2)] by auto

lemma packet_roundtrip_witness:
  "uci_sim_packet_parse ([0x20, 0x02, 0x00, 0x00] @ [0xAA])
     = Some \<lparr>mt = 1, pbf = 0, gid = 0, oid = 2, payload = []\<rparr>"
  by (rule packet_roundtrip [where capacity = 1028, THEN conjunct1])
    (simp_all add: packet_ok_def payload_len_def uci_sim_packet_serialize_def header_byte0_def Let_def)

text \<open>
  C19. Parse then serialise: a buffer whose reserved header bits are 0 is the serialisation of
  the packet parsed from it, byte for byte; the parser never yields a packet that does not
  serialise.
\<close>

theorem wire_roundtrip:
  assumes "uci_sim_packet_parse buffer = Some p" and "canonical_header buffer"
    and "UCI_SIM_HEADER_SIZE + payload_len p \<le> capacity"
  shows "uci_sim_packet_serialize p capacity = Some (take (UCI_SIM_HEADER_SIZE + payload_len p) buffer)"
  using serialize_parse [OF assms] .

lemma wire_roundtrip_witness:
  "uci_sim_packet_serialize \<lparr>mt = 0, pbf = 1, gid = 2, oid = 1, payload = [7]\<rparr> 5
     = Some (take (UCI_SIM_HEADER_SIZE + payload_len \<lparr>mt = 0, pbf = 1, gid = 2, oid = 1, payload = [7]\<rparr>)
         [0x12, 0x01, 0x01, 0x00, 7, 9])"
  by (rule wire_roundtrip)
    (simp_all add: payload_len_def uci_sim_packet_parse_def payload_length_from_header_def
      canonical_header_def Let_def)

end
