(* ===== verification/Bounded_Fifo.thy ===== *)
theory Bounded_Fifo
  imports Prelude
begin

text \<open>
  The contract of the two bounded packet queues: the pending notifications of a device
  (\<open>uci_sim_device_queue_notification\<close>, \<open>uci_sim_device_dequeue_notification\<close>) and the
  outbound packets of an engine (\<open>queue_outbound_packet\<close>,
  \<open>uci_sim_engine_dequeue_outbound_packet\<close>). A provider shows that \<open>put\<close> appends while there
  is room and refuses otherwise, and that \<open>get\<close> takes the oldest element; the clients' facts
  on order, loss and capacity are proved once here.
\<close>

locale bounded_fifo =
  fixes put :: "'q \<Rightarrow> 'a \<Rightarrow> rc \<times> 'q"
    and get :: "'q \<Rightarrow> ('a \<times> 'q) option"
    and items :: "'q \<Rightarrow> 'a list"
    and cap :: nat
  assumes put_room: "length (items q) < cap \<Longrightarrow>
      fst (put q x) = RC_OK \<and> items (snd (put q x)) = items q @ [x]"
    and put_full: "cap \<le> length (items q) \<Longrightarrow> put q x = (RC_FAIL, q)"
    and get_empty: "items q = [] \<Longrightarrow> get q = None"
    and get_next: "items q = x # xs \<Longrightarrow> \<exists>q'. get q = Some (x, q') \<and> items q' = xs"
begin

text \<open>Putting a list of elements one after the other, and taking \<open>n\<close> elements out.\<close>

fun put_all :: "'q \<Rightarrow> 'a list \<Rightarrow> 'q" where
  "put_all q [] = q"
| "put_all q (x # xs) = put_all (snd (put q x)) xs"

fun get_n :: "nat \<Rightarrow> 'q \<Rightarrow> 'a list \<times> 'q" where
  "get_n 0 q = ([], q)"
| "get_n (Suc n) q =
     (case get q of None \<Rightarrow> ([], q)
      | Some (x, q') \<Rightarrow> let (xs, q'') = get_n n q' in (x # xs, q''))"

lemma items_put:
  "items (snd (put q x)) = (if length (items q) < cap then items q @ [x] else items q)"
  using put_room [of q x] put_full [of q x] by (cases "length (items q) < cap") simp_all

lemma put_ok_iff: "fst (put q x) = RC_OK \<longleftrightarrow> length (items q) < cap"
  using put_room [of q x] put_full [of q x] by (cases "length (items q) < cap") simp_all

lemma get_None_iff: "get q = None \<longleftrightarrow> items q = []"
proof (cases "items q")
  case Nil
  then show ?thesis by (simp add: get_empty)
next
  case (Cons x xs)
  with get_next show ?thesis by fastforce
qed

lemma get_SomeD:
  assumes "get q = Some (x, q')"
  shows "items q = x # items q'"
proof (cases "items q")
  case Nil
  with assms get_empty show ?thesis by simp
next
  case (Cons y ys)
  from get_next [OF Cons] assms Cons show ?thesis by auto
qed

lemma items_put_all: "length (items q) \<le> cap \<Longrightarrow> items (put_all q xs) = take cap (items q @ xs)"
proof (induction xs arbitrary: q)
  case Nil
  then show ?case by simp
next
  case (Cons x xs)
  show ?case
  proof (cases "length (items q) < cap")
    case True
    then have "length (items (snd (put q x))) \<le> cap" by (simp add: items_put)
    then have "items (put_all (snd (put q x)) xs) = take cap (items (snd (put q x)) @ xs)"
      by (rule Cons.IH)
    with True show ?thesis by (simp add: items_put)
  next
    case False
    with Cons.prems have "length (items q) = cap" by simp
    with Cons.IH [of q] show ?thesis by (simp add: put_full)
  qed
qed

lemma get_n_spec:
  "fst (get_n n q) = take n (items q) \<and> items (snd (get_n n q)) = drop n (items q)"
proof (induction n arbitrary: q)
  case 0
  then show ?case by simp
next
  case (Suc n)
  show ?case
  proof (cases "get q")
    case None
    then have "items q = []" by (simp add: get_None_iff)
    with None show ?thesis by simp
  next
    case (Some r)
    obtain x q' where r: "r = (x, q')" by (cases r)
    with Some get_SomeD have "items q = x # items q'" by blast
    with Suc [of q'] Some r show ?thesis by (simp add: Let_def split_def)
  qed
qed

text \<open>First in, first out: what comes out is what was put in, oldest first, up to the capacity.\<close>

lemma fifo_order:
  assumes "items q = []"
  shows "fst (get_n (length xs) (put_all q xs)) = take cap xs"
  using get_n_spec [of "length xs" "put_all q xs"] items_put_all [of q xs] assms
  by (cases "length xs \<le> cap") (simp_all add: min_def)

lemma put_bound: "length (items q) \<le> cap \<Longrightarrow> length (items (snd (put q x))) \<le> cap"
  by (simp add: items_put)

end

end
