(* ===== verification/Device.thy ===== *)
theory Device
  imports Session Scenario Packet Bounded_Fifo
begin

text \<open>
  The device of \<open>include/uci_sim_device.h\<close> and the operations of
  \<open>src/model/uci_sim_device.c\<close> on it: start-up and reset, the queue of pending
  notifications, the scheduled events, the notification builders, the progress of a data
  transfer and the device configuration. Fields whose C name is also a profile field carry the
  prefix \<open>dev_\<close>. The arrays with a count (\<open>scheduled_events\<close>, \<open>pending_notifications\<close>)
  are the lists of their entries in use; a session pointer is an index into \<open>sessions\<close>.
  \<open>device_inv\<close> collects what every operation keeps true.
\<close>

abbreviation UCI_SIM_MAX_PENDING_NOTIFICATIONS :: nat where
  "UCI_SIM_MAX_PENDING_NOTIFICATIONS \<equiv> 8"
abbreviation UCI_SIM_MAX_SCENARIO_EVENTS :: nat where
  "UCI_SIM_MAX_SCENARIO_EVENTS \<equiv> 8"

datatype uci_sim_event_type =
  UCI_SIM_EVENT_NONE | UCI_SIM_EVENT_RANGE_DATA | UCI_SIM_EVENT_DATA_TRANSFER

record uci_sim_scheduled_event =
  ev_type :: uci_sim_event_type
  ev_session_id :: u32
  ev_delay_ms :: u32

record uci_sim_device =
  dev_uci_version :: u16
  dev_mac_version :: u16
  dev_phy_version :: u16
  dev_test_version :: u16
  dev_stats_temperature :: u16
  device_state :: u8
  next_uwbs_timestamp :: u64
  dev_profile :: "uci_sim_profile option"
  device_configs :: "uci_sim_device_config list"
  dev_scenario :: uci_sim_scenario_kind
  next_ranging_sequence :: u32
  sessions :: "uci_sim_session list"
  scheduled_events :: "uci_sim_scheduled_event list"
  pending_notifications :: "uci_sim_packet list"

text \<open>\<open>has_response\<close> and \<open>has_notification\<close> say whether the packet beside them counts.\<close>

record uci_sim_result =
  response :: "uci_sim_packet option"
  notification :: "uci_sim_packet option"

definition init_result :: uci_sim_result where
  "init_result = \<lparr>response = None, notification = None\<rparr>"

subsection \<open>Start-up and reset\<close>

definition zero_device :: uci_sim_device where
  "zero_device =
     \<lparr>dev_uci_version = 0, dev_mac_version = 0, dev_phy_version = 0, dev_test_version = 0,
      dev_stats_temperature = 0, device_state = 0, next_uwbs_timestamp = 0, dev_profile = None,
      device_configs = replicate UCI_SIM_MAX_DEVICE_CONFIGS free_config,
      dev_scenario = UCI_SIM_SCENARIO_DEFAULT, next_ranging_sequence = 0,
      sessions = replicate UCI_SIM_MAX_SESSIONS zero_session,
      scheduled_events = [], pending_notifications = []\<rparr>"

text \<open>\<open>device->profile ? device->profile : uci_sim_default_profile()\<close>\<close>

definition effective_profile :: "uci_sim_device \<Rightarrow> uci_sim_profile" where
  "effective_profile d =
     (case dev_profile d of Some p \<Rightarrow> p | None \<Rightarrow> uci_sim_default_profile)"

definition default_device_configs :: "uci_sim_profile \<Rightarrow> uci_sim_device_config list" where
  "default_device_configs p =
     [\<lparr>config_id = UCI_DEVICE_CONFIG_DEVICE_STATE, cfg_value = [default_device_state p], cfg_in_use = True\<rparr>,
      \<lparr>config_id = UCI_DEVICE_CONFIG_LOW_POWER_MODE, cfg_value = [default_low_power_mode p], cfg_in_use = True\<rparr>,
      \<lparr>config_id = UCI_DEVICE_CONFIG_DEVICE_PAN_ID,
       cfg_value = [default_device_pan_id p ! 0, default_device_pan_id p ! 1], cfg_in_use = True\<rparr>]
     @ replicate (UCI_SIM_MAX_DEVICE_CONFIGS - 3) free_config"

definition apply_profile_defaults :: "uci_sim_device \<Rightarrow> uci_sim_profile \<Rightarrow> uci_sim_device" where
  "apply_profile_defaults d p =
     d\<lparr>dev_profile := Some p, dev_uci_version := uci_version p, dev_mac_version := mac_version p,
       dev_phy_version := phy_version p, dev_test_version := test_version p,
       dev_stats_temperature := device_stats_temperature p, device_state := default_device_state p,
       next_uwbs_timestamp := initial_uwbs_timestamp p, device_configs := default_device_configs p\<rparr>"

definition uci_sim_device_set_scenario ::
    "uci_sim_device \<Rightarrow> uci_sim_scenario_kind \<Rightarrow> uci_sim_device" where
  "uci_sim_device_set_scenario d scenario = d\<lparr>dev_scenario := scenario\<rparr>"

definition uci_sim_device_init_with_profile ::
    "uci_sim_profile option \<Rightarrow> uci_sim_scenario_kind \<Rightarrow> uci_sim_device" where
  "uci_sim_device_init_with_profile profile scenario =
     (apply_profile_defaults zero_device
        (case profile of Some p \<Rightarrow> p | None \<Rightarrow> uci_sim_default_profile))
     \<lparr>dev_scenario := scenario, next_ranging_sequence := 1\<rparr>"

definition uci_sim_device_init_with_scenario :: "uci_sim_scenario_kind \<Rightarrow> uci_sim_device" where
  "uci_sim_device_init_with_scenario scenario =
     uci_sim_device_init_with_profile (Some uci_sim_default_profile) scenario"

definition uci_sim_device_init :: uci_sim_device where
  "uci_sim_device_init = uci_sim_device_init_with_scenario UCI_SIM_SCENARIO_DEFAULT"

definition uci_sim_device_reset_runtime_state :: "uci_sim_device \<Rightarrow> uci_sim_device" where
  "uci_sim_device_reset_runtime_state d =
     (let p = effective_profile d; scenario = dev_scenario d;
          d1 = d\<lparr>sessions := replicate UCI_SIM_MAX_SESSIONS zero_session,
                 scheduled_events := [], pending_notifications := [], next_ranging_sequence := 1\<rparr>;
          d2 = apply_profile_defaults d1 p
      in d2\<lparr>dev_scenario := scenario\<rparr>)"

subsection \<open>The pending notifications\<close>

definition uci_sim_device_queue_notification ::
    "uci_sim_device \<Rightarrow> uci_sim_packet \<Rightarrow> rc \<times> uci_sim_device" where
  "uci_sim_device_queue_notification d n =
     (if length (pending_notifications d) \<ge> UCI_SIM_MAX_PENDING_NOTIFICATIONS then (RC_FAIL, d)
      else (RC_OK, d\<lparr>pending_notifications := pending_notifications d @ [n]\<rparr>))"

definition uci_sim_device_dequeue_notification ::
    "uci_sim_device \<Rightarrow> (uci_sim_packet \<times> uci_sim_device) option" where
  "uci_sim_device_dequeue_notification d =
     (case pending_notifications d of [] \<Rightarrow> None
      | n # ns \<Rightarrow> Some (n, d\<lparr>pending_notifications := ns\<rparr>))"

subsection \<open>The scheduled events\<close>

definition uci_sim_device_schedule_event ::
    "uci_sim_device \<Rightarrow> uci_sim_event_type \<Rightarrow> u32 \<Rightarrow> u32 \<Rightarrow> rc \<times> uci_sim_device" where
  "uci_sim_device_schedule_event d type sid delay =
     (if type = UCI_SIM_EVENT_NONE then (RC_FAIL, d)
      else if length (scheduled_events d) \<ge> UCI_SIM_MAX_SCENARIO_EVENTS then (RC_FAIL, d)
      else (RC_OK, d\<lparr>scheduled_events := scheduled_events d
              @ [\<lparr>ev_type = type, ev_session_id = sid, ev_delay_ms = delay\<rparr>]\<rparr>))"

definition uci_sim_device_reschedule_session_event ::
    "uci_sim_device \<Rightarrow> uci_sim_event_type \<Rightarrow> u32 \<Rightarrow> u32 \<Rightarrow> rc \<times> uci_sim_device" where
  "uci_sim_device_reschedule_session_event d type sid delay =
     (if type = UCI_SIM_EVENT_NONE then (RC_FAIL, d)
      else
        let d' = d\<lparr>scheduled_events :=
              filter (\<lambda>e. \<not> (ev_type e = type \<and> ev_session_id e = sid)) (scheduled_events d)\<rparr>
        in uci_sim_device_schedule_event d' type sid delay)"

definition uci_sim_device_cancel_session_events :: "uci_sim_device \<Rightarrow> u32 \<Rightarrow> uci_sim_device" where
  "uci_sim_device_cancel_session_events d sid =
     d\<lparr>scheduled_events := filter (\<lambda>e. ev_session_id e \<noteq> sid) (scheduled_events d)\<rparr>"

definition tick_event :: "u32 \<Rightarrow> uci_sim_scheduled_event \<Rightarrow> uci_sim_scheduled_event" where
  "tick_event elapsed e =
     (if ev_delay_ms e > elapsed then e\<lparr>ev_delay_ms := ev_delay_ms e - elapsed\<rparr>
      else e\<lparr>ev_delay_ms := 0\<rparr>)"

definition uci_sim_device_tick_events :: "uci_sim_device \<Rightarrow> u32 \<Rightarrow> uci_sim_device" where
  "uci_sim_device_tick_events d elapsed =
     d\<lparr>scheduled_events := map (tick_event elapsed) (scheduled_events d)\<rparr>"

definition uci_sim_device_dequeue_ready_event ::
    "uci_sim_device \<Rightarrow> (uci_sim_scheduled_event \<times> uci_sim_device) option" where
  "uci_sim_device_dequeue_ready_event d =
     (case find_index (\<lambda>e. ev_delay_ms e = 0) (scheduled_events d) of
        None \<Rightarrow> None
      | Some i \<Rightarrow>
          Some (scheduled_events d ! i,
            d\<lparr>scheduled_events := take i (scheduled_events d) @ drop (Suc i) (scheduled_events d)\<rparr>))"

subsection \<open>Building and delivering notifications\<close>

definition uci_sim_device_queue_data_credit_notification ::
    "uci_sim_device \<Rightarrow> u32 \<Rightarrow> u8 \<Rightarrow> rc \<times> uci_sim_device" where
  "uci_sim_device_queue_data_credit_notification d sid availability =
     uci_sim_device_queue_notification d
       \<lparr>mt = UCI_MT_NOTIFICATION, pbf = UCI_PBF_COMPLETE, gid = UCI_GID_SESSION_CONTROL,
        oid = UCI_SESSION_DATA_CREDIT_NTF, payload = write_u32_le sid @ [availability]\<rparr>"

definition uci_sim_device_queue_data_transfer_status_notification ::
    "uci_sim_device \<Rightarrow> u32 \<Rightarrow> u16 \<Rightarrow> u8 \<Rightarrow> u8 \<Rightarrow> rc \<times> uci_sim_device" where
  "uci_sim_device_queue_data_transfer_status_notification d sid sequence_number status tx_count =
     uci_sim_device_queue_notification d
       \<lparr>mt = UCI_MT_NOTIFICATION, pbf = UCI_PBF_COMPLETE, gid = UCI_GID_SESSION_CONTROL,
        oid = UCI_SESSION_DATA_TRANSFER_STATUS_NTF,
        payload = write_u32_le sid @ write_u16_le sequence_number @ [status, tx_count]\<rparr>"

definition uci_sim_device_queue_session_status_notification ::
    "uci_sim_device \<Rightarrow> u32 \<Rightarrow> u8 \<Rightarrow> u8 \<Rightarrow> rc \<times> uci_sim_device" where
  "uci_sim_device_queue_session_status_notification d sid st reason =
     uci_sim_device_queue_notification d
       \<lparr>mt = UCI_MT_NOTIFICATION, pbf = UCI_PBF_COMPLETE, gid = UCI_GID_SESSION_CONFIG,
        oid = UCI_SESSION_STATUS_NTF, payload = write_u32_le sid @ [st, reason]\<rparr>"

definition uci_sim_device_deliver_notification ::
    "uci_sim_device \<Rightarrow> uci_sim_packet \<Rightarrow> uci_sim_result \<Rightarrow> rc \<times> uci_sim_device \<times> uci_sim_result" where
  "uci_sim_device_deliver_notification d n r =
     (if uci_sim_scenario_should_defer_notification (dev_scenario d) then
        let (c, d') = uci_sim_device_queue_notification d n in (c, d', r)
      else if notification r = None then (RC_OK, d, r\<lparr>notification := Some n\<rparr>)
      else let (c, d') = uci_sim_device_queue_notification d n in (c, d', r))"

definition uci_sim_device_finalize_result ::
    "uci_sim_device \<Rightarrow> uci_sim_result \<Rightarrow> nat \<Rightarrow> uci_sim_device \<times> uci_sim_result" where
  "uci_sim_device_finalize_result d r pending_count_before =
     (if notification r \<noteq> None then (d, r)
      else if \<not> uci_sim_scenario_should_auto_deliver_pending (dev_scenario d) pending_count_before
      then (d, r)
      else case uci_sim_device_dequeue_notification d of
             None \<Rightarrow> (d, r)
           | Some (n, d') \<Rightarrow> (d', r\<lparr>notification := Some n\<rparr>))"

subsection \<open>Sessions\<close>

definition set_session :: "uci_sim_device \<Rightarrow> nat \<Rightarrow> uci_sim_session \<Rightarrow> uci_sim_device" where
  "set_session d i s = d\<lparr>sessions := (sessions d)[i := s]\<rparr>"

text \<open>
  \<open>find_session_by_id\<close> of \<open>uci_sim_device.c\<close>, \<open>find_session\<close> of \<open>uci_sim_handlers.c\<close> and the
  loops of \<open>process_ready_event\<close> in \<open>uci_sim_engine.c\<close>: the same search, written three times.
\<close>

definition find_session_by_id :: "uci_sim_device \<Rightarrow> u32 \<Rightarrow> nat option" where
  "find_session_by_id d sid =
     find_index (\<lambda>s. allocated s \<and> session_id s = sid) (sessions d)"

definition uci_sim_device_get_session :: "uci_sim_device \<Rightarrow> u32 \<Rightarrow> nat option" where
  "uci_sim_device_get_session d sid =
     (case find_session_by_id d sid of None \<Rightarrow> None | Some i \<Rightarrow> Some i)"

definition uci_sim_device_progress_data_transfer ::
    "uci_sim_device \<Rightarrow> nat \<Rightarrow> rc \<times> uci_sim_device" where
  "uci_sim_device_progress_data_transfer d i =
     (let s = sessions d ! i in
      if \<not> allocated s \<or> \<not> data_transfer_in_progress s then (RC_FAIL, d)
      else
        let s1 = s\<lparr>data_transfer_tx_count := data_transfer_tx_count s + 1\<rparr>
        in if data_transfer_repetitions_remaining s1 > 0 then
             let s2 = s1\<lparr>data_transfer_repetitions_remaining :=
                           data_transfer_repetitions_remaining s1 - 1\<rparr>
             in uci_sim_device_queue_data_transfer_status_notification (set_session d i s2)
                  (session_id s2) (data_transfer_sequence s2)
                  UCI_DATA_TRANSFER_STATUS_REPETITION_OK (data_transfer_tx_count s2)
           else
             let s2 = s1\<lparr>data_transfer_in_progress := False\<rparr>;
                 (c, d1) = uci_sim_device_queue_data_credit_notification (set_session d i s2)
                             (session_id s2) 1
             in if c \<noteq> RC_OK then (RC_FAIL, d1)
                else uci_sim_device_queue_data_transfer_status_notification d1
                       (session_id s2) (data_transfer_sequence s2)
                       UCI_DATA_TRANSFER_STATUS_OK (data_transfer_tx_count s2))"

subsection \<open>The device configuration\<close>

text \<open>The id \<open>DEVICE_STATE\<close> is read from the device's state and cannot be written.\<close>

definition uci_sim_device_store_config ::
    "uci_sim_device \<Rightarrow> u8 \<Rightarrow> bytes \<Rightarrow> uci_sim_device option" where
  "uci_sim_device_store_config d k v =
     (if k = UCI_DEVICE_CONFIG_DEVICE_STATE then None
      else map_option (\<lambda>es. d\<lparr>device_configs := es\<rparr>) (store_entry (device_configs d) k v))"

definition uci_sim_device_get_config :: "uci_sim_device \<Rightarrow> u8 \<Rightarrow> bytes option" where
  "uci_sim_device_get_config d k =
     (if k = UCI_DEVICE_CONFIG_DEVICE_STATE then Some [device_state d]
      else lookup_entry (device_configs d) k)"


subsection \<open>What a device keeps true\<close>

definition notification_ok :: "uci_sim_packet \<Rightarrow> bool" where
  "notification_ok n \<longleftrightarrow> mt n = UCI_MT_NOTIFICATION \<and> packet_ok n"

definition device_configs_ok :: "uci_sim_device_config list \<Rightarrow> bool" where
  "device_configs_ok es \<longleftrightarrow> entries_ok es \<and> length es = UCI_SIM_MAX_DEVICE_CONFIGS
     \<and> lookup_entry es UCI_DEVICE_CONFIG_DEVICE_STATE \<noteq> None"

definition sessions_ok :: "uci_sim_session list \<Rightarrow> bool" where
  "sessions_ok ss \<longleftrightarrow> length ss = UCI_SIM_MAX_SESSIONS \<and> (\<forall>s\<in>set ss. session_ok s)
     \<and> distinct (map session_id (filter allocated ss))"

definition events_ok :: "uci_sim_scheduled_event list \<Rightarrow> bool" where
  "events_ok es \<longleftrightarrow> length es \<le> UCI_SIM_MAX_SCENARIO_EVENTS
     \<and> (\<forall>e\<in>set es. ev_type e \<noteq> UCI_SIM_EVENT_NONE)"

definition pending_ok :: "uci_sim_packet list \<Rightarrow> bool" where
  "pending_ok ns \<longleftrightarrow> length ns \<le> UCI_SIM_MAX_PENDING_NOTIFICATIONS \<and> (\<forall>n\<in>set ns. notification_ok n)"

definition device_inv :: "uci_sim_device \<Rightarrow> bool" where
  "device_inv d \<longleftrightarrow> sessions_ok (sessions d) \<and> device_configs_ok (device_configs d)
     \<and> events_ok (scheduled_events d) \<and> pending_ok (pending_notifications d)
     \<and> (\<forall>p. dev_profile d = Some p \<longrightarrow> profile_ok p)"

definition result_ok :: "uci_sim_result \<Rightarrow> bool" where
  "result_ok r \<longleftrightarrow> (\<forall>n. notification r = Some n \<longrightarrow> notification_ok n)"

lemma device_invI [wf_intros]:
  "sessions_ok (sessions d) \<Longrightarrow> device_configs_ok (device_configs d) \<Longrightarrow> events_ok (scheduled_events d)
   \<Longrightarrow> pending_ok (pending_notifications d) \<Longrightarrow> (\<And>p. dev_profile d = Some p \<Longrightarrow> profile_ok p)
   \<Longrightarrow> device_inv d"
  by (simp add: device_inv_def)

lemma device_invD:
  assumes "device_inv d"
  shows "sessions_ok (sessions d)" and "device_configs_ok (device_configs d)"
    and "events_ok (scheduled_events d)" and "pending_ok (pending_notifications d)"
    and "dev_profile d = Some p \<Longrightarrow> profile_ok p" and "length (sessions d) = UCI_SIM_MAX_SESSIONS"
    and "i < UCI_SIM_MAX_SESSIONS \<Longrightarrow> session_ok (sessions d ! i)"
  using assms by (auto simp: device_inv_def sessions_ok_def)

lemma effective_profile_ok: "device_inv d \<Longrightarrow> profile_ok (effective_profile d)"
  by (auto simp: effective_profile_def default_profile_ok dest: device_invD split: option.splits)

lemma effective_profile_Some [simp]: "dev_profile d = Some p \<Longrightarrow> effective_profile d = p"
  by (simp add: effective_profile_def)

subsection \<open>The queue of pending notifications\<close>

interpretation pending: bounded_fifo uci_sim_device_queue_notification
  uci_sim_device_dequeue_notification pending_notifications UCI_SIM_MAX_PENDING_NOTIFICATIONS
  by unfold_locales
    (auto simp: uci_sim_device_queue_notification_def uci_sim_device_dequeue_notification_def)

lemma queue_notification_snd:
  "snd (uci_sim_device_queue_notification d n) =
     d\<lparr>pending_notifications :=
        (if length (pending_notifications d) < UCI_SIM_MAX_PENDING_NOTIFICATIONS
         then pending_notifications d @ [n] else pending_notifications d)\<rparr>"
  by (simp add: uci_sim_device_queue_notification_def)

lemma queue_notification_inv [wf_intros]:
  "device_inv d \<Longrightarrow> notification_ok n \<Longrightarrow> device_inv (snd (uci_sim_device_queue_notification d n))"
  by (auto simp: queue_notification_snd device_inv_def pending_ok_def)

lemma dequeue_notification_inv:
  assumes "uci_sim_device_dequeue_notification d = Some (n, d')" and "device_inv d"
  shows "device_inv d' \<and> notification_ok n \<and> d' = d\<lparr>pending_notifications := pending_notifications d'\<rparr>"
  using assms
  by (auto simp: uci_sim_device_dequeue_notification_def device_inv_def pending_ok_def split: list.splits)

lemma notification_ok_intro:
  "mt n = UCI_MT_NOTIFICATION \<Longrightarrow> pbf n = UCI_PBF_COMPLETE \<Longrightarrow> gid n < 16 \<Longrightarrow> oid n < 64
   \<Longrightarrow> length (payload n) \<le> 255 \<Longrightarrow> notification_ok n"
  by (simp add: notification_ok_def packet_ok_def payload_len_def)

lemma queue_data_credit_inv [wf_intros]:
  "device_inv d \<Longrightarrow> device_inv (snd (uci_sim_device_queue_data_credit_notification d sid a))"
  unfolding uci_sim_device_queue_data_credit_notification_def
  by (intro queue_notification_inv notification_ok_intro) (simp_all add: length_write_le)

lemma queue_data_transfer_status_inv [wf_intros]:
  "device_inv d \<Longrightarrow>
   device_inv (snd (uci_sim_device_queue_data_transfer_status_notification d sid q st c))"
  unfolding uci_sim_device_queue_data_transfer_status_notification_def
  by (intro queue_notification_inv notification_ok_intro) (simp_all add: length_write_le)

lemma queue_session_status_inv [wf_intros]:
  "device_inv d \<Longrightarrow> device_inv (snd (uci_sim_device_queue_session_status_notification d sid st r))"
  unfolding uci_sim_device_queue_session_status_notification_def
  by (intro queue_notification_inv notification_ok_intro) (simp_all add: length_write_le)

lemma deliver_notification_inv:
  assumes "uci_sim_device_deliver_notification d n r = (c, d', r')"
    and "device_inv d" and "result_ok r" and "notification_ok n"
  shows "device_inv d' \<and> result_ok r' \<and> response r' = response r \<and> sessions d' = sessions d
    \<and> dev_profile d' = dev_profile d \<and> dev_scenario d' = dev_scenario d"
  using assms queue_notification_inv [of d n] queue_notification_snd [of d n]
  by (auto simp: uci_sim_device_deliver_notification_def result_ok_def split: if_splits prod.splits)

lemma finalize_result_inv:
  assumes "uci_sim_device_finalize_result d r k = (d', r')" and "device_inv d" and "result_ok r"
  shows "device_inv d' \<and> result_ok r' \<and> response r' = response r"
  using assms dequeue_notification_inv [of d]
  by (auto simp: uci_sim_device_finalize_result_def result_ok_def split: if_splits option.splits)


subsection \<open>Sessions\<close>

lemma set_session_simps [simp]:
  "sessions (set_session d i s) = (sessions d)[i := s]"
  "scheduled_events (set_session d i s) = scheduled_events d"
  "pending_notifications (set_session d i s) = pending_notifications d"
  "dev_profile (set_session d i s) = dev_profile d"
  "dev_scenario (set_session d i s) = dev_scenario d"
  "device_configs (set_session d i s) = device_configs d"
  "effective_profile (set_session d i s) = effective_profile d"
  by (simp_all add: set_session_def effective_profile_def)

text \<open>
  Replacing a session keeps the device well formed when the new session is well formed and its
  id is not the id of another allocated session.
\<close>

lemma sessions_ok_update:
  assumes ok: "sessions_ok ss" and s: "session_ok s"
    and fresh: "allocated s \<Longrightarrow> \<forall>j<length ss. j \<noteq> i \<longrightarrow> allocated (ss ! j) \<longrightarrow> session_id (ss ! j) \<noteq> session_id s"
  shows "sessions_ok (ss[i := s])"
proof -
  have old: "j = k" if "j < length ss" "k < length ss" "allocated (ss ! j)" "allocated (ss ! k)"
      "session_id (ss ! j) = session_id (ss ! k)" for j k
    using ok that unfolding sessions_ok_def distinct_map_filter_iff by blast
  have "distinct (map session_id (filter allocated (ss[i := s])))"
    unfolding distinct_map_filter_iff
  proof (intro allI impI)
    fix j k
    assume jk: "j < length (ss[i := s])" "k < length (ss[i := s])"
      "allocated (ss[i := s] ! j)" "allocated (ss[i := s] ! k)"
      "session_id (ss[i := s] ! j) = session_id (ss[i := s] ! k)"
    show "j = k"
    proof (cases "j = i \<or> k = i")
      case True
      with jk fresh show ?thesis by (cases "j = i"; cases "k = i") auto
    next
      case False
      with jk old [of j k] show ?thesis by simp
    qed
  qed
  then show ?thesis
    using ok s by (auto simp: sessions_ok_def dest!: set_list_updateD)
qed

lemma find_session_SomeD:
  assumes "find_session_by_id d sid = Some i" and "device_inv d"
  shows "i < UCI_SIM_MAX_SESSIONS" and "allocated (sessions d ! i)" and "session_id (sessions d ! i) = sid"
    and "session_ok (sessions d ! i)" and "i < length (sessions d)"
proof -
  have i: "i < length (sessions d)" "allocated (sessions d ! i)" "session_id (sessions d ! i) = sid"
    using find_index_SomeD [OF assms(1) [unfolded find_session_by_id_def]] by auto
  with device_invD(6,7) [OF assms(2)]
  show "i < UCI_SIM_MAX_SESSIONS" "allocated (sessions d ! i)" "session_id (sessions d ! i) = sid"
    "session_ok (sessions d ! i)" "i < length (sessions d)" by simp_all
qed

lemma session_ids_distinct:
  assumes "device_inv d" and "i < length (sessions d)" and "j < length (sessions d)"
    and "allocated (sessions d ! i)" and "allocated (sessions d ! j)"
    and "session_id (sessions d ! i) = session_id (sessions d ! j)"
  shows "i = j"
  using device_invD(1) [OF assms(1)] assms(2-6)
  unfolding sessions_ok_def distinct_map_filter_iff by blast

text \<open>The lookup is determined by the id: it finds the one allocated session that has it.\<close>

lemma find_session_eq_Some:
  assumes "device_inv d"
  shows "find_session_by_id d sid = Some i \<longleftrightarrow>
    i < length (sessions d) \<and> allocated (sessions d ! i) \<and> session_id (sessions d ! i) = sid"
proof
  assume "find_session_by_id d sid = Some i"
  then show "i < length (sessions d) \<and> allocated (sessions d ! i) \<and> session_id (sessions d ! i) = sid"
    using find_session_SomeD [OF _ assms] by blast
next
  assume i: "i < length (sessions d) \<and> allocated (sessions d ! i) \<and> session_id (sessions d ! i) = sid"
  have "j = i" if "j < length (sessions d)" "allocated (sessions d ! j) \<and> session_id (sessions d ! j) = sid" for j
    using session_ids_distinct [OF assms that(1), of i] that(2) i by simp
  with i show "find_session_by_id d sid = Some i"
    unfolding find_session_by_id_def by (intro find_index_unique) auto
qed

lemma find_session_None_iff:
  "find_session_by_id d sid = None \<longleftrightarrow>
     (\<forall>i<length (sessions d). allocated (sessions d ! i) \<longrightarrow> session_id (sessions d ! i) \<noteq> sid)"
  unfolding find_session_by_id_def find_index_None_iff all_set_conv_all_nth by blast

lemma not_allocated_zero [simp]: "allocated zero_session = False"
  by (simp add: zero_session_def)

lemma set_session_inv:
  assumes "device_inv d" and "i < length (sessions d)" and "allocated (sessions d ! i)"
    and "session_ok s" and "session_id s = session_id (sessions d ! i)"
  shows "device_inv (set_session d i s)"
proof -
  have "session_id (sessions d ! j) \<noteq> session_id s"
    if "j < length (sessions d)" "j \<noteq> i" "allocated (sessions d ! j)" for j
    using session_ids_distinct [OF assms(1,2) that(1) assms(3) that(3)] that(2) assms(5) by auto
  then have "sessions_ok ((sessions d)[i := s])"
    using assms by (intro sessions_ok_update device_invD(1)) auto
  with assms(1) show ?thesis by (simp add: device_inv_def)
qed

lemma free_session_inv:
  assumes "device_inv d"
  shows "device_inv (set_session d i zero_session)"
proof -
  have "sessions_ok ((sessions d)[i := zero_session])"
    using assms by (intro sessions_ok_update device_invD(1)) simp_all
  with assms show ?thesis by (simp add: device_inv_def)
qed

subsection \<open>Start-up, reset and configuration\<close>

lemma default_device_configs_ok:
  "profile_ok p \<Longrightarrow> device_configs_ok (default_device_configs p)"
  by (simp add: device_configs_ok_def default_device_configs_def entries_ok_def config_match_def)

lemma sessions_ok_zero [simp]: "sessions_ok (replicate UCI_SIM_MAX_SESSIONS zero_session)"
  by (simp add: sessions_ok_def)

lemma init_device_inv:
  "(\<And>p. profile = Some p \<Longrightarrow> profile_ok p) \<Longrightarrow>
   device_inv (uci_sim_device_init_with_profile profile scenario)"
  by (cases profile)
    (simp_all add: uci_sim_device_init_with_profile_def apply_profile_defaults_def zero_device_def
      device_inv_def events_ok_def pending_ok_def default_profile_ok default_device_configs_ok)

text \<open>A reset gives exactly the state after start-up with the device's profile and scenario.\<close>

lemma reset_is_init:
  "uci_sim_device_reset_runtime_state d =
     uci_sim_device_init_with_profile (dev_profile d) (dev_scenario d)"
  by (simp add: uci_sim_device_reset_runtime_state_def uci_sim_device_init_with_profile_def
      apply_profile_defaults_def zero_device_def effective_profile_def Let_def)

lemma reset_inv: "device_inv d \<Longrightarrow> device_inv (uci_sim_device_reset_runtime_state d)"
  unfolding reset_is_init by (rule init_device_inv) (rule device_invD(5))

interpretation device_table: config_table
  uci_sim_device_store_config uci_sim_device_get_config "\<lambda>d. device_configs_ok (device_configs d)"
  "\<lambda>k. k \<noteq> UCI_DEVICE_CONFIG_DEVICE_STATE" UCI_SIM_MAX_DEVICE_CONFIGS
proof unfold_locales
  fix d :: uci_sim_device and k v
  assume ok: "device_configs_ok (device_configs d)"
  then have e: "entries_ok (device_configs d) \<and> length (device_configs d) = UCI_SIM_MAX_DEVICE_CONFIGS"
    by (simp add: device_configs_ok_def)
  have dom: "dom (uci_sim_device_get_config d) = dom (lookup_entry (device_configs d))"
    using ok by (auto simp: device_configs_ok_def uci_sim_device_get_config_def dom_def)
  show "(uci_sim_device_store_config d k v \<noteq> None) \<longleftrightarrow>
      k \<noteq> UCI_DEVICE_CONFIG_DEVICE_STATE \<and> length v \<le> UCI_SIM_MAX_CONFIG_VALUE
      \<and> (uci_sim_device_get_config d k \<noteq> None
         \<or> card (dom (uci_sim_device_get_config d)) < UCI_SIM_MAX_DEVICE_CONFIGS)"
    using entry_table.store_defined [OF e, of k v] unfolding dom
    by (auto simp: uci_sim_device_store_config_def uci_sim_device_get_config_def)
  show "finite (dom (uci_sim_device_get_config d))"
    unfolding dom by (rule entry_table.lookup_finite [OF e])
  fix d'
  assume "uci_sim_device_store_config d k v = Some d'"
  then obtain es where es: "store_entry (device_configs d) k v = Some es" "d' = d\<lparr>device_configs := es\<rparr>"
      and k: "k \<noteq> UCI_DEVICE_CONFIG_DEVICE_STATE"
    by (auto simp: uci_sim_device_store_config_def split: if_splits)
  note lookup = entry_table.store_lookup [OF e es(1)]
  show "device_configs_ok (device_configs d')"
    using entry_table.store_ok [OF e es(1)] es(2) lookup ok k by (simp add: device_configs_ok_def)
  show "uci_sim_device_get_config d' = (uci_sim_device_get_config d)(k \<mapsto> v)"
    using lookup es(2) k by (simp add: fun_eq_iff uci_sim_device_get_config_def)
qed

lemma device_store_config_inv [wf_intros]:
  assumes "uci_sim_device_store_config d k v = Some d'" and "device_inv d"
  shows "device_inv d'"
  using device_table.store_ok [OF device_invD(2) [OF assms(2)] assms(1)] assms
  by (auto simp: uci_sim_device_store_config_def device_inv_def split: if_splits)


subsection \<open>The scheduled events\<close>

lemma schedule_event_snd:
  "snd (uci_sim_device_schedule_event d ty sid t) = d\<lparr>scheduled_events :=
     (if ty \<noteq> UCI_SIM_EVENT_NONE \<and> length (scheduled_events d) < UCI_SIM_MAX_SCENARIO_EVENTS
      then scheduled_events d @ [\<lparr>ev_type = ty, ev_session_id = sid, ev_delay_ms = t\<rparr>]
      else scheduled_events d)\<rparr>"
  by (simp add: uci_sim_device_schedule_event_def)

lemma schedule_event_ok_iff:
  "fst (uci_sim_device_schedule_event d ty sid t) = RC_OK \<longleftrightarrow>
     ty \<noteq> UCI_SIM_EVENT_NONE \<and> length (scheduled_events d) < UCI_SIM_MAX_SCENARIO_EVENTS"
  by (simp add: uci_sim_device_schedule_event_def)

lemma schedule_event_inv [wf_intros]:
  "device_inv d \<Longrightarrow> device_inv (snd (uci_sim_device_schedule_event d ty sid t))"
  by (auto simp: schedule_event_snd device_inv_def events_ok_def)

lemma events_ok_filter: "events_ok es \<Longrightarrow> events_ok (filter P es)"
  by (auto simp: events_ok_def intro: order_trans [OF length_filter_le])

lemma reschedule_event_frame:
  "\<exists>es. snd (uci_sim_device_reschedule_session_event d ty sid t) = d\<lparr>scheduled_events := es\<rparr>"
  by (cases "ty = UCI_SIM_EVENT_NONE")
    (auto simp: uci_sim_device_reschedule_session_event_def schedule_event_snd Let_def
      intro: exI [of _ "scheduled_events d"])

lemma reschedule_event_inv [wf_intros]:
  assumes "device_inv d"
  shows "device_inv (snd (uci_sim_device_reschedule_session_event d ty sid t))"
proof (cases "ty = UCI_SIM_EVENT_NONE")
  case True
  with assms show ?thesis by (simp add: uci_sim_device_reschedule_session_event_def)
next
  case False
  let ?d = "d\<lparr>scheduled_events :=
      filter (\<lambda>e. \<not> (ev_type e = ty \<and> ev_session_id e = sid)) (scheduled_events d)\<rparr>"
  have "device_inv ?d"
    using assms by (simp add: device_inv_def events_ok_filter del: filter_filter)
  then have "device_inv (snd (uci_sim_device_schedule_event ?d ty sid t))"
    by (rule schedule_event_inv)
  with False show ?thesis by (simp add: uci_sim_device_reschedule_session_event_def Let_def)
qed

text \<open>
  Rescheduling an event the session has succeeds even in a full table, and leaves exactly one
  event of that type for the session, with the new delay; the other events keep their order.
\<close>

lemma reschedule_event_spec:
  fixes sid ty
  defines "mine \<equiv> \<lambda>e. ev_type e = ty \<and> ev_session_id e = sid"
  assumes ty: "ty \<noteq> UCI_SIM_EVENT_NONE" and ok: "events_ok (scheduled_events d)"
    and e: "e \<in> set (scheduled_events d)" "mine e"
    and r: "uci_sim_device_reschedule_session_event d ty sid t = (c, d')"
  shows "c = RC_OK \<and> filter mine (scheduled_events d') = [\<lparr>ev_type = ty, ev_session_id = sid, ev_delay_ms = t\<rparr>]
    \<and> filter (\<lambda>e. \<not> mine e) (scheduled_events d') = filter (\<lambda>e. \<not> mine e) (scheduled_events d)"
proof -
  let ?d = "d\<lparr>scheduled_events := filter (\<lambda>e. \<not> mine e) (scheduled_events d)\<rparr>"
  have "length (filter (\<lambda>e. \<not> mine e) (scheduled_events d)) < length (scheduled_events d)"
    using e by (intro length_filter_less) auto
  then have room: "length (scheduled_events ?d) < UCI_SIM_MAX_SCENARIO_EVENTS"
    using ok by (simp add: events_ok_def)
  have "uci_sim_device_schedule_event ?d ty sid t = (c, d')"
    using r ty by (simp add: uci_sim_device_reschedule_session_event_def mine_def Let_def)
  with room ty have "c = RC_OK" and ev: "scheduled_events d' =
      filter (\<lambda>e. \<not> mine e) (scheduled_events d) @ [\<lparr>ev_type = ty, ev_session_id = sid, ev_delay_ms = t\<rparr>]"
    by (auto simp: uci_sim_device_schedule_event_def)
  have "mine \<lparr>ev_type = ty, ev_session_id = sid, ev_delay_ms = t\<rparr>" by (simp add: mine_def)
  with \<open>c = RC_OK\<close> ev show ?thesis by (simp add: filter_empty_conv)
qed

lemma cancel_events_inv [wf_intros]:
  "device_inv d \<Longrightarrow> device_inv (uci_sim_device_cancel_session_events d sid)"
  by (simp add: uci_sim_device_cancel_session_events_def device_inv_def events_ok_filter)

lemma tick_event_delay: "unat (ev_delay_ms (tick_event t e)) = unat (ev_delay_ms e) - unat t"
  by (simp add: tick_event_def word_less_nat_alt unat_sub word_le_nat_alt)

lemma tick_event_keeps [simp]:
  "ev_type (tick_event t e) = ev_type e" "ev_session_id (tick_event t e) = ev_session_id e"
  by (simp_all add: tick_event_def)

lemma tick_event_ready_iff: "ev_delay_ms (tick_event t e) = 0 \<longleftrightarrow> ev_delay_ms e \<le> t"
proof -
  have "ev_delay_ms (tick_event t e) = 0 \<longleftrightarrow> unat (ev_delay_ms (tick_event t e)) = 0"
    by (simp add: unat_eq_0)
  then show ?thesis unfolding tick_event_delay by (simp add: word_le_nat_alt)
qed

lemma tick_events_inv [wf_intros]: "device_inv d \<Longrightarrow> device_inv (uci_sim_device_tick_events d t)"
  by (auto simp: uci_sim_device_tick_events_def device_inv_def events_ok_def)

lemma dequeue_ready_event_None_iff:
  "uci_sim_device_dequeue_ready_event d = None \<longleftrightarrow> (\<forall>e\<in>set (scheduled_events d). ev_delay_ms e \<noteq> 0)"
  by (auto simp: uci_sim_device_dequeue_ready_event_def find_index_None_iff [symmetric] split: option.splits)

lemma dequeue_ready_event_SomeD:
  assumes "uci_sim_device_dequeue_ready_event d = Some (e, d')"
  obtains pre post where "scheduled_events d = pre @ e # post" "ev_delay_ms e = 0"
    "\<forall>x\<in>set pre. ev_delay_ms x \<noteq> 0" "d' = d\<lparr>scheduled_events := pre @ post\<rparr>"
proof -
  from assms obtain i where i: "find_index (\<lambda>e. ev_delay_ms e = 0) (scheduled_events d) = Some i"
      and e: "e = scheduled_events d ! i"
      and d': "d' = d\<lparr>scheduled_events := take i (scheduled_events d) @ drop (Suc i) (scheduled_events d)\<rparr>"
    by (auto simp: uci_sim_device_dequeue_ready_event_def split: option.splits)
  from i obtain pre x post where split: "scheduled_events d = pre @ x # post" "length pre = i"
      "ev_delay_ms x = 0" "\<forall>y\<in>set pre. ev_delay_ms y \<noteq> 0"
    by (rule find_index_split)
  with e d' have "e = x" "d' = d\<lparr>scheduled_events := pre @ post\<rparr>"
    by (auto simp: nth_append)
  with split that show ?thesis by blast
qed

lemma dequeue_ready_event_inv:
  assumes "uci_sim_device_dequeue_ready_event d = Some (e, d')" and "device_inv d"
  shows "device_inv d' \<and> ev_type e \<noteq> UCI_SIM_EVENT_NONE"
proof -
  from assms(1) obtain pre post where split: "scheduled_events d = pre @ e # post"
      "d' = d\<lparr>scheduled_events := pre @ post\<rparr>" by (rule dequeue_ready_event_SomeD)
  with assms(2) show ?thesis by (simp add: device_inv_def events_ok_def)
qed

subsection \<open>Progress of a data transfer\<close>

lemma session_ok_transfer [simp]:
  "session_ok (s\<lparr>data_transfer_tx_count := a\<rparr>) \<longleftrightarrow> session_ok s" if "allocated s"
  using that by (simp add: session_ok_def)

lemma session_ok_transfer_flags [wf_simps]:
  assumes "allocated s"
  shows "session_ok (s\<lparr>data_transfer_in_progress := b\<rparr>) \<longleftrightarrow> session_ok s"
    and "session_ok (s\<lparr>data_transfer_repetitions_remaining := c\<rparr>) \<longleftrightarrow> session_ok s"
  using assms by (simp_all add: session_ok_def)

lemma progress_data_transfer_inv:
  assumes inv: "device_inv d" and i: "i < length (sessions d)"
  shows "device_inv (snd (uci_sim_device_progress_data_transfer d i))"
proof (cases "allocated (sessions d ! i) \<and> data_transfer_in_progress (sessions d ! i)")
  case False
  with inv show ?thesis by (auto simp: uci_sim_device_progress_data_transfer_def Let_def)
next
  case True
  let ?s = "sessions d ! i"
  have s: "session_ok ?s" "allocated ?s" using inv i device_invD(6,7) [OF inv] True by auto
  have set: "device_inv (set_session d i s')"
    if "session_ok s'" "session_id s' = session_id ?s" for s'
    using set_session_inv [OF inv i s(2) that] .
  show ?thesis
    using True s
    by (auto simp: uci_sim_device_progress_data_transfer_def Let_def split_def wf_simps
        intro!: queue_data_transfer_status_inv queue_data_credit_inv set)
qed

subsection \<open>Properties\<close>

lemma start_up_inv: "device_inv uci_sim_device_init"
  unfolding uci_sim_device_init_def uci_sim_device_init_with_scenario_def
  by (rule init_device_inv) (simp add: default_profile_ok)

text \<open>
  C38. After time has passed, the event taken is the first scheduled one whose delay has run out;
  none is taken when every delay is longer. The others stay, in order, with the elapsed time
  off their delays.
\<close>

theorem ready_event_first:
  "case uci_sim_device_dequeue_ready_event (uci_sim_device_tick_events d t) of
      None \<Rightarrow> list_all (\<lambda>e. t < ev_delay_ms e) (scheduled_events d)
    | Some (e', d') \<Rightarrow> \<exists>pre e post. scheduled_events d = pre @ e # post
        \<and> ev_delay_ms e \<le> t \<and> list_all (\<lambda>x. t < ev_delay_ms x) pre \<and> e' = e\<lparr>ev_delay_ms := 0\<rparr>
        \<and> d' = d\<lparr>scheduled_events := map (tick_event t) (pre @ post)\<rparr>"
proof (cases "uci_sim_device_dequeue_ready_event (uci_sim_device_tick_events d t)")
  case None
  then have "list_all (\<lambda>e. t < ev_delay_ms e) (scheduled_events d)"
    by (simp add: dequeue_ready_event_None_iff uci_sim_device_tick_events_def tick_event_ready_iff list_all_iff not_le)
  with None show ?thesis by simp
next
  case (Some r)
  obtain e' d' where r: "r = (e', d')" by (cases r)
  from dequeue_ready_event_SomeD [OF Some [unfolded r]] obtain pre' post' where
    split: "map (tick_event t) (scheduled_events d) = pre' @ e' # post'" "ev_delay_ms e' = 0"
      "\<forall>x\<in>set pre'. ev_delay_ms x \<noteq> 0" "d' = d\<lparr>scheduled_events := pre' @ post'\<rparr>"
    by (auto simp: uci_sim_device_tick_events_def)
  from split(1) obtain pre e post where pe: "scheduled_events d = pre @ e # post" "pre' = map (tick_event t) pre"
      "e' = tick_event t e" "post' = map (tick_event t) post"
    by (auto simp: map_eq_append_conv map_eq_Cons_conv)
  have le: "ev_delay_ms e \<le> t" using split(2) pe(3) by (simp add: tick_event_ready_iff)
  have "list_all (\<lambda>x. t < ev_delay_ms x) pre"
    using split(3) by (simp add: pe(2) tick_event_ready_iff list_all_iff not_le)
  moreover have "e' = e\<lparr>ev_delay_ms := 0\<rparr>" using le pe(3) by (simp add: tick_event_def)
  ultimately show ?thesis using Some r le pe split(4) by auto
qed

text \<open>
  C39. Rescheduling the event of a session replaces it: exactly one such event is left, with the
  new delay, the others are untouched and there is always room.
\<close>

theorem reschedule_replaces:
  assumes "events_ok (scheduled_events d)" and "ty \<noteq> UCI_SIM_EVENT_NONE"
    and "e \<in> set (scheduled_events d)" and "ev_type e = ty \<and> ev_session_id e = sid"
  shows "case uci_sim_device_reschedule_session_event d ty sid t of (c, d') \<Rightarrow>
    c = RC_OK
    \<and> filter (\<lambda>e. ev_type e = ty \<and> ev_session_id e = sid) (scheduled_events d')
        = [\<lparr>ev_type = ty, ev_session_id = sid, ev_delay_ms = t\<rparr>]
    \<and> filter (\<lambda>e. \<not> (ev_type e = ty \<and> ev_session_id e = sid)) (scheduled_events d')
        = filter (\<lambda>e. \<not> (ev_type e = ty \<and> ev_session_id e = sid)) (scheduled_events d)"
proof -
  obtain c d' where r: "uci_sim_device_reschedule_session_event d ty sid t = (c, d')"
    by (cases "uci_sim_device_reschedule_session_event d ty sid t")
  from reschedule_event_spec [OF assms(2,1,3,4) r] show ?thesis unfolding r prod.case .
qed

lemma reschedule_replaces_witness:
  "case uci_sim_device_reschedule_session_event
      (uci_sim_device_init\<lparr>scheduled_events := [\<lparr>ev_type = UCI_SIM_EVENT_RANGE_DATA, ev_session_id = 1, ev_delay_ms = 900\<rparr>,
          \<lparr>ev_type = UCI_SIM_EVENT_DATA_TRANSFER, ev_session_id = 1, ev_delay_ms = 5\<rparr>]\<rparr>)
      UCI_SIM_EVENT_RANGE_DATA 1 50 of (c, d') \<Rightarrow>
    filter (\<lambda>e. ev_type e = UCI_SIM_EVENT_RANGE_DATA \<and> ev_session_id e = 1) (scheduled_events d')
      = [\<lparr>ev_type = UCI_SIM_EVENT_RANGE_DATA, ev_session_id = 1, ev_delay_ms = 50\<rparr>]"
  using reschedule_replaces [of "uci_sim_device_init\<lparr>scheduled_events :=
      [\<lparr>ev_type = UCI_SIM_EVENT_RANGE_DATA, ev_session_id = 1, ev_delay_ms = 900\<rparr>,
       \<lparr>ev_type = UCI_SIM_EVENT_DATA_TRANSFER, ev_session_id = 1, ev_delay_ms = 5\<rparr>]\<rparr>"
      UCI_SIM_EVENT_RANGE_DATA "\<lparr>ev_type = UCI_SIM_EVENT_RANGE_DATA, ev_session_id = 1, ev_delay_ms = 900\<rparr>" 1 50]
  by (simp add: events_ok_def split_def)

text \<open>
  The device's own parameters: DEVICE_STATE is read-only, a value of at most 64 bytes for a
  known id always replaces it, a new id is taken while fewer than eight are stored, and a store
  that succeeds changes that parameter only.
\<close>

lemma device_config_store:
  assumes "device_configs_ok (device_configs d)"
  shows "case uci_sim_device_store_config d k v of
      Some d' \<Rightarrow> k \<noteq> UCI_DEVICE_CONFIG_DEVICE_STATE
        \<and> uci_sim_device_get_config d' = (uci_sim_device_get_config d)(k \<mapsto> v)
    | None \<Rightarrow> k = UCI_DEVICE_CONFIG_DEVICE_STATE \<or> length v > UCI_SIM_MAX_CONFIG_VALUE
        \<or> uci_sim_device_get_config d k = None
          \<and> card (dom (uci_sim_device_get_config d)) \<ge> UCI_SIM_MAX_DEVICE_CONFIGS"
proof (cases "uci_sim_device_store_config d k v")
  case None
  with device_table.store_defined [OF assms, of k v] show ?thesis by (auto simp: not_le not_less)
next
  case (Some d')
  have "uci_sim_device_store_config d k v \<noteq> None" using Some by simp
  with device_table.store_defined [OF assms, of k v] have "k \<noteq> UCI_DEVICE_CONFIG_DEVICE_STATE" by blast
  with Some device_table.store_lookup [OF assms Some] show ?thesis by simp
qed

end
