(* ===== verification/Measurement.thy ===== *)
theory Measurement
  imports Device
begin

text \<open>
  \<open>include/uci_sim_measurement.h\<close> and \<open>src/core/uci_sim_measurement.c\<close>: the simulated
  sample, the policy that decides whether it is reported and with which fields, and the
  RANGE_DATA notification built from the profile's template. The lemmas give the reported
  fields as the combination of three session parameters, and read the fields back from the
  notification's bytes.
\<close>

record uci_sim_measurement =
  ms_session_id :: u32
  ms_sequence_number :: u32
  ms_ranging_interval_ms :: u32
  ms_distance_cm :: u16
  ms_measurement_type :: u8
  ms_nlos :: u8
  ms_local_aoa_azimuth_q97 :: u16
  ms_local_aoa_elevation_q97 :: u16
  ms_remote_aoa_azimuth_q97 :: u16
  ms_remote_aoa_elevation_q97 :: u16
  ms_local_aoa_azimuth_fom :: u8
  ms_local_aoa_elevation_fom :: u8
  ms_remote_aoa_azimuth_fom :: u8
  ms_remote_aoa_elevation_fom :: u8
  ms_slot_index :: u8
  ms_rssi :: u8

record uci_sim_measurement_policy_result =
  should_emit_notification :: bool
  has_proximity_state :: bool
  in_proximity_range :: bool
  emitted_field_mask :: u8

abbreviation UCI_SIM_MEAS_FIELD_DISTANCE :: u8 where "UCI_SIM_MEAS_FIELD_DISTANCE \<equiv> 0x01"
abbreviation UCI_SIM_MEAS_FIELD_AOA_AZIMUTH :: u8 where "UCI_SIM_MEAS_FIELD_AOA_AZIMUTH \<equiv> 0x02"
abbreviation UCI_SIM_MEAS_FIELD_AOA_ELEVATION :: u8 where "UCI_SIM_MEAS_FIELD_AOA_ELEVATION \<equiv> 0x04"
abbreviation UCI_SIM_MEAS_FIELD_AOA_AZIMUTH_FOM :: u8 where "UCI_SIM_MEAS_FIELD_AOA_AZIMUTH_FOM \<equiv> 0x08"
abbreviation UCI_SIM_MEAS_FIELD_AOA_ELEVATION_FOM :: u8 where "UCI_SIM_MEAS_FIELD_AOA_ELEVATION_FOM \<equiv> 0x10"
abbreviation UCI_SIM_MEAS_FIELD_RSSI :: u8 where "UCI_SIM_MEAS_FIELD_RSSI \<equiv> 0x20"

definition map_measurement_type_from_round_usage :: "u8 \<Rightarrow> u8" where
  "map_measurement_type_from_round_usage ranging_round_usage =
     (if ranging_round_usage = 0x05 then 0x02
      else if ranging_round_usage = 0x06 then 0x03
      else 0x01)"

definition uci_sim_measurement_init_ranging_sample ::
    "uci_sim_profile \<Rightarrow> uci_sim_session \<Rightarrow> uci_sim_measurement" where
  "uci_sim_measurement_init_ranging_sample profile s =
     (let distance_cm = ucast (range_data_distance_base_cm profile)
                        + ranging_count s * ucast (range_data_distance_step_cm profile) :: u32
      in \<lparr>ms_session_id = session_id s, ms_sequence_number = 0,
          ms_ranging_interval_ms = uci_sim_session_get_ranging_interval_ms s (Some profile),
          ms_distance_cm = ucast distance_cm,
          ms_measurement_type =
            map_measurement_type_from_round_usage (uci_sim_session_get_ranging_round_usage s),
          ms_nlos = 0, ms_local_aoa_azimuth_q97 = 0, ms_local_aoa_elevation_q97 = 0,
          ms_remote_aoa_azimuth_q97 = 0, ms_remote_aoa_elevation_q97 = 0,
          ms_local_aoa_azimuth_fom = 0, ms_local_aoa_elevation_fom = 0,
          ms_remote_aoa_azimuth_fom = 0, ms_remote_aoa_elevation_fom = 0,
          ms_slot_index = uci_sim_session_get_responder_slot_index s, ms_rssi = 0\<rparr>)"

text \<open>The fields \<open>RESULT_REPORT_CONFIG\<close> and \<open>RSSI_REPORTING\<close> ask for.\<close>

definition requested_field_mask :: "u8 \<Rightarrow> u8 \<Rightarrow> u8" where
  "requested_field_mask result_report_config rssi_reporting =
     (let m0 = (0 :: u8);
          m1 = (if result_report_config AND 0x01 \<noteq> 0 then m0 OR UCI_SIM_MEAS_FIELD_DISTANCE else m0);
          m2 = (if result_report_config AND 0x02 \<noteq> 0 then m1 OR UCI_SIM_MEAS_FIELD_AOA_AZIMUTH else m1);
          m3 = (if result_report_config AND 0x04 \<noteq> 0 then m2 OR UCI_SIM_MEAS_FIELD_AOA_ELEVATION else m2);
          m4 = (if result_report_config AND 0x08 \<noteq> 0
                then m3 OR (UCI_SIM_MEAS_FIELD_AOA_AZIMUTH_FOM OR UCI_SIM_MEAS_FIELD_AOA_ELEVATION_FOM)
                else m3)
      in if rssi_reporting \<noteq> 0 then m4 OR UCI_SIM_MEAS_FIELD_RSSI else m4)"

text \<open>The switch on \<open>AOA_RESULT_REQ\<close> that removes angle fields.\<close>

definition aoa_kept_mask :: "u8 \<Rightarrow> u8 \<Rightarrow> u8" where
  "aoa_kept_mask aoa_result_req m =
     (if aoa_result_req = 0x00 then
        m AND NOT (UCI_SIM_MEAS_FIELD_AOA_AZIMUTH OR UCI_SIM_MEAS_FIELD_AOA_ELEVATION
                   OR UCI_SIM_MEAS_FIELD_AOA_AZIMUTH_FOM OR UCI_SIM_MEAS_FIELD_AOA_ELEVATION_FOM)
      else if aoa_result_req = 0x01 then
        m AND NOT (UCI_SIM_MEAS_FIELD_AOA_AZIMUTH OR UCI_SIM_MEAS_FIELD_AOA_AZIMUTH_FOM)
      else if aoa_result_req = 0x02 then
        m AND NOT (UCI_SIM_MEAS_FIELD_AOA_ELEVATION OR UCI_SIM_MEAS_FIELD_AOA_ELEVATION_FOM)
      else if aoa_result_req = 0x03 then m
      else
        m AND NOT (UCI_SIM_MEAS_FIELD_AOA_AZIMUTH OR UCI_SIM_MEAS_FIELD_AOA_ELEVATION
                   OR UCI_SIM_MEAS_FIELD_AOA_AZIMUTH_FOM OR UCI_SIM_MEAS_FIELD_AOA_ELEVATION_FOM))"

definition uci_sim_measurement_evaluate_range_notification_policy ::
    "uci_sim_session \<Rightarrow> uci_sim_measurement \<Rightarrow> uci_sim_measurement_policy_result" where
  "uci_sim_measurement_evaluate_range_notification_policy s sample =
     (let ntf_config = uci_sim_session_get_range_data_ntf_config s;
          aoa_result_req = uci_sim_session_get_aoa_result_req s;
          rssi_reporting = uci_sim_session_get_rssi_reporting s;
          result_report_config = uci_sim_session_get_result_report_config s;
          near_cm = uci_sim_session_get_range_data_ntf_proximity_near s;
          far_cm = uci_sim_session_get_range_data_ntf_proximity_far s;
          in_range = (near_cm \<le> far_cm \<and> ms_distance_cm sample \<ge> near_cm \<and> ms_distance_cm sample \<le> far_cm)
      in \<lparr>should_emit_notification =
            (if ntf_config = 0x00 then False
             else if ntf_config = 0x02 then in_range
             else if ntf_config = 0x05 then
               has_last_proximity_state s \<and> last_in_proximity_range s \<noteq> in_range
             else True),
          has_proximity_state = True,
          in_proximity_range = in_range,
          emitted_field_mask =
            aoa_kept_mask aoa_result_req (requested_field_mask result_report_config rssi_reporting)\<rparr>)"

subsection \<open>The notification\<close>

text \<open>
  Writes at an offset of the 1024-byte payload array. A write past \<open>payload_len\<close> stays inside
  the array and is not part of the payload, so it has no effect here.
\<close>

fun put_bytes :: "bytes \<Rightarrow> nat \<Rightarrow> bytes \<Rightarrow> bytes" where
  "put_bytes buf off [] = buf"
| "put_bytes buf off (b # bs) = put_bytes (buf[off := b]) (Suc off) bs"

definition zero_fields_unless :: "u8 \<Rightarrow> u8 \<Rightarrow> nat list \<Rightarrow> bytes \<Rightarrow> bytes" where
  "zero_fields_unless m field offsets buf =
     (if m AND field = 0 then foldl (\<lambda>b i. b[i := 0x00]) buf offsets else buf)"

definition uci_sim_measurement_build_range_data_notification ::
    "uci_sim_profile \<Rightarrow> uci_sim_measurement \<Rightarrow> uci_sim_measurement_policy_result \<Rightarrow> u8
       \<Rightarrow> uci_sim_packet option" where
  "uci_sim_measurement_build_range_data_notification profile sample policy oid' =
     (if range_data_payload_len profile = 0
         \<or> unat (range_data_payload_len profile) > UCI_SIM_MAX_PAYLOAD then None
      else
        let m = emitted_field_mask policy;
            b0 = array_prefix UCI_SIM_MAX_RANGE_DATA_TEMPLATE (unat (range_data_payload_len profile))
                   (range_data_payload_template profile);
            b1 = put_bytes b0 (unat (range_data_sequence_offset profile)) (write_u32_le (ms_sequence_number sample));
            b2 = put_bytes b1 (unat (range_data_primary_session_id_offset profile)) (write_u32_le (ms_session_id sample));
            b3 = put_bytes b2 (unat (range_data_secondary_session_id_offset profile)) (write_u32_le (ms_session_id sample));
            b4 = put_bytes b3 (unat (range_data_interval_offset profile)) (write_u32_le (ms_ranging_interval_ms sample));
            b5 = b4[unat (range_data_measurement_type_offset profile) := ms_measurement_type sample];
            distance_offset = range_data_measurement_distance_offset profile;
            local_azimuth_offset = distance_offset + 2;
            local_azimuth_fom_offset = local_azimuth_offset + 2;
            local_elevation_offset = local_azimuth_fom_offset + 1;
            local_elevation_fom_offset = local_elevation_offset + 2;
            remote_azimuth_offset = local_elevation_fom_offset + 1;
            remote_azimuth_fom_offset = remote_azimuth_offset + 2;
            remote_elevation_offset = remote_azimuth_fom_offset + 1;
            remote_elevation_fom_offset = remote_elevation_offset + 2;
            slot_index_offset = remote_elevation_fom_offset + 1;
            rssi_offset = remote_elevation_fom_offset + 2;
            b6 = (if m AND UCI_SIM_MEAS_FIELD_DISTANCE \<noteq> 0
                  then put_bytes b5 (unat distance_offset) (write_u16_le (ms_distance_cm sample))
                  else put_bytes b5 (unat distance_offset) [0x00, 0x00]);
            b7 = zero_fields_unless m UCI_SIM_MEAS_FIELD_AOA_AZIMUTH
                   [unat local_azimuth_offset, unat local_azimuth_offset + 1,
                    unat remote_azimuth_offset, unat remote_azimuth_offset + 1] b6;
            b8 = zero_fields_unless m UCI_SIM_MEAS_FIELD_AOA_ELEVATION
                   [unat local_elevation_offset, unat local_elevation_offset + 1,
                    unat remote_elevation_offset, unat remote_elevation_offset + 1] b7;
            b9 = zero_fields_unless m UCI_SIM_MEAS_FIELD_AOA_AZIMUTH_FOM
                   [unat local_azimuth_fom_offset, unat remote_azimuth_fom_offset] b8;
            b10 = zero_fields_unless m UCI_SIM_MEAS_FIELD_AOA_ELEVATION_FOM
                   [unat local_elevation_fom_offset, unat remote_elevation_fom_offset] b9;
            b11 = b10[unat slot_index_offset := ms_slot_index sample];
            b12 = zero_fields_unless m UCI_SIM_MEAS_FIELD_RSSI [unat rssi_offset] b11
        in Some \<lparr>mt = UCI_MT_NOTIFICATION, pbf = UCI_PBF_COMPLETE, gid = UCI_GID_SESSION_CONTROL,
                 oid = oid', payload = b12\<rparr>)"

subsection \<open>Which fields are reported\<close>

lemma length_put_bytes [simp]: "length (put_bytes buf off bs) = length buf"
  by (induction buf off bs rule: put_bytes.induct) simp_all

lemma length_zero_fields_unless [simp]: "length (zero_fields_unless m f offs buf) = length buf"
proof -
  have "length (foldl (\<lambda>b i. b[i := 0x00]) buf offs) = length buf" for buf :: bytes
    by (induction offs arbitrary: buf) simp_all
  then show ?thesis by (simp add: zero_fields_unless_def)
qed

lemma requested_field_bits:
  defines "m \<equiv> \<lambda>c r. requested_field_mask c r"
  shows "m c r AND 0x01 \<noteq> 0 \<longleftrightarrow> c AND 0x01 \<noteq> 0" and "m c r AND 0x02 \<noteq> 0 \<longleftrightarrow> c AND 0x02 \<noteq> 0"
    and "m c r AND 0x04 \<noteq> 0 \<longleftrightarrow> c AND 0x04 \<noteq> 0" and "m c r AND 0x08 \<noteq> 0 \<longleftrightarrow> c AND 0x08 \<noteq> 0"
    and "m c r AND 0x10 \<noteq> 0 \<longleftrightarrow> c AND 0x08 \<noteq> 0" and "m c r AND 0x20 \<noteq> 0 \<longleftrightarrow> r \<noteq> 0"
  unfolding m_def requested_field_mask_def Let_def by (simp_all split: if_splits)

lemma aoa_kept_bits:
  shows "aoa_kept_mask a m AND 0x01 = m AND 0x01" and "aoa_kept_mask a m AND 0x20 = m AND 0x20"
    and "aoa_kept_mask a m AND 0x02 \<noteq> 0 \<longleftrightarrow> m AND 0x02 \<noteq> 0 \<and> (a = 2 \<or> a = 3)"
    and "aoa_kept_mask a m AND 0x08 \<noteq> 0 \<longleftrightarrow> m AND 0x08 \<noteq> 0 \<and> (a = 2 \<or> a = 3)"
    and "aoa_kept_mask a m AND 0x04 \<noteq> 0 \<longleftrightarrow> m AND 0x04 \<noteq> 0 \<and> (a = 1 \<or> a = 3)"
    and "aoa_kept_mask a m AND 0x10 \<noteq> 0 \<longleftrightarrow> m AND 0x10 \<noteq> 0 \<and> (a = 1 \<or> a = 3)"
  by (auto simp: aoa_kept_mask_def and.assoc)


lemma policy_simps [simp]:
  "has_proximity_state (uci_sim_measurement_evaluate_range_notification_policy s x)"
  "emitted_field_mask (uci_sim_measurement_evaluate_range_notification_policy s x) =
     aoa_kept_mask (uci_sim_session_get_aoa_result_req s)
       (requested_field_mask (uci_sim_session_get_result_report_config s) (uci_sim_session_get_rssi_reporting s))"
  by (simp_all add: uci_sim_measurement_evaluate_range_notification_policy_def Let_def)

subsection \<open>Reading a notification back\<close>

lemma nth_put_bytes:
  "i < length buf \<Longrightarrow>
   put_bytes buf off bs ! i = (if off \<le> i \<and> i < off + length bs then bs ! (i - off) else buf ! i)"
proof (induction buf off bs rule: put_bytes.induct)
  case (2 buf off b bs)
  then show ?case by (auto simp: nth_Cons' nth_list_update Suc_diff_Suc split: if_splits)
qed auto

lemma all_less_2: "(\<forall>k<2. P k) \<longleftrightarrow> P 0 \<and> P (1 :: nat)"
  by (auto simp: less_Suc_eq numeral_eq_Suc)

lemma all_less_4: "(\<forall>k<4. P k) \<longleftrightarrow> P 0 \<and> P 1 \<and> P 2 \<and> P (3 :: nat)"
  by (auto simp: less_Suc_eq numeral_eq_Suc)

lemma nth_zero_fields_unless:
  assumes "i < length buf"
  shows "zero_fields_unless m f offs buf ! i = (if m AND f = 0 \<and> i \<in> set offs then 0 else buf ! i)"
proof -
  have "foldl (\<lambda>b i. b[i := 0x00]) buf offs ! i = (if i \<in> set offs then 0 else buf ! i)"
    if "i < length buf" for buf :: bytes
    using that by (induction offs arbitrary: buf) (auto simp: nth_list_update)
  with assms show ?thesis by (simp add: zero_fields_unless_def)
qed

lemma read_u32_nth:
  "\<forall>k<4. xs ! k = write_u32_le v ! k \<Longrightarrow> read_u32_le xs = v"
  using read_write_u32 [of v "[]"] by (simp add: read_u32_le_def all_less_4 del: read_write_u32)

lemma read_u16_nth:
  "\<forall>k<2. xs ! k = write_u16_le v ! k \<Longrightarrow> read_u16_le xs = v"
  using read_write_u16 [of v "[]"] by (simp add: read_u16_le_def all_less_2 del: read_write_u16)

lemma range_data_payload_length:
  assumes "uci_sim_measurement_build_range_data_notification p sample policy o' = Some n"
    and "profile_ok p"
  shows "length (payload n) = unat (range_data_payload_len p)"
  using assms length_array_prefix [of "range_data_payload_template p" UCI_SIM_MAX_RANGE_DATA_TEMPLATE]
  by (auto simp: uci_sim_measurement_build_range_data_notification_def Let_def profile_ok_def split: if_splits)

lemma range_data_ok:
  assumes "uci_sim_measurement_build_range_data_notification p sample policy (range_data_notification_oid p) = Some n"
    and "profile_ok p"
  shows "notification_ok n"
proof (rule notification_ok_intro)
  show "length (payload n) \<le> 255"
    using range_data_payload_length [OF assms] assms(2) by (simp add: profile_ok_def)
qed (use assms in \<open>auto simp: uci_sim_measurement_build_range_data_notification_def Let_def profile_ok_def split: if_splits\<close>)

lemma range_data_built:
  "profile_ok p \<Longrightarrow> uci_sim_measurement_build_range_data_notification p sample policy o' \<noteq> None"
  by (auto simp: uci_sim_measurement_build_range_data_notification_def Let_def profile_ok_def)

lemma default_template:
  "length (array_prefix UCI_SIM_MAX_RANGE_DATA_TEMPLATE 52 default_range_data_payload_template) = 52"
  by (simp add: array_prefix_def default_range_data_payload_template_def)

text \<open>The bytes of the default profile's notification that no field of the sample writes.\<close>

definition template_byte :: "nat \<Rightarrow> u8" where
  "template_byte k = default_range_data_payload_template ! k"

text \<open>A field that is not reported is zeroed; one that is keeps the template's bytes.\<close>

definition kept_or_zero :: "bytes \<Rightarrow> u8 \<Rightarrow> u8 \<Rightarrow> nat set \<Rightarrow> bool" where
  "kept_or_zero b m field ks \<longleftrightarrow> (\<forall>k\<in>ks. b ! k = (if m AND field = 0 then 0 else template_byte k))"

lemma default_range_data_fields:
  fixes sample :: uci_sim_measurement and policy :: uci_sim_measurement_policy_result
  assumes "uci_sim_measurement_build_range_data_notification uci_sim_default_profile sample policy o' = Some n"
  defines "m \<equiv> emitted_field_mask policy" and "b \<equiv> payload n"
  shows "length b = 52" and "read_u32_le b = ms_sequence_number sample"
    and "read_u32_le (drop 4 b) = ms_session_id sample"
    and "read_u32_le (drop 16 b) = ms_session_id sample"
    and "read_u32_le (drop 9 b) = ms_ranging_interval_ms sample"
    and "b ! 13 = ms_measurement_type sample" and "b ! 43 = ms_slot_index sample"
    and "read_u16_le (drop 29 b) = (if m AND UCI_SIM_MEAS_FIELD_DISTANCE \<noteq> 0 then ms_distance_cm sample else 0)"
    and "kept_or_zero b m UCI_SIM_MEAS_FIELD_AOA_AZIMUTH {31, 32, 37, 38}"
    and "kept_or_zero b m UCI_SIM_MEAS_FIELD_AOA_ELEVATION {34, 35, 40, 41}"
    and "kept_or_zero b m UCI_SIM_MEAS_FIELD_AOA_AZIMUTH_FOM {33, 39}"
    and "kept_or_zero b m UCI_SIM_MEAS_FIELD_AOA_ELEVATION_FOM {36, 42}"
    and "kept_or_zero b m UCI_SIM_MEAS_FIELD_RSSI {44}"
    and "\<forall>k\<in>{8, 14, 15} \<union> {20 ..< 29} \<union> {45 ..< 52}. b ! k = template_byte k"
proof -
  note built = assms(1) [unfolded uci_sim_measurement_build_range_data_notification_def Let_def
      uci_sim_default_profile_def k_default_profile_def, simplified]
  have len: "length b = 52"
    using built by (auto simp: b_def default_template)
  show "length b = 52" by (rule len)
  note nth = nth_put_bytes nth_zero_fields_unless nth_list_update default_template
  note b = built [THEN arg_cong [where f = payload], simplified, folded b_def, symmetric]
  have zero: "write_u16_le 0 = [0, 0]" by (simp add: write_u16_le_def)
  have template: "array_prefix UCI_SIM_MAX_RANGE_DATA_TEMPLATE 52 default_range_data_payload_template ! k = template_byte k"
    if "k < 52" for k
    using that by (simp add: array_prefix_def template_byte_def default_range_data_payload_template_def)
  note eval = b nth all_less_4 all_less_2
  show "read_u32_le b = ms_sequence_number sample"
    by (rule read_u32_nth) (simp add: eval)
  show "read_u32_le (drop 4 b) = ms_session_id sample"
    by (rule read_u32_nth) (simp add: eval)
  show "read_u32_le (drop 16 b) = ms_session_id sample"
    by (rule read_u32_nth) (simp add: eval)
  show "read_u32_le (drop 9 b) = ms_ranging_interval_ms sample"
    by (rule read_u32_nth) (simp add: eval)
  show "b ! 13 = ms_measurement_type sample" and "b ! 43 = ms_slot_index sample"
    by (simp_all add: eval)
  show "read_u16_le (drop 29 b) = (if m AND UCI_SIM_MEAS_FIELD_DISTANCE \<noteq> 0 then ms_distance_cm sample else 0)"
    by (rule read_u16_nth) (simp add: eval zero m_def)
  show "kept_or_zero b m UCI_SIM_MEAS_FIELD_AOA_AZIMUTH {31, 32, 37, 38}"
    "kept_or_zero b m UCI_SIM_MEAS_FIELD_AOA_ELEVATION {34, 35, 40, 41}"
    "kept_or_zero b m UCI_SIM_MEAS_FIELD_AOA_AZIMUTH_FOM {33, 39}"
    "kept_or_zero b m UCI_SIM_MEAS_FIELD_AOA_ELEVATION_FOM {36, 42}"
    "kept_or_zero b m UCI_SIM_MEAS_FIELD_RSSI {44}"
    by (simp_all add: kept_or_zero_def eval zero template m_def)
  have "\<forall>k\<in>set [45, 46, 47, 48, 49, 50, 51, 20, 21, 22, 23, 24, 25, 26, 27, 28, 8, 14, 15]. b ! k = template_byte k"
    by (simp add: eval template)
  moreover have "{8, 14, 15} \<union> {20 ..< 29} \<union> {45 ..< 52} =
      set [45, 46, 47, 48, 49, 50, 51, 20, 21, 22, 23, 24, 25, 26, 27, 28, 8, 14, 15 :: nat]"
    by (simp flip: set_upt)
  ultimately show "\<forall>k\<in>{8, 14, 15} \<union> {20 ..< 29} \<union> {45 ..< 52}. b ! k = template_byte k" by (simp only:)
qed

subsection \<open>Properties\<close>

text \<open>
  C32. Every byte of a range-data notification of the default profile: the sequence number, the
  session twice, the interval, the measurement type and the slot are the sample's, and so is the
  distance when it is reported. What the simulator does not measure comes from the profile's
  template: each angle, figure of merit and the signal strength has the template's bytes when its
  bit of the field mask is set and is 0 when it is not, and all other bytes are the template's.
\<close>

theorem range_data_reads_back:
  assumes "uci_sim_measurement_build_range_data_notification uci_sim_default_profile sample policy o' = Some n"
  shows "length (payload n) = 52 \<and> read_u32_le (payload n) = ms_sequence_number sample
    \<and> read_u32_le (drop 4 (payload n)) = ms_session_id sample
    \<and> read_u32_le (drop 16 (payload n)) = ms_session_id sample
    \<and> read_u32_le (drop 9 (payload n)) = ms_ranging_interval_ms sample
    \<and> payload n ! 13 = ms_measurement_type sample \<and> payload n ! 43 = ms_slot_index sample
    \<and> read_u16_le (drop 29 (payload n)) =
        (if emitted_field_mask policy AND UCI_SIM_MEAS_FIELD_DISTANCE \<noteq> 0 then ms_distance_cm sample else 0)
    \<and> kept_or_zero (payload n) (emitted_field_mask policy) UCI_SIM_MEAS_FIELD_AOA_AZIMUTH {31, 32, 37, 38}
    \<and> kept_or_zero (payload n) (emitted_field_mask policy) UCI_SIM_MEAS_FIELD_AOA_ELEVATION {34, 35, 40, 41}
    \<and> kept_or_zero (payload n) (emitted_field_mask policy) UCI_SIM_MEAS_FIELD_AOA_AZIMUTH_FOM {33, 39}
    \<and> kept_or_zero (payload n) (emitted_field_mask policy) UCI_SIM_MEAS_FIELD_AOA_ELEVATION_FOM {36, 42}
    \<and> kept_or_zero (payload n) (emitted_field_mask policy) UCI_SIM_MEAS_FIELD_RSSI {44}
    \<and> (\<forall>k\<in>{8, 14, 15} \<union> {20 ..< 29} \<union> {45 ..< 52}. payload n ! k = template_byte k)"
  by (intro conjI; rule default_range_data_fields [OF assms])

lemma range_data_reads_back_witness:
  "\<exists>n. uci_sim_measurement_build_range_data_notification uci_sim_default_profile
      (uci_sim_measurement_init_ranging_sample uci_sim_default_profile zero_session)
      \<lparr>should_emit_notification = True, has_proximity_state = True, in_proximity_range = False, emitted_field_mask = 0x21\<rparr> 0 = Some n
    \<and> payload n ! 31 = 0 \<and> payload n ! 44 = template_byte 44"
proof -
  let ?s = "uci_sim_measurement_init_ranging_sample uci_sim_default_profile zero_session"
  let ?q = "\<lparr>should_emit_notification = True, has_proximity_state = True, in_proximity_range = False, emitted_field_mask = 0x21\<rparr>"
  obtain n where "uci_sim_measurement_build_range_data_notification uci_sim_default_profile ?s ?q 0 = Some n"
    using range_data_built [OF default_profile_ok, of ?s ?q 0] by blast
  with range_data_reads_back [OF this] show ?thesis by (simp add: kept_or_zero_def)
qed

text \<open>
  C33. The fields a notification reports are those the session's parameters ask for: bit 0 of
  RESULT_REPORT_CONFIG the distance, bits 1 to 3 the angles and their figures of merit as far as
  AOA_RESULT_REQ asks for azimuth (2), elevation (1) or both (3), and RSSI_REPORTING the signal
  strength.
\<close>

theorem reported_fields_as_configured:
  "let m = emitted_field_mask (uci_sim_measurement_evaluate_range_notification_policy s sample);
       report = uci_sim_session_get_result_report_config s; aoa = uci_sim_session_get_aoa_result_req s
   in (m AND UCI_SIM_MEAS_FIELD_DISTANCE \<noteq> 0 \<longleftrightarrow> report AND 1 \<noteq> 0)
    \<and> (m AND UCI_SIM_MEAS_FIELD_AOA_AZIMUTH \<noteq> 0 \<longleftrightarrow> report AND 2 \<noteq> 0 \<and> aoa \<in> {2, 3})
    \<and> (m AND UCI_SIM_MEAS_FIELD_AOA_ELEVATION \<noteq> 0 \<longleftrightarrow> report AND 4 \<noteq> 0 \<and> aoa \<in> {1, 3})
    \<and> (m AND UCI_SIM_MEAS_FIELD_AOA_AZIMUTH_FOM \<noteq> 0 \<longleftrightarrow> report AND 8 \<noteq> 0 \<and> aoa \<in> {2, 3})
    \<and> (m AND UCI_SIM_MEAS_FIELD_AOA_ELEVATION_FOM \<noteq> 0 \<longleftrightarrow> report AND 8 \<noteq> 0 \<and> aoa \<in> {1, 3})
    \<and> (m AND UCI_SIM_MEAS_FIELD_RSSI \<noteq> 0 \<longleftrightarrow> uci_sim_session_get_rssi_reporting s \<noteq> 0)"
  unfolding Let_def policy_simps aoa_kept_bits requested_field_bits by simp

end
