(* ===== verification/Streaming.thy ===== *)
theory Streaming
  imports Measurement
begin

text \<open>
  The ranging stream: \<open>uci_sim_device_emit_ranging_stream\<close> of \<open>src/model/uci_sim_device.c\<close>
  and the hooks of \<open>src/spec/uci_sim_scenario.c\<close> that start and stop it. The lemmas show
  that every operation keeps the device well formed, what one emission does on each branch, and
  that a stream of \<open>n\<close> samples is over after \<open>n\<close> emissions.
\<close>

text \<open>
  The two blocks that end a stream at \<open>MAX_NUMBER_OF_MEASUREMENTS\<close>, before and after a
  sample.
\<close>

definition stop_at_maximum :: "uci_sim_device \<Rightarrow> nat \<Rightarrow> rc \<times> uci_sim_device" where
  "stop_at_maximum d i =
     (let s = (sessions d ! i)\<lparr>state := UCI_SESSION_STATE_IDLE, ranging_stream_remaining := 0\<rparr>;
          d1 = uci_sim_device_cancel_session_events (set_session d i s) (session_id s)
      in uci_sim_device_queue_session_status_notification d1 (session_id s) UCI_SESSION_STATE_IDLE
           UCI_SESSION_REASON_MAX_NUMBER_OF_MEASUREMENTS_REACHED)"

definition emit_sample ::
    "uci_sim_device \<Rightarrow> uci_sim_measurement \<Rightarrow> uci_sim_measurement_policy_result \<Rightarrow> rc \<times> uci_sim_device" where
  "emit_sample d measurement policy =
     (let profile = effective_profile d;
          m = measurement\<lparr>ms_sequence_number := next_ranging_sequence d\<rparr>;
          d1 = d\<lparr>next_ranging_sequence := next_ranging_sequence d + 1\<rparr>
      in case uci_sim_measurement_build_range_data_notification profile m policy
                (range_data_notification_oid profile) of
           None \<Rightarrow> (RC_FAIL, d1)
         | Some n \<Rightarrow> uci_sim_device_queue_notification d1 n)"

definition uci_sim_device_emit_ranging_stream ::
    "uci_sim_device \<Rightarrow> nat \<Rightarrow> rc \<times> uci_sim_device" where
  "uci_sim_device_emit_ranging_stream d i =
     (let s = sessions d ! i in
      if dev_scenario d \<noteq> UCI_SIM_SCENARIO_RANGING_STREAM \<or> ranging_stream_remaining s = 0
         \<or> state s \<noteq> UCI_SESSION_STATE_ACTIVE
      then (RC_OK, d)
      else
        let profile = effective_profile d;
            maximum = uci_sim_session_get_max_number_of_measurements s
        in if maximum \<noteq> 0 \<and> ranging_count s \<ge> ucast maximum then stop_at_maximum d i
           else
             let measurement = uci_sim_measurement_init_ranging_sample profile s;
                 policy = uci_sim_measurement_evaluate_range_notification_policy s measurement;
                 (c, d1) = (if should_emit_notification policy then emit_sample d measurement policy
                            else (RC_OK, d))
             in if c \<noteq> RC_OK then (RC_FAIL, d1)
                else
                  let s1 = s\<lparr>has_last_proximity_state := has_proximity_state policy,
                             last_in_proximity_range := in_proximity_range policy,
                             ranging_count := ranging_count s + 1,
                             ranging_stream_remaining := ranging_stream_remaining s - 1\<rparr>;
                      d2 = set_session d1 i s1
                  in if maximum \<noteq> 0 \<and> ranging_count s1 \<ge> ucast maximum then stop_at_maximum d2 i
                     else (RC_OK, d2))"

text \<open>The hooks of the session-control handler.\<close>

definition uci_sim_scenario_on_session_started ::
    "uci_sim_device \<Rightarrow> nat \<Rightarrow> rc \<times> uci_sim_device" where
  "uci_sim_scenario_on_session_started d i =
     (if dev_scenario d \<noteq> UCI_SIM_SCENARIO_RANGING_STREAM then (RC_OK, d)
      else
        let profile = effective_profile d;
            s = (sessions d ! i)\<lparr>ranging_stream_remaining := ranging_stream_burst_count profile\<rparr>;
            d1 = set_session d i s
        in if ranging_stream_remaining s = 0 then (RC_OK, d1)
           else uci_sim_device_schedule_event d1 UCI_SIM_EVENT_RANGE_DATA (session_id s)
                  (uci_sim_session_get_ranging_interval_ms s (Some profile)))"

definition uci_sim_scenario_on_session_stopped :: "uci_sim_device \<Rightarrow> nat \<Rightarrow> uci_sim_device" where
  "uci_sim_scenario_on_session_stopped d i =
     (let s = (sessions d ! i)\<lparr>ranging_stream_remaining := 0, data_transfer_in_progress := False,
                 data_transfer_repetitions_remaining := 0, data_transfer_tx_count := 0\<rparr>
      in uci_sim_device_cancel_session_events (set_session d i s) (session_id s))"

subsection \<open>Well-formedness\<close>

lemma set_session_inv':
  assumes "device_inv d" and "i < length (sessions d)" and "allocated (sessions d ! i)"
    and "session_ok (sessions d ! i) \<Longrightarrow> session_ok s" and "session_id s = session_id (sessions d ! i)"
  shows "device_inv (set_session d i s)"
  using set_session_inv [OF assms(1-3) _ assms(5)] assms(4) device_invD(6,7) [OF assms(1)] assms(2)
  by simp

lemma stop_at_maximum_inv:
  assumes "device_inv d" and "i < length (sessions d)" and "allocated (sessions d ! i)"
  shows "device_inv (snd (stop_at_maximum d i))"
  using assms unfolding stop_at_maximum_def Let_def
  by (intro queue_session_status_inv cancel_events_inv set_session_inv')
    (simp_all add: session_ok_def protocol_state_def)

lemma emit_sample_snd:
  assumes "device_inv d"
  obtains n where "notification_ok n"
    and "emit_sample d m q =
      uci_sim_device_queue_notification (d\<lparr>next_ranging_sequence := next_ranging_sequence d + 1\<rparr>) n"
    and "uci_sim_measurement_build_range_data_notification (effective_profile d)
           (m\<lparr>ms_sequence_number := next_ranging_sequence d\<rparr>) q
           (range_data_notification_oid (effective_profile d)) = Some n"
proof -
  note ok = effective_profile_ok [OF assms]
  from range_data_built [OF ok] obtain n
    where n: "uci_sim_measurement_build_range_data_notification (effective_profile d)
           (m\<lparr>ms_sequence_number := next_ranging_sequence d\<rparr>) q
           (range_data_notification_oid (effective_profile d)) = Some n" by blast
  from range_data_ok [OF n ok] have "notification_ok n" .
  with n that show ?thesis by (simp add: emit_sample_def)
qed

lemma emit_sample_inv:
  assumes "device_inv d" and "emit_sample d m q = (c, d')"
  shows "device_inv d' \<and> sessions d' = sessions d \<and> dev_scenario d' = dev_scenario d
    \<and> scheduled_events d' = scheduled_events d \<and> dev_profile d' = dev_profile d"
proof -
  from emit_sample_snd [OF assms(1)] obtain n where n: "notification_ok n"
      "emit_sample d m q =
        uci_sim_device_queue_notification (d\<lparr>next_ranging_sequence := next_ranging_sequence d + 1\<rparr>) n"
    by blast
  have "device_inv (d\<lparr>next_ranging_sequence := next_ranging_sequence d + 1\<rparr>)"
    using assms(1) by (simp add: device_inv_def)
  from queue_notification_inv [OF this n(1)] n(2) assms(2) show ?thesis
    by (auto simp: uci_sim_device_queue_notification_def split: if_splits)
qed

lemma emit_ranging_stream_inv:
  assumes inv: "device_inv d" and i: "i < length (sessions d)" and alloc: "allocated (sessions d ! i)"
  shows "device_inv (snd (uci_sim_device_emit_ranging_stream d i))"
proof -
  let ?s = "sessions d ! i"
  let ?m = "uci_sim_measurement_init_ranging_sample (effective_profile d) ?s"
  let ?q = "uci_sim_measurement_evaluate_range_notification_policy ?s ?m"
  obtain c d1 where step: "(if should_emit_notification ?q then emit_sample d ?m ?q else (RC_OK, d)) = (c, d1)"
    by (cases "if should_emit_notification ?q then emit_sample d ?m ?q else (RC_OK, d)")
  have d1: "device_inv d1" "sessions d1 = sessions d"
    using step emit_sample_inv [OF inv] inv by (auto split: if_splits)
  let ?s1 = "?s\<lparr>has_last_proximity_state := True, last_in_proximity_range := in_proximity_range ?q,
                 ranging_count := ranging_count ?s + 1,
                 ranging_stream_remaining := ranging_stream_remaining ?s - 1\<rparr>"
  have d2: "device_inv (set_session d1 i ?s1)" if "state ?s = UCI_SESSION_STATE_ACTIVE"
    using d1 i alloc that by (intro set_session_inv') (simp_all add: session_ok_def)
  have d3: "device_inv (snd (stop_at_maximum (set_session d1 i ?s1) i))" if "state ?s = UCI_SESSION_STATE_ACTIVE"
    using d2 [OF that] d1 i alloc by (intro stop_at_maximum_inv) simp_all
  show ?thesis
    using inv d1 d2 d3 stop_at_maximum_inv [OF inv i alloc]
    by (simp add: uci_sim_device_emit_ranging_stream_def Let_def step)
qed

lemma session_started_inv:
  assumes inv: "device_inv d" and i: "i < length (sessions d)" and alloc: "allocated (sessions d ! i)"
    and active: "state (sessions d ! i) = UCI_SESSION_STATE_ACTIVE"
  shows "device_inv (snd (uci_sim_scenario_on_session_started d i))"
proof -
  have "device_inv (set_session d i ((sessions d ! i)
      \<lparr>ranging_stream_remaining := ranging_stream_burst_count (effective_profile d)\<rparr>))"
    using assms by (intro set_session_inv') (simp_all add: session_ok_def)
  with inv show ?thesis
    by (cases "ranging_stream_burst_count (effective_profile d) = 0")
      (simp_all add: uci_sim_scenario_on_session_started_def Let_def schedule_event_inv)
qed

lemma session_stopped_inv:
  assumes "device_inv d" and "i < length (sessions d)" and "allocated (sessions d ! i)"
  shows "device_inv (uci_sim_scenario_on_session_stopped d i)"
  using assms unfolding uci_sim_scenario_on_session_stopped_def Let_def
  by (intro cancel_events_inv set_session_inv') (simp_all add: session_ok_def)


subsection \<open>What one emission does\<close>

lemma emit_stream_idle:
  "ranging_stream_remaining (sessions d ! i) = 0 \<or> state (sessions d ! i) \<noteq> UCI_SESSION_STATE_ACTIVE
   \<or> dev_scenario d \<noteq> UCI_SIM_SCENARIO_RANGING_STREAM
   \<Longrightarrow> uci_sim_device_emit_ranging_stream d i = (RC_OK, d)"
  by (auto simp: uci_sim_device_emit_ranging_stream_def Let_def)

definition stream_live :: "uci_sim_device \<Rightarrow> nat \<Rightarrow> bool" where
  "stream_live d i \<longleftrightarrow>
     dev_scenario d = UCI_SIM_SCENARIO_RANGING_STREAM \<and> i < length (sessions d)
     \<and> allocated (sessions d ! i) \<and> state (sessions d ! i) = UCI_SESSION_STATE_ACTIVE
     \<and> ranging_stream_remaining (sessions d ! i) \<noteq> 0"

definition limit_allows :: "uci_sim_session \<Rightarrow> bool" where
  "limit_allows s \<longleftrightarrow>
     (let maximum = uci_sim_session_get_max_number_of_measurements s
      in maximum = 0 \<or> ranging_count s + 1 < ucast maximum \<and> ranging_count s < ucast maximum)"

definition sample_policy :: "uci_sim_device \<Rightarrow> uci_sim_session \<Rightarrow> uci_sim_measurement_policy_result" where
  "sample_policy d s =
     uci_sim_measurement_evaluate_range_notification_policy s
       (uci_sim_measurement_init_ranging_sample (effective_profile d) s)"

text \<open>
  The samples of a session as a sequence: what one sample puts on the wire, given the next
  sequence number (nothing when its policy keeps it back), the session after it, and the
  notifications of the next \<open>n\<close> samples. A sequence number is used up by a notification only.
\<close>

definition sample_ntf :: "uci_sim_profile \<Rightarrow> u32 \<Rightarrow> uci_sim_session \<Rightarrow> uci_sim_packet list" where
  "sample_ntf p q s =
     (let m = uci_sim_measurement_init_ranging_sample p s;
          policy = uci_sim_measurement_evaluate_range_notification_policy s m
      in if should_emit_notification policy
         then case uci_sim_measurement_build_range_data_notification p (m\<lparr>ms_sequence_number := q\<rparr>) policy
                     (range_data_notification_oid p) of Some n \<Rightarrow> [n] | None \<Rightarrow> []
         else [])"

definition counted :: "uci_sim_profile \<Rightarrow> uci_sim_session \<Rightarrow> uci_sim_session" where
  "counted p s = s
     \<lparr>has_last_proximity_state := True,
      last_in_proximity_range := in_proximity_range (uci_sim_measurement_evaluate_range_notification_policy s
        (uci_sim_measurement_init_ranging_sample p s)),
      ranging_count := ranging_count s + 1,
      ranging_stream_remaining := ranging_stream_remaining s - 1\<rparr>"

fun sample_ntfs :: "uci_sim_profile \<Rightarrow> u32 \<Rightarrow> uci_sim_session \<Rightarrow> nat \<Rightarrow> uci_sim_packet list" where
  "sample_ntfs p q s 0 = []"
| "sample_ntfs p q s (Suc n) =
     (let ns = sample_ntf p q s in ns @ sample_ntfs p (q + of_nat (length ns)) (counted p s) n)"

lemma counted_simps [simp]:
  "session_id (counted p s) = session_id s" "allocated (counted p s) = allocated s"
  "state (counted p s) = state s" "configs (counted p s) = configs s"
  "ranging_count (counted p s) = ranging_count s + 1"
  "ranging_stream_remaining (counted p s) = ranging_stream_remaining s - 1"
  by (simp_all add: counted_def)

lemma length_sample_ntf:
  assumes "profile_ok p"
  shows "length (sample_ntf p q s) =
    (if should_emit_notification (uci_sim_measurement_evaluate_range_notification_policy s
        (uci_sim_measurement_init_ranging_sample p s)) then 1 else 0)"
proof -
  from range_data_built [OF assms] obtain n where
    "uci_sim_measurement_build_range_data_notification p
      ((uci_sim_measurement_init_ranging_sample p s)\<lparr>ms_sequence_number := q\<rparr>)
      (uci_sim_measurement_evaluate_range_notification_policy s (uci_sim_measurement_init_ranging_sample p s))
      (range_data_notification_oid p) = Some n" by blast
  then show ?thesis by (simp add: sample_ntf_def Let_def)
qed

lemma length_sample_ntfs: "profile_ok p \<Longrightarrow> length (sample_ntfs p q s n) \<le> n"
  by (induction n arbitrary: q s) (auto simp: Let_def length_sample_ntf intro: le_SucI)

text \<open>The part of one emission before the count: the notification, if any, is appended.\<close>

definition reported_device :: "uci_sim_device \<Rightarrow> uci_sim_session \<Rightarrow> uci_sim_device" where
  "reported_device d s =
     (let ns = sample_ntf (effective_profile d) (next_ranging_sequence d) s
      in d\<lparr>next_ranging_sequence := next_ranging_sequence d + of_nat (length ns),
           pending_notifications := pending_notifications d @ ns\<rparr>)"

lemma sample_reported:
  assumes inv: "device_inv d" and room: "length (pending_notifications d) < UCI_SIM_MAX_PENDING_NOTIFICATIONS"
  shows "(if should_emit_notification (sample_policy d s)
      then emit_sample d (uci_sim_measurement_init_ranging_sample (effective_profile d) s) (sample_policy d s)
      else (RC_OK, d)) = (RC_OK, reported_device d s)"
proof -
  let ?m = "uci_sim_measurement_init_ranging_sample (effective_profile d) s"
  obtain n where n: "emit_sample d ?m (sample_policy d s) =
      uci_sim_device_queue_notification (d\<lparr>next_ranging_sequence := next_ranging_sequence d + 1\<rparr>) n"
      "uci_sim_measurement_build_range_data_notification (effective_profile d)
         (?m\<lparr>ms_sequence_number := next_ranging_sequence d\<rparr>) (sample_policy d s)
         (range_data_notification_oid (effective_profile d)) = Some n"
    using emit_sample_snd [OF inv] by metis
  with room show ?thesis
    by (simp add: reported_device_def sample_ntf_def Let_def uci_sim_device_queue_notification_def
        sample_policy_def [symmetric])
qed

lemma reported_device_simps [simp]:
  "sessions (reported_device d s) = sessions d" "scheduled_events (reported_device d s) = scheduled_events d"
  "dev_scenario (reported_device d s) = dev_scenario d" "dev_profile (reported_device d s) = dev_profile d"
  "effective_profile (reported_device d s) = effective_profile d"
  "pending_notifications (reported_device d s) =
     pending_notifications d @ sample_ntf (effective_profile d) (next_ranging_sequence d) s"
  "next_ranging_sequence (reported_device d s) = next_ranging_sequence d
     + of_nat (length (sample_ntf (effective_profile d) (next_ranging_sequence d) s))"
  by (simp_all add: reported_device_def Let_def effective_profile_def)

lemma counted_policy:
  "s\<lparr>has_last_proximity_state := has_proximity_state (sample_policy d s),
     last_in_proximity_range := in_proximity_range (sample_policy d s),
     ranging_count := ranging_count s + 1,
     ranging_stream_remaining := ranging_stream_remaining s - 1\<rparr> = counted (effective_profile d) s"
  by (simp add: counted_def sample_policy_def uci_sim_measurement_evaluate_range_notification_policy_def Let_def)

text \<open>
  The sample of a live stream when the queue has room: it is reported and counted, and below the
  session's maximum the stream goes on.
\<close>

lemma emit_stream_step:
  assumes inv: "device_inv d" and live: "stream_live d i" and lim: "limit_allows (sessions d ! i)"
    and room: "length (pending_notifications d) < UCI_SIM_MAX_PENDING_NOTIFICATIONS"
  defines "s \<equiv> sessions d ! i"
  shows "uci_sim_device_emit_ranging_stream d i =
    (RC_OK, set_session (reported_device d s) i (counted (effective_profile d) s))"
proof -
  let ?max = "uci_sim_session_get_max_number_of_measurements s"
  have max: "\<not> (?max \<noteq> 0 \<and> ranging_count s \<ge> ucast ?max)" "\<not> (?max \<noteq> 0 \<and> ranging_count s + 1 \<ge> ucast ?max)"
    using lim by (auto simp: limit_allows_def s_def Let_def)
  have go: "\<not> (dev_scenario d \<noteq> UCI_SIM_SCENARIO_RANGING_STREAM \<or> ranging_stream_remaining s = 0
      \<or> state s \<noteq> UCI_SESSION_STATE_ACTIVE)"
    using live by (simp add: stream_live_def s_def)
  show ?thesis
    unfolding uci_sim_device_emit_ranging_stream_def Let_def s_def [symmetric] if_not_P [OF go]
      if_not_P [OF max(1)] sample_policy_def [symmetric] sample_reported [OF inv room]
      prod.case counted_policy counted_simps if_not_P [OF max(2)] by simp
qed

text \<open>The status notification that closes a stream at its maximum.\<close>

definition maximum_reached_ntf :: "u32 \<Rightarrow> uci_sim_packet" where
  "maximum_reached_ntf sid =
     \<lparr>mt = UCI_MT_NOTIFICATION, pbf = UCI_PBF_COMPLETE, gid = UCI_GID_SESSION_CONFIG,
      oid = UCI_SESSION_STATUS_NTF,
      payload = write_u32_le sid @ [UCI_SESSION_STATE_IDLE, UCI_SESSION_REASON_MAX_NUMBER_OF_MEASUREMENTS_REACHED]\<rparr>"

text \<open>The sample that reaches the maximum: reported and counted too, then the stream is over.\<close>

lemma emit_stream_last:
  assumes inv: "device_inv d" and live: "stream_live d i"
    and max: "uci_sim_session_get_max_number_of_measurements (sessions d ! i) = m" "m \<noteq> 0"
      "ranging_count (sessions d ! i) + 1 = ucast m"
    and room: "length (pending_notifications d) + 2 \<le> UCI_SIM_MAX_PENDING_NOTIFICATIONS"
  defines "s \<equiv> sessions d ! i"
  shows "uci_sim_device_emit_ranging_stream d i =
    (RC_OK, (set_session (reported_device d s) i ((counted (effective_profile d) s)
        \<lparr>state := UCI_SESSION_STATE_IDLE, ranging_stream_remaining := 0\<rparr>))
      \<lparr>scheduled_events := filter (\<lambda>e. ev_session_id e \<noteq> session_id s) (scheduled_events d),
       pending_notifications := pending_notifications d
         @ sample_ntf (effective_profile d) (next_ranging_sequence d) s @ [maximum_reached_ntf (session_id s)]\<rparr>)"
proof -
  have lt: "\<not> ranging_count s \<ge> ucast m"
  proof -
    have "unat (ucast m :: u32) = unat m" 
      using unsigned_less [of m, where ?'a = nat] by (simp add: unsigned_ucast_eq take_bit_nat_eq_self)
    then have "ranging_count s + 1 \<noteq> 0" using max(2,3) by (metis s_def unat_0 unat_eq_0)
    then have "unat (ranging_count s + 1) = Suc (unat (ranging_count s))"
      using unatSuc [of "ranging_count s"] by (simp add: add.commute)
    then show ?thesis by (simp add: max(3) [symmetric] s_def word_le_nat_alt)
  qed
  have go: "\<not> (dev_scenario d \<noteq> UCI_SIM_SCENARIO_RANGING_STREAM \<or> ranging_stream_remaining s = 0
      \<or> state s \<noteq> UCI_SESSION_STATE_ACTIVE)"
    using live by (simp add: stream_live_def s_def)
  have room': "length (pending_notifications d) < UCI_SIM_MAX_PENDING_NOTIFICATIONS" using room by simp
  have late: "\<not> (m \<noteq> 0 \<and> ranging_count s \<ge> ucast m)" using lt by simp
  have i: "i < length (sessions d)" using live by (simp add: stream_live_def)
  have "uci_sim_device_emit_ranging_stream d i =
      stop_at_maximum (set_session (reported_device d s) i (counted (effective_profile d) s)) i"
    unfolding uci_sim_device_emit_ranging_stream_def Let_def s_def [symmetric] if_not_P [OF go]
      max(1) [folded s_def] if_not_P [OF late] sample_policy_def [symmetric] sample_reported [OF inv room']
      prod.case counted_policy counted_simps max(3) [folded s_def] using max(2) by simp
  moreover have "length (sample_ntf (effective_profile d) (next_ranging_sequence d) s) \<le> 1"
    by (simp add: length_sample_ntf effective_profile_ok [OF inv])
  ultimately show ?thesis
    using i room
    by (simp add: stop_at_maximum_def Let_def uci_sim_device_cancel_session_events_def set_session_def
        uci_sim_device_queue_session_status_notification_def uci_sim_device_queue_notification_def
        maximum_reached_ntf_def)
qed

subsection \<open>Properties\<close>

text \<open>
  C17. The sample that reaches the session's maximum ends the stream: it is still counted and
  reported, then the session is IDLE with nothing left to send and no event scheduled, and a
  session status with the reason MAX_NUMBER_OF_MEASUREMENTS_REACHED closes the notifications.
\<close>

theorem stream_stops_at_maximum:
  assumes inv: "device_inv d" and live: "stream_live d i"
    and max: "uci_sim_session_get_max_number_of_measurements (sessions d ! i) = m" "m \<noteq> 0"
      "ranging_count (sessions d ! i) + 1 = ucast m"
    and room: "length (pending_notifications d) + 2 \<le> UCI_SIM_MAX_PENDING_NOTIFICATIONS"
  shows "case uci_sim_device_emit_ranging_stream d i of (c, d') \<Rightarrow>
    c = RC_OK \<and> state (sessions d' ! i) = UCI_SESSION_STATE_IDLE
    \<and> ranging_stream_remaining (sessions d' ! i) = 0
    \<and> ranging_count (sessions d' ! i) = ucast m
    \<and> scheduled_events d' = filter (\<lambda>e. ev_session_id e \<noteq> session_id (sessions d ! i)) (scheduled_events d)
    \<and> (\<exists>ns. pending_notifications d' = pending_notifications d @ ns @
          [\<lparr>mt = UCI_MT_NOTIFICATION, pbf = UCI_PBF_COMPLETE, gid = UCI_GID_SESSION_CONFIG,
            oid = UCI_SESSION_STATUS_NTF, payload = write_u32_le (session_id (sessions d ! i))
              @ [UCI_SESSION_STATE_IDLE, UCI_SESSION_REASON_MAX_NUMBER_OF_MEASUREMENTS_REACHED]\<rparr>]
        \<and> length ns = (if should_emit_notification (sample_policy d (sessions d ! i)) then 1 else 0))"
proof -
  have "i < length (sessions d)" using live by (simp add: stream_live_def)
  moreover have "length (sample_ntf (effective_profile d) (next_ranging_sequence d) (sessions d ! i)) =
      (if should_emit_notification (sample_policy d (sessions d ! i)) then 1 else 0)"
    by (simp add: length_sample_ntf effective_profile_ok [OF inv] sample_policy_def)
  ultimately show ?thesis
    unfolding emit_stream_last [OF inv live max room] prod.case
    using max(3) by (auto simp: maximum_reached_ntf_def)
qed

lemma stream_stops_at_maximum_witness:
  "let d = uci_sim_device_init_with_scenario UCI_SIM_SCENARIO_RANGING_STREAM;
       s = zero_session\<lparr>allocated := True, session_id := 7, state := UCI_SESSION_STATE_ACTIVE, ranging_count := 1,
             ranging_stream_remaining := 2,
             configs := \<lparr>config_id = UCI_APP_CONFIG_MAX_NUMBER_OF_MEASUREMENTS, cfg_value = [2, 0], cfg_in_use = True\<rparr>
               # replicate 79 free_config\<rparr>
   in case uci_sim_device_emit_ranging_stream (set_session d 0 s) 0 of (c, d') \<Rightarrow>
        c = RC_OK \<and> state (sessions d' ! 0) = UCI_SESSION_STATE_IDLE"
proof -
  let ?d = "uci_sim_device_init_with_scenario UCI_SIM_SCENARIO_RANGING_STREAM"
  let ?s = "zero_session\<lparr>allocated := True, session_id := 7, state := UCI_SESSION_STATE_ACTIVE, ranging_count := 1,
      ranging_stream_remaining := 2,
      configs := \<lparr>config_id = UCI_APP_CONFIG_MAX_NUMBER_OF_MEASUREMENTS, cfg_value = [2, 0], cfg_in_use = True\<rparr>
        # replicate 79 free_config\<rparr>"
  have d: "sessions ?d = replicate UCI_SIM_MAX_SESSIONS zero_session" "pending_notifications ?d = []"
      "dev_scenario ?d = UCI_SIM_SCENARIO_RANGING_STREAM"
    by (simp_all add: uci_sim_device_init_with_scenario_def uci_sim_device_init_with_profile_def
        apply_profile_defaults_def zero_device_def)
  have inv: "device_inv ?d"
    unfolding uci_sim_device_init_with_scenario_def by (rule init_device_inv) (simp add: default_profile_ok)
  have "configs_ok (configs ?s)"
    by (simp add: configs_ok_def entries_ok_def)
  then have s: "session_ok ?s"
    using zero_session_ok by (simp add: session_ok_def protocol_state_def)
  have "sessions_ok ((sessions ?d)[0 := ?s])"
    by (rule sessions_ok_update [OF device_invD(1) [OF inv] s]) (simp add: d(1) nth_Cons')
  with inv have inv': "device_inv (set_session ?d 0 ?s)" by (simp add: device_inv_def)
  have m: "uci_sim_session_get_max_number_of_measurements ?s = 2"
    by (simp add: uci_sim_session_get_max_number_of_measurements_def uci_sim_session_get_config_def
        config_match_def read_u16_le_def)
  show ?thesis
    using stream_stops_at_maximum [OF inv', of 0 2] m d
    by (simp add: stream_live_def split_def)
qed

end
