(* ===== verification/Validation.thy ===== *)
theory Validation
  imports Device
begin

text \<open>
  \<open>src/core/uci_sim_validation.c\<close>: the checks of one application parameter when the host sets
  it, and of the whole session when ranging starts. A check returns the failure that
  \<open>set_invalid_result\<close> would record (status, reason and surface), or nothing; \<open>result->ok\<close> is
  0 exactly when the return value is -1. A value pointer and its length are one list, and the
  NULL override of the start checks is the empty list with an id that no override uses. The
  theorem is that the chain of checks before ranging succeeds exactly when the session satisfies
  the declarative specification \<open>start_valid\<close>.
\<close>

type_synonym uci_sim_validation_result = invalid_policy

definition set_invalid_result :: "u8 \<Rightarrow> u8 \<Rightarrow> u8 \<Rightarrow> uci_sim_validation_result" where
  "set_invalid_result status reason surface =
     \<lparr>inv_status = status, inv_reason = reason, inv_surface = surface\<rparr>"

text \<open>\<open>profile ? profile->invalid_X_... : fallback\<close>: the policy, or a fixed one with a given reason.\<close>

definition policy_of ::
    "uci_sim_profile option \<Rightarrow> (profile_policies \<Rightarrow> invalid_policy) \<Rightarrow> u8 \<Rightarrow> uci_sim_validation_result" where
  "policy_of profile sel reason =
     (case profile of
        Some p \<Rightarrow> sel (policies p)
      | None \<Rightarrow> set_invalid_result UCI_STATUS_INVALID_PARAM reason UCI_SIM_INVALID_CONFIG_SURFACE_IMMEDIATE)"

text \<open>The failure for a value of the wrong length: as above, with a fixed status.\<close>

definition length_policy ::
    "uci_sim_profile option \<Rightarrow> (profile_policies \<Rightarrow> invalid_policy) \<Rightarrow> u8 \<Rightarrow> uci_sim_validation_result" where
  "length_policy profile sel reason = (policy_of profile sel reason)\<lparr>inv_status := UCI_STATUS_INVALID_PARAM\<rparr>"

text \<open>\<open>(mask & (1U << v)) != 0\<close> for \<open>v\<close> below the width of the mask.\<close>

definition mask_allows :: "'a::len word \<Rightarrow> u8 \<Rightarrow> bool" where
  "mask_allows m v \<longleftrightarrow> m AND push_bit (unat v) 1 \<noteq> 0"

subsection \<open>Checks of one value\<close>

definition validate_ranging_interval_ms :: "uci_sim_profile option \<Rightarrow> u32 \<Rightarrow> uci_sim_validation_result + unit" where
  "validate_ranging_interval_ms profile v =
     (case profile of None \<Rightarrow> Inr ()
      | Some p \<Rightarrow> if v < ucast (supported_min_ranging_interval_ms (limits p)) then Inl (invalid_ranging_interval (policies p)) else Inr ())"

definition validate_slot_duration_rstu :: "uci_sim_profile option \<Rightarrow> u16 \<Rightarrow> uci_sim_validation_result + unit" where
  "validate_slot_duration_rstu profile v =
     (case profile of None \<Rightarrow> Inr ()
      | Some p \<Rightarrow> if v < supported_min_slot_duration_rstu (limits p) then Inl (invalid_slot_duration (policies p)) else Inr ())"

definition validate_result_report_config :: "uci_sim_profile option \<Rightarrow> u8 \<Rightarrow> uci_sim_validation_result + unit" where
  "validate_result_report_config profile v =
     (case profile of None \<Rightarrow> Inr ()
      | Some p \<Rightarrow> if v AND NOT (supported_result_report_config_mask (limits p)) \<noteq> 0 then Inl (invalid_result_report_config (policies p)) else Inr ())"

definition validate_sts_config :: "uci_sim_profile option \<Rightarrow> u8 \<Rightarrow> uci_sim_validation_result + unit" where
  "validate_sts_config profile v =
     (case profile of None \<Rightarrow> Inr ()
      | Some p \<Rightarrow> if v \<ge> 8 \<or> \<not> mask_allows (supported_sts_config_mask (limits p)) v then Inl (invalid_sts_config (policies p)) else Inr ())"

definition validate_aoa_result_req :: "uci_sim_profile option \<Rightarrow> u8 \<Rightarrow> uci_sim_validation_result + unit" where
  "validate_aoa_result_req profile v =
     (case profile of None \<Rightarrow> Inr ()
      | Some p \<Rightarrow> if v > supported_aoa_result_req_max (limits p) then Inl (invalid_aoa_result_req (policies p)) else Inr ())"

definition validate_prf_mode :: "uci_sim_profile option \<Rightarrow> u8 \<Rightarrow> uci_sim_validation_result + unit" where
  "validate_prf_mode profile v =
     (case profile of None \<Rightarrow> Inr ()
      | Some p \<Rightarrow> if v > supported_prf_mode_max (limits p) then Inl (invalid_prf_mode (policies p)) else Inr ())"

definition validate_preamble_code_index ::
    "uci_sim_profile option \<Rightarrow> u8 \<Rightarrow> u8 \<Rightarrow> uci_sim_validation_result + unit" where
  "validate_preamble_code_index profile v prf_mode =
     (case profile of None \<Rightarrow> Inr ()
      | Some p \<Rightarrow> vbind (validate_prf_mode profile prf_mode) (\<lambda>_.
          let lo = (if prf_mode = 0 then supported_bprf_preamble_code_index_min (limits p)
                    else supported_hprf_preamble_code_index_min (limits p));
              hi = (if prf_mode = 0 then supported_bprf_preamble_code_index_max (limits p)
                    else supported_hprf_preamble_code_index_max (limits p))
          in if v < lo \<or> v > hi then Inl (invalid_preamble_code_index (policies p)) else Inr ()))"

definition validate_sfd_id ::
    "uci_sim_profile option \<Rightarrow> u8 \<Rightarrow> u8 \<Rightarrow> uci_sim_validation_result + unit" where
  "validate_sfd_id profile v prf_mode =
     (case profile of None \<Rightarrow> Inr ()
      | Some p \<Rightarrow> vbind (validate_prf_mode profile prf_mode) (\<lambda>_.
          let allowed = (if prf_mode = 0 then supported_bprf_sfd_id_mask (limits p)
                         else supported_hprf_sfd_id_mask (limits p))
          in if v \<ge> 8 \<or> \<not> mask_allows allowed v then Inl (invalid_sfd_id (policies p)) else Inr ()))"

definition validate_psdu_data_rate :: "uci_sim_profile option \<Rightarrow> u8 \<Rightarrow> uci_sim_validation_result + unit" where
  "validate_psdu_data_rate profile v =
     (case profile of None \<Rightarrow> Inr ()
      | Some p \<Rightarrow> if v > supported_psdu_data_rate_max (limits p) then Inl (invalid_psdu_data_rate (policies p)) else Inr ())"

definition validate_preamble_duration :: "uci_sim_profile option \<Rightarrow> u8 \<Rightarrow> uci_sim_validation_result + unit" where
  "validate_preamble_duration profile v =
     (case profile of None \<Rightarrow> Inr ()
      | Some p \<Rightarrow> if v > supported_preamble_duration_max (limits p) then Inl (invalid_preamble_duration (policies p)) else Inr ())"

definition validate_sts_length :: "uci_sim_profile option \<Rightarrow> u8 \<Rightarrow> uci_sim_validation_result + unit" where
  "validate_sts_length profile v =
     (case profile of None \<Rightarrow> Inr ()
      | Some p \<Rightarrow> if v > supported_sts_length_max (limits p) then Inl (invalid_sts_length (policies p)) else Inr ())"

definition validate_key_rotation :: "uci_sim_profile option \<Rightarrow> u8 \<Rightarrow> uci_sim_validation_result + unit" where
  "validate_key_rotation profile v =
     (case profile of None \<Rightarrow> Inr ()
      | Some p \<Rightarrow> if v > supported_key_rotation_max (limits p) then Inl (invalid_key_rotation (policies p)) else Inr ())"

definition validate_key_rotation_rate :: "uci_sim_profile option \<Rightarrow> u8 \<Rightarrow> uci_sim_validation_result + unit" where
  "validate_key_rotation_rate profile v =
     (case profile of None \<Rightarrow> Inr ()
      | Some p \<Rightarrow> if v > supported_key_rotation_rate_max (limits p) then Inl (invalid_key_rotation_rate (policies p)) else Inr ())"

definition validate_number_of_sts_segments :: "uci_sim_profile option \<Rightarrow> u8 \<Rightarrow> uci_sim_validation_result + unit" where
  "validate_number_of_sts_segments profile v =
     (case profile of None \<Rightarrow> Inr ()
      | Some p \<Rightarrow> if v > supported_number_of_sts_segments_max (limits p) then Inl (invalid_number_of_sts_segments (policies p)) else Inr ())"

definition validate_link_layer_mode :: "uci_sim_profile option \<Rightarrow> u8 \<Rightarrow> uci_sim_validation_result + unit" where
  "validate_link_layer_mode profile v =
     (case profile of None \<Rightarrow> Inr ()
      | Some p \<Rightarrow> if v > supported_link_layer_mode_max (limits p) then Inl (invalid_link_layer_mode (policies p)) else Inr ())"

definition validate_ranging_time_struct :: "uci_sim_profile option \<Rightarrow> u8 \<Rightarrow> uci_sim_validation_result + unit" where
  "validate_ranging_time_struct profile v =
     (case profile of None \<Rightarrow> Inr ()
      | Some p \<Rightarrow> if v \<ge> 8 \<or> \<not> mask_allows (supported_ranging_time_struct_mask (limits p)) v then Inl (invalid_ranging_time_struct (policies p)) else Inr ())"

definition validate_scheduled_mode :: "uci_sim_profile option \<Rightarrow> u8 \<Rightarrow> uci_sim_validation_result + unit" where
  "validate_scheduled_mode profile v =
     (case profile of None \<Rightarrow> Inr ()
      | Some p \<Rightarrow> if v \<ge> 8 \<or> \<not> mask_allows (supported_scheduled_mode_mask (limits p)) v then Inl (invalid_scheduled_mode (policies p)) else Inr ())"

definition validate_block_stride_length :: "uci_sim_profile option \<Rightarrow> u8 \<Rightarrow> uci_sim_validation_result + unit" where
  "validate_block_stride_length profile v =
     (case profile of None \<Rightarrow> Inr ()
      | Some p \<Rightarrow> if v > supported_max_block_stride_length (limits p) then Inl (invalid_block_stride_length (policies p)) else Inr ())"

definition validate_slots_per_rr :: "uci_sim_profile option \<Rightarrow> u8 \<Rightarrow> uci_sim_validation_result + unit" where
  "validate_slots_per_rr profile v =
     (case profile of None \<Rightarrow> Inr ()
      | Some p \<Rightarrow> if v < supported_min_slots_per_rr (limits p) \<or> v > supported_max_slots_per_rr (limits p) then Inl (invalid_slots_per_rr (policies p)) else Inr ())"

definition validate_rssi_reporting :: "uci_sim_profile option \<Rightarrow> u8 \<Rightarrow> uci_sim_validation_result + unit" where
  "validate_rssi_reporting profile v =
     (case profile of None \<Rightarrow> Inr ()
      | Some p \<Rightarrow> if v > supported_rssi_reporting_max (limits p) then Inl (invalid_rssi_reporting (policies p)) else Inr ())"

definition validate_ranging_round_usage :: "uci_sim_profile option \<Rightarrow> u8 \<Rightarrow> uci_sim_validation_result + unit" where
  "validate_ranging_round_usage profile v =
     (case profile of None \<Rightarrow> Inr ()
      | Some p \<Rightarrow> if v \<ge> 16 \<or> \<not> mask_allows (supported_ranging_round_usage_mask (limits p)) v then Inl (invalid_ranging_round_usage (policies p)) else Inr ())"

definition validate_device_type :: "uci_sim_profile option \<Rightarrow> u8 \<Rightarrow> uci_sim_validation_result + unit" where
  "validate_device_type profile v =
     (case profile of None \<Rightarrow> Inr ()
      | Some p \<Rightarrow> if v \<ge> 8 \<or> \<not> mask_allows (supported_device_type_mask (limits p)) v then Inl (invalid_device_type (policies p)) else Inr ())"

definition validate_number_of_controlees :: "uci_sim_profile option \<Rightarrow> u8 \<Rightarrow> uci_sim_validation_result + unit" where
  "validate_number_of_controlees profile v =
     (case profile of None \<Rightarrow> Inr ()
      | Some p \<Rightarrow> if v > supported_max_controlees (limits p) then Inl (invalid_num_of_controlees (policies p)) else Inr ())"

definition validate_mac_address_mode :: "uci_sim_profile option \<Rightarrow> u8 \<Rightarrow> uci_sim_validation_result + unit" where
  "validate_mac_address_mode profile v =
     (case profile of None \<Rightarrow> Inr ()
      | Some p \<Rightarrow> if v \<ge> 8 \<or> \<not> mask_allows (supported_mac_address_mode_mask (limits p)) v then Inl (invalid_mac_address_mode (policies p)) else Inr ())"

definition validate_device_mac_address ::
    "uci_sim_profile option \<Rightarrow> bytes \<Rightarrow> u8 \<Rightarrow> uci_sim_validation_result + unit" where
  "validate_device_mac_address profile v mac_address_mode =
     (let failure = policy_of profile invalid_device_mac_address
                      UCI_SESSION_REASON_STATE_CHANGE_WITH_SESSION_MANAGEMENT_COMMANDS
      in if mac_address_mode = UCI_MAC_ADDRESS_MODE_SHORT then
           (if length v \<noteq> 2 then Inl failure else Inr ())
         else if mac_address_mode = UCI_MAC_ADDRESS_MODE_EXTENDED then
           (if length v \<noteq> 8 then Inl failure else Inr ())
         else validate_mac_address_mode profile mac_address_mode)"

definition validate_dst_mac_address ::
    "uci_sim_profile option \<Rightarrow> bytes \<Rightarrow> uci_sim_validation_result + unit" where
  "validate_dst_mac_address profile v =
     (let max_controlees = (case profile of Some p \<Rightarrow> supported_max_controlees (limits p) | None \<Rightarrow> 8)
      in if length v = 0 \<or> length v mod 2 \<noteq> 0 \<or> length v div 2 > unat max_controlees
         then Inl (policy_of profile invalid_dst_mac_address UCI_SESSION_REASON_ERROR_INVALID_DST_ADDRESS_LIST)
         else Inr ())"

definition validate_multi_node_mode :: "uci_sim_profile option \<Rightarrow> u8 \<Rightarrow> uci_sim_validation_result + unit" where
  "validate_multi_node_mode profile v =
     (case profile of None \<Rightarrow> Inr ()
      | Some p \<Rightarrow> if v \<ge> 8 \<or> \<not> mask_allows (supported_multi_node_mode_mask (limits p)) v then Inl (invalid_multi_node_mode (policies p)) else Inr ())"

definition validate_channel_number :: "uci_sim_profile option \<Rightarrow> u8 \<Rightarrow> uci_sim_validation_result + unit" where
  "validate_channel_number profile v =
     (case profile of None \<Rightarrow> Inr ()
      | Some p \<Rightarrow> if v \<ge> 16 \<or> \<not> mask_allows (supported_channel_number_mask (limits p)) v then Inl (invalid_channel_number (policies p)) else Inr ())"

subsection \<open>Checks of several values of a session\<close>

text \<open>
  A configuration value read into a variable of one byte or of two. A longer value has already
  been copied over the variable's neighbours when its length is compared
  (\<open>config_read_overruns\<close>).
\<close>

definition get_session_u8_config ::
    "uci_sim_session \<Rightarrow> u8 \<Rightarrow> uci_sim_validation_result \<Rightarrow> uci_sim_validation_result + u8" where
  "get_session_u8_config s k failure =
     (case uci_sim_session_get_config s k of
        None \<Rightarrow> Inl failure
      | Some v \<Rightarrow> if length v \<noteq> 1 then Inl failure else Inr (v ! 0))"

definition get_session_pair_config ::
    "uci_sim_session \<Rightarrow> u8 \<Rightarrow> uci_sim_validation_result \<Rightarrow> uci_sim_validation_result + bytes" where
  "get_session_pair_config s k failure =
     (case uci_sim_session_get_config s k of
        None \<Rightarrow> Inl failure
      | Some v \<Rightarrow> if length v \<noteq> 2 then Inl failure else Inr v)"

text \<open>The same read where a value about to be set overrides the stored one.\<close>

definition override_u8 ::
    "uci_sim_session \<Rightarrow> u8 \<Rightarrow> u8 \<Rightarrow> bytes \<Rightarrow> uci_sim_validation_result \<Rightarrow> uci_sim_validation_result + u8" where
  "override_u8 s k override_id override_value failure =
     (if override_id = k then
        (if length override_value \<noteq> 1 then Inl failure else Inr (override_value ! 0))
      else get_session_u8_config s k failure)"

definition validate_device_type_role_pair ::
    "uci_sim_profile option \<Rightarrow> uci_sim_session \<Rightarrow> uci_sim_validation_result + unit" where
  "validate_device_type_role_pair profile s =
     (let failure = policy_of profile invalid_device_type
                      UCI_SESSION_REASON_STATE_CHANGE_WITH_SESSION_MANAGEMENT_COMMANDS
      in vbind (get_session_u8_config s UCI_APP_CONFIG_DEVICE_TYPE failure) (\<lambda>device_type.
         vbind (validate_device_type profile device_type) (\<lambda>_.
         vbind (get_session_u8_config s UCI_APP_CONFIG_DEVICE_ROLE
                  (set_invalid_result UCI_STATUS_INVALID_PARAM
                     UCI_SESSION_REASON_STATE_CHANGE_WITH_SESSION_MANAGEMENT_COMMANDS
                     UCI_SIM_INVALID_CONFIG_SURFACE_IMMEDIATE)) (\<lambda>device_role.
         if device_role = UCI_DEVICE_ROLE_RESPONDER \<and> device_type \<noteq> UCI_DEVICE_TYPE_CONTROLEE
         then Inl failure
         else if device_role = UCI_DEVICE_ROLE_INITIATOR \<and> device_type \<noteq> UCI_DEVICE_TYPE_CONTROLLER
         then Inl failure
         else Inr ()))))"

definition validate_multi_node_mode_topology ::
    "uci_sim_profile option \<Rightarrow> uci_sim_session \<Rightarrow> uci_sim_validation_result + unit" where
  "validate_multi_node_mode_topology profile s =
     (let failure = policy_of profile invalid_multi_node_mode UCI_SESSION_REASON_ERROR_INVALID_MULTI_NODE_MODE;
          controlees_failure = policy_of profile invalid_num_of_controlees
                                 UCI_SESSION_REASON_ERROR_INVALID_NUM_OF_CONTROLEES
      in vbind (get_session_u8_config s UCI_APP_CONFIG_MULTI_NODE_MODE failure) (\<lambda>multi_node_mode.
         vbind (validate_multi_node_mode profile multi_node_mode) (\<lambda>_.
         vbind (get_session_u8_config s UCI_APP_CONFIG_MAC_ADDRESS_MODE
                  (policy_of profile invalid_mac_address_mode
                     UCI_SESSION_REASON_ERROR_MAC_ADDRESS_MODE_NOT_SUPPORTED)) (\<lambda>mac_address_mode.
         vbind (validate_mac_address_mode profile mac_address_mode) (\<lambda>_.
         vbind (get_session_u8_config s UCI_APP_CONFIG_NUMBER_OF_CONTROLEES controlees_failure) (\<lambda>controlees.
         vbind (validate_number_of_controlees profile controlees) (\<lambda>_.
         case uci_sim_session_get_config s UCI_APP_CONFIG_DEVICE_MAC_ADDRESS of
           None \<Rightarrow> Inl (policy_of profile invalid_device_mac_address
                         UCI_SESSION_REASON_STATE_CHANGE_WITH_SESSION_MANAGEMENT_COMMANDS)
         | Some device_mac \<Rightarrow>
             vbind (validate_device_mac_address profile device_mac mac_address_mode) (\<lambda>_.
             case uci_sim_session_get_config s UCI_APP_CONFIG_DST_MAC_ADDRESS of
               None \<Rightarrow> Inl (policy_of profile invalid_dst_mac_address
                             UCI_SESSION_REASON_ERROR_INVALID_DST_ADDRESS_LIST)
             | Some dst_mac \<Rightarrow>
                 vbind (validate_dst_mac_address profile dst_mac) (\<lambda>_.
                 if length dst_mac div 2 \<noteq> unat controlees then Inl controlees_failure
                 else if multi_node_mode = 0x00 \<and> (controlees \<noteq> 1 \<or> length dst_mac \<noteq> 2)
                 then Inl failure
                 else Inr ())))))))))"

definition validate_slot_topology_context ::
    "uci_sim_profile option \<Rightarrow> uci_sim_session \<Rightarrow> u8 \<Rightarrow> bytes \<Rightarrow> uci_sim_validation_result + unit" where
  "validate_slot_topology_context profile s override_id override_value =
     (let failure = policy_of profile invalid_slots_per_rr UCI_SESSION_REASON_ERROR_INSUFFICIENT_SLOTS_PER_RR
      in vbind (override_u8 s UCI_APP_CONFIG_SLOTS_PER_RR override_id override_value failure) (\<lambda>slots_per_rr.
         vbind (validate_slots_per_rr profile slots_per_rr) (\<lambda>_.
         vbind (override_u8 s UCI_APP_CONFIG_RESPONDER_SLOT_INDEX override_id override_value failure)
           (\<lambda>responder_slot_index.
         if responder_slot_index \<ge> slots_per_rr then Inl failure else Inr ()))))"

definition validate_block_stride_context ::
    "uci_sim_profile option \<Rightarrow> uci_sim_session \<Rightarrow> u8 \<Rightarrow> bytes \<Rightarrow> uci_sim_validation_result + unit" where
  "validate_block_stride_context profile s override_id override_value =
     (let failure = policy_of profile invalid_block_stride_length
                      UCI_SESSION_REASON_STATE_CHANGE_WITH_SESSION_MANAGEMENT_COMMANDS
      in vbind (override_u8 s UCI_APP_CONFIG_BLOCK_STRIDE_LENGTH override_id override_value failure)
           (\<lambda>block_stride_length.
         vbind (validate_block_stride_length profile block_stride_length) (\<lambda>_.
         if block_stride_length = 0 then Inr ()
         else
           vbind (override_u8 s UCI_APP_CONFIG_RANGING_TIME_STRUCT override_id override_value failure)
             (\<lambda>ranging_time_struct.
           vbind (override_u8 s UCI_APP_CONFIG_SCHEDULED_MODE override_id override_value failure)
             (\<lambda>scheduled_mode.
           if ranging_time_struct \<noteq> 0x01 \<or> scheduled_mode \<noteq> UCI_SCHEDULED_MODE_TIME_SCHEDULED
           then Inl failure else Inr ())))))"

definition validate_cap_size_range_context ::
    "uci_sim_profile option \<Rightarrow> uci_sim_session \<Rightarrow> u8 \<Rightarrow> bytes \<Rightarrow> uci_sim_validation_result + unit" where
  "validate_cap_size_range_context profile s override_id override_value =
     (let failure = policy_of profile invalid_cap_size_range UCI_SESSION_REASON_ERROR_INVALID_CAP_SIZE_RANGE
      in vbind (if override_id = UCI_APP_CONFIG_CAP_SIZE_RANGE then
                  (if length override_value \<noteq> 2 then Inl failure else Inr override_value)
                else get_session_pair_config s UCI_APP_CONFIG_CAP_SIZE_RANGE failure) (\<lambda>cap_size_range.
         let cap_size_max = cap_size_range ! 0; cap_size_min = cap_size_range ! 1
         in if cap_size_min > cap_size_max then Inl failure
            else if cap_size_min = 0 \<and> cap_size_max = 0 then Inr ()
            else
              vbind (override_u8 s UCI_APP_CONFIG_SCHEDULED_MODE override_id override_value failure)
                (\<lambda>scheduled_mode.
              vbind (override_u8 s UCI_APP_CONFIG_SLOTS_PER_RR override_id override_value failure)
                (\<lambda>slots_per_rr.
              if scheduled_mode \<noteq> UCI_SCHEDULED_MODE_CONTENTION_BASED \<or> slots_per_rr = 0
                 \<or> cap_size_max > slots_per_rr - 1
              then Inl failure else Inr ()))))"

definition require_session_config_len ::
    "uci_sim_profile option \<Rightarrow> uci_sim_session \<Rightarrow> u8 \<Rightarrow> nat \<Rightarrow> uci_sim_validation_result + unit" where
  "require_session_config_len profile s k expected_len =
     (case uci_sim_session_get_config s k of
        Some v \<Rightarrow> if length v \<noteq> expected_len
                  then Inl (policy_of profile invalid_sts_config UCI_SESSION_REASON_ERROR_INVALID_STS_CONFIG)
                  else Inr ()
      | None \<Rightarrow> Inl (policy_of profile invalid_sts_config UCI_SESSION_REASON_ERROR_INVALID_STS_CONFIG))"

definition require_session_config_len_one_of ::
    "uci_sim_profile option \<Rightarrow> uci_sim_session \<Rightarrow> u8 \<Rightarrow> nat \<Rightarrow> nat \<Rightarrow> uci_sim_validation_result + unit" where
  "require_session_config_len_one_of profile s k len_a len_b =
     (case uci_sim_session_get_config s k of
        Some v \<Rightarrow> if length v \<noteq> len_a \<and> length v \<noteq> len_b
                  then Inl (policy_of profile invalid_sts_config UCI_SESSION_REASON_ERROR_INVALID_STS_CONFIG)
                  else Inr ()
      | None \<Rightarrow> Inl (policy_of profile invalid_sts_config UCI_SESSION_REASON_ERROR_INVALID_STS_CONFIG))"

definition validate_sts_dependencies ::
    "uci_sim_profile option \<Rightarrow> uci_sim_session \<Rightarrow> u8 \<Rightarrow> uci_sim_validation_result + unit" where
  "validate_sts_dependencies profile s sts_config =
     (if sts_config = 0x00 then require_session_config_len profile s UCI_APP_CONFIG_STATIC_STS_IV 8
      else if sts_config = 0x03 then
        require_session_config_len_one_of profile s UCI_APP_CONFIG_SESSION_KEY 16 32
      else if sts_config = 0x04 then
        vbind (require_session_config_len_one_of profile s UCI_APP_CONFIG_SESSION_KEY 16 32) (\<lambda>_.
        require_session_config_len_one_of profile s UCI_APP_CONFIG_SUBSESSION_KEY 16 32)
      else Inr ())"

subsection \<open>Setting one parameter\<close>

definition with_u8 ::
    "bytes \<Rightarrow> uci_sim_validation_result \<Rightarrow> (u8 \<Rightarrow> uci_sim_validation_result + unit)
       \<Rightarrow> uci_sim_validation_result + unit" where
  "with_u8 v failure k = (if length v \<noteq> 1 then Inl failure else k (v ! 0))"

text \<open>
  The branches of \<open>uci_sim_validate_session_app_config\<close>, in four groups that follow the order of
  the code, each going on to the next where no id matches.
\<close>

definition validate_app_config_schedule ::
    "uci_sim_profile option \<Rightarrow> uci_sim_session \<Rightarrow> u8 \<Rightarrow> bytes \<Rightarrow> uci_sim_validation_result + unit" where
  "validate_app_config_schedule profile s k v =
     (if k = UCI_APP_CONFIG_SLOT_DURATION then
        (if length v \<noteq> 2 then Inl (length_policy profile invalid_slot_duration UCI_SESSION_REASON_ERROR_SLOT_LENGTH_NOT_SUPPORTED) else validate_slot_duration_rstu profile (read_u16_le v))
      else if k = UCI_APP_CONFIG_RANGING_TIME_STRUCT then
        with_u8 v (length_policy profile invalid_ranging_time_struct UCI_SESSION_REASON_STATE_CHANGE_WITH_SESSION_MANAGEMENT_COMMANDS) (\<lambda>x. vbind (validate_ranging_time_struct profile x) (\<lambda>_.
          validate_block_stride_context profile s k v))
      else if k = UCI_APP_CONFIG_SCHEDULED_MODE then
        with_u8 v (length_policy profile invalid_scheduled_mode UCI_SESSION_REASON_STATE_CHANGE_WITH_SESSION_MANAGEMENT_COMMANDS) (\<lambda>x. vbind (validate_scheduled_mode profile x) (\<lambda>_.
          vbind (validate_block_stride_context profile s k v) (\<lambda>_.
          validate_cap_size_range_context profile s k v)))
      else if k = UCI_APP_CONFIG_BLOCK_STRIDE_LENGTH then
        with_u8 v (length_policy profile invalid_block_stride_length UCI_SESSION_REASON_STATE_CHANGE_WITH_SESSION_MANAGEMENT_COMMANDS) (\<lambda>x. vbind (validate_block_stride_length profile x) (\<lambda>_.
          validate_block_stride_context profile s k v))
      else if k = UCI_APP_CONFIG_SLOTS_PER_RR then
        with_u8 v (length_policy profile invalid_slots_per_rr UCI_SESSION_REASON_ERROR_INSUFFICIENT_SLOTS_PER_RR) (\<lambda>x. vbind (validate_slots_per_rr profile x) (\<lambda>_.
          vbind (validate_slot_topology_context profile s k v) (\<lambda>_.
          validate_cap_size_range_context profile s k v)))
      else if k = UCI_APP_CONFIG_RESPONDER_SLOT_INDEX then
        with_u8 v (length_policy profile invalid_slots_per_rr UCI_SESSION_REASON_ERROR_INSUFFICIENT_SLOTS_PER_RR) (\<lambda>x. validate_slot_topology_context profile s k v)
      else if k = UCI_APP_CONFIG_RSSI_REPORTING then
        with_u8 v (length_policy profile invalid_rssi_reporting UCI_SESSION_REASON_STATE_CHANGE_WITH_SESSION_MANAGEMENT_COMMANDS) (\<lambda>x. validate_rssi_reporting profile x)
      else if k = UCI_APP_CONFIG_CAP_SIZE_RANGE then
        (if length v \<noteq> 2 then Inl (length_policy profile invalid_cap_size_range UCI_SESSION_REASON_ERROR_INVALID_CAP_SIZE_RANGE) else validate_cap_size_range_context profile s k v)
      else if k = UCI_APP_CONFIG_RANGING_ROUND_USAGE then
        with_u8 v (length_policy profile invalid_ranging_round_usage UCI_SESSION_REASON_ERROR_INVALID_RANGING_ROUND_USAGE) (\<lambda>x. validate_ranging_round_usage profile x)
      else Inr ())"

definition validate_app_config_keys ::
    "uci_sim_profile option \<Rightarrow> uci_sim_session \<Rightarrow> u8 \<Rightarrow> bytes \<Rightarrow> uci_sim_validation_result + unit" where
  "validate_app_config_keys profile s k v =
     (if k = UCI_APP_CONFIG_KEY_ROTATION then
        with_u8 v (length_policy profile invalid_key_rotation UCI_SESSION_REASON_STATE_CHANGE_WITH_SESSION_MANAGEMENT_COMMANDS) (\<lambda>x. validate_key_rotation profile x)
      else if k = UCI_APP_CONFIG_KEY_ROTATION_RATE then
        (if length v \<noteq> 2 then Inl (length_policy profile invalid_key_rotation_rate UCI_SESSION_REASON_STATE_CHANGE_WITH_SESSION_MANAGEMENT_COMMANDS) else validate_key_rotation_rate profile (v ! 0))
      else if k = UCI_APP_CONFIG_NUMBER_OF_STS_SEGMENTS then
        with_u8 v (length_policy profile invalid_number_of_sts_segments UCI_SESSION_REASON_STATE_CHANGE_WITH_SESSION_MANAGEMENT_COMMANDS) (\<lambda>x. validate_number_of_sts_segments profile x)
      else if k = UCI_APP_CONFIG_MAX_RR_RETRY then
        (if length v \<noteq> 2
         then Inl (set_invalid_result UCI_STATUS_INVALID_PARAM UCI_SESSION_REASON_STATE_CHANGE_WITH_SESSION_MANAGEMENT_COMMANDS
                     UCI_SIM_INVALID_CONFIG_SURFACE_IMMEDIATE)
         else Inr ())
      else if k = UCI_APP_CONFIG_LINK_LAYER_MODE then
        with_u8 v (length_policy profile invalid_link_layer_mode UCI_SESSION_REASON_STATE_CHANGE_WITH_SESSION_MANAGEMENT_COMMANDS) (\<lambda>x. validate_link_layer_mode profile x)
      else validate_app_config_schedule profile s k v)"

definition validate_app_config_phy ::
    "uci_sim_profile option \<Rightarrow> uci_sim_session \<Rightarrow> u8 \<Rightarrow> bytes \<Rightarrow> uci_sim_validation_result + unit" where
  "validate_app_config_phy profile s k v =
     (if k = UCI_APP_CONFIG_STS_CONFIG then
        with_u8 v (length_policy profile invalid_sts_config UCI_SESSION_REASON_ERROR_INVALID_STS_CONFIG) (\<lambda>x. validate_sts_config profile x)
      else if k = UCI_APP_CONFIG_RESULT_REPORT_CONFIG then
        with_u8 v (set_invalid_result UCI_STATUS_INVALID_PARAM UCI_SESSION_REASON_ERROR_INVALID_RESULT_REPORT_CONFIG
                     UCI_SIM_INVALID_CONFIG_SURFACE_IMMEDIATE) (\<lambda>x. validate_result_report_config profile x)
      else if k = UCI_APP_CONFIG_AOA_RESULT_REQ then
        with_u8 v (length_policy profile invalid_aoa_result_req UCI_SESSION_REASON_STATE_CHANGE_WITH_SESSION_MANAGEMENT_COMMANDS) (\<lambda>x. validate_aoa_result_req profile x)
      else if k = UCI_APP_CONFIG_PRF_MODE then
        with_u8 v (length_policy profile invalid_prf_mode UCI_SESSION_REASON_STATE_CHANGE_WITH_SESSION_MANAGEMENT_COMMANDS) (\<lambda>x. validate_prf_mode profile x)
      else if k = UCI_APP_CONFIG_PREAMBLE_CODE_INDEX then
        with_u8 v (length_policy profile invalid_preamble_code_index UCI_SESSION_REASON_ERROR_INVALID_PREAMBLE_CODE_INDEX) (\<lambda>x. validate_preamble_code_index profile x
            (case uci_sim_session_get_config s UCI_APP_CONFIG_PRF_MODE of
               Some m \<Rightarrow> if length m = 1 then m ! 0 else 0 | None \<Rightarrow> 0))
      else if k = UCI_APP_CONFIG_SFD_ID then
        with_u8 v (length_policy profile invalid_sfd_id UCI_SESSION_REASON_ERROR_INVALID_SFD_ID) (\<lambda>x. validate_sfd_id profile x
            (case uci_sim_session_get_config s UCI_APP_CONFIG_PRF_MODE of
               Some m \<Rightarrow> if length m = 1 then m ! 0 else 0 | None \<Rightarrow> 0))
      else if k = UCI_APP_CONFIG_PSDU_DATA_RATE then
        with_u8 v (length_policy profile invalid_psdu_data_rate UCI_SESSION_REASON_ERROR_INVALID_PSDU_DATA_RATE) (\<lambda>x. validate_psdu_data_rate profile x)
      else if k = UCI_APP_CONFIG_PREAMBLE_DURATION then
        with_u8 v (length_policy profile invalid_preamble_duration UCI_SESSION_REASON_ERROR_INVALID_PREAMBLE_DURATION) (\<lambda>x. validate_preamble_duration profile x)
      else if k = UCI_APP_CONFIG_STS_LENGTH then
        with_u8 v (length_policy profile invalid_sts_length UCI_SESSION_REASON_ERROR_INVALID_STS_LENGTH) (\<lambda>x. validate_sts_length profile x)
      else validate_app_config_keys profile s k v)"

definition validate_app_config_topology ::
    "uci_sim_profile option \<Rightarrow> uci_sim_session \<Rightarrow> u8 \<Rightarrow> bytes \<Rightarrow> uci_sim_validation_result + unit" where
  "validate_app_config_topology profile s k v =
     (if k = UCI_APP_CONFIG_DEVICE_TYPE then
        with_u8 v (length_policy profile invalid_device_type UCI_SESSION_REASON_STATE_CHANGE_WITH_SESSION_MANAGEMENT_COMMANDS) (\<lambda>x. validate_device_type profile x)
      else if k = UCI_APP_CONFIG_MULTI_NODE_MODE then
        with_u8 v (length_policy profile invalid_multi_node_mode UCI_SESSION_REASON_ERROR_INVALID_MULTI_NODE_MODE) (\<lambda>x. validate_multi_node_mode profile x)
      else if k = UCI_APP_CONFIG_CHANNEL_NUMBER then
        with_u8 v (length_policy profile invalid_channel_number UCI_SESSION_REASON_STATE_CHANGE_WITH_SESSION_MANAGEMENT_COMMANDS) (\<lambda>x. validate_channel_number profile x)
      else if k = UCI_APP_CONFIG_NUMBER_OF_CONTROLEES then
        with_u8 v (length_policy profile invalid_num_of_controlees UCI_SESSION_REASON_ERROR_INVALID_NUM_OF_CONTROLEES) (\<lambda>x. validate_number_of_controlees profile x)
      else if k = UCI_APP_CONFIG_MAC_ADDRESS_MODE then
        with_u8 v (length_policy profile invalid_mac_address_mode UCI_SESSION_REASON_ERROR_MAC_ADDRESS_MODE_NOT_SUPPORTED) (\<lambda>x. validate_mac_address_mode profile x)
      else if k = UCI_APP_CONFIG_DEVICE_MAC_ADDRESS then
        validate_device_mac_address profile v
          (case uci_sim_session_get_config s UCI_APP_CONFIG_MAC_ADDRESS_MODE of
             Some m \<Rightarrow> if length m = 1 then m ! 0 else UCI_MAC_ADDRESS_MODE_SHORT
           | None \<Rightarrow> UCI_MAC_ADDRESS_MODE_SHORT)
      else if k = UCI_APP_CONFIG_DST_MAC_ADDRESS then validate_dst_mac_address profile v
      else validate_app_config_phy profile s k v)"

definition uci_sim_validate_session_app_config ::
    "uci_sim_profile option \<Rightarrow> uci_sim_session \<Rightarrow> u8 \<Rightarrow> bytes \<Rightarrow> uci_sim_validation_result + unit" where
  "uci_sim_validate_session_app_config profile s k v =
     (if k \<noteq> UCI_APP_CONFIG_RANGING_INTERVAL then validate_app_config_topology profile s k v
      else if length v \<noteq> 4 then
        Inl (set_invalid_result UCI_STATUS_INVALID_PARAM UCI_SESSION_REASON_ERROR_INVALID_RANGING_INTERVAL
               UCI_SIM_INVALID_CONFIG_SURFACE_IMMEDIATE)
      else validate_ranging_interval_ms profile (read_u32_le v))"

subsection \<open>Starting a session\<close>

text \<open>
  The body of \<open>uci_sim_validate_session_start\<close> in six stretches, in the order of the code. The
  key-rotation rate is stored as two bytes and read into one, so the check sees its low byte.
\<close>

definition start_topology ::
    "uci_sim_profile option \<Rightarrow> uci_sim_session \<Rightarrow> uci_sim_validation_result + unit" where
  "start_topology profile s =
     vbind (validate_ranging_interval_ms profile (uci_sim_session_get_ranging_interval_ms s profile)) (\<lambda>_.
     vbind (validate_device_type_role_pair profile s) (\<lambda>_.
     vbind (validate_multi_node_mode_topology profile s) (\<lambda>_.
     vbind (get_session_pair_config s UCI_APP_CONFIG_SLOT_DURATION
              (policy_of profile invalid_slot_duration UCI_SESSION_REASON_ERROR_SLOT_LENGTH_NOT_SUPPORTED))
       (\<lambda>slot_duration.
     vbind (validate_slot_duration_rstu profile (read_u16_le slot_duration)) (\<lambda>_.
     vbind (get_session_u8_config s UCI_APP_CONFIG_CHANNEL_NUMBER
              (policy_of profile invalid_channel_number
                 UCI_SESSION_REASON_STATE_CHANGE_WITH_SESSION_MANAGEMENT_COMMANDS)) (\<lambda>channel_number.
     validate_channel_number profile channel_number))))))"

definition start_sts ::
    "uci_sim_profile option \<Rightarrow> uci_sim_session \<Rightarrow> uci_sim_validation_result + u8" where
  "start_sts profile s =
     vbind (get_session_u8_config s UCI_APP_CONFIG_STS_CONFIG
              (policy_of profile invalid_sts_config UCI_SESSION_REASON_ERROR_INVALID_STS_CONFIG)) (\<lambda>sts_config.
     vbind (validate_sts_config profile sts_config) (\<lambda>_.
     vbind (validate_sts_dependencies profile s sts_config) (\<lambda>_. Inr sts_config)))"

definition start_reporting ::
    "uci_sim_profile option \<Rightarrow> uci_sim_session \<Rightarrow> uci_sim_validation_result + unit" where
  "start_reporting profile s =
     vbind (validate_result_report_config profile (uci_sim_session_get_result_report_config s)) (\<lambda>_.
     validate_aoa_result_req profile (uci_sim_session_get_aoa_result_req s))"

definition start_phy ::
    "uci_sim_profile option \<Rightarrow> uci_sim_session \<Rightarrow> uci_sim_validation_result + unit" where
  "start_phy profile s =
     vbind (get_session_u8_config s UCI_APP_CONFIG_PRF_MODE
              (policy_of profile invalid_prf_mode
                 UCI_SESSION_REASON_STATE_CHANGE_WITH_SESSION_MANAGEMENT_COMMANDS)) (\<lambda>prf_mode.
     vbind (validate_prf_mode profile prf_mode) (\<lambda>_.
     vbind (get_session_u8_config s UCI_APP_CONFIG_PREAMBLE_CODE_INDEX
              (policy_of profile invalid_preamble_code_index
                 UCI_SESSION_REASON_ERROR_INVALID_PREAMBLE_CODE_INDEX)) (\<lambda>preamble_code_index.
     vbind (validate_preamble_code_index profile preamble_code_index prf_mode) (\<lambda>_.
     vbind (get_session_u8_config s UCI_APP_CONFIG_SFD_ID
              (policy_of profile invalid_sfd_id UCI_SESSION_REASON_ERROR_INVALID_SFD_ID)) (\<lambda>sfd_id.
     vbind (validate_sfd_id profile sfd_id prf_mode) (\<lambda>_.
     vbind (get_session_u8_config s UCI_APP_CONFIG_PSDU_DATA_RATE
              (policy_of profile invalid_psdu_data_rate UCI_SESSION_REASON_ERROR_INVALID_PSDU_DATA_RATE))
       (\<lambda>psdu_data_rate.
     vbind (validate_psdu_data_rate profile psdu_data_rate) (\<lambda>_.
     vbind (get_session_u8_config s UCI_APP_CONFIG_PREAMBLE_DURATION
              (policy_of profile invalid_preamble_duration
                 UCI_SESSION_REASON_ERROR_INVALID_PREAMBLE_DURATION)) (\<lambda>preamble_duration.
     vbind (validate_preamble_duration profile preamble_duration) (\<lambda>_.
     vbind (get_session_u8_config s UCI_APP_CONFIG_STS_LENGTH
              (policy_of profile invalid_sts_length UCI_SESSION_REASON_ERROR_INVALID_STS_LENGTH)) (\<lambda>sts_length.
     validate_sts_length profile sts_length)))))))))))"

definition start_keys ::
    "uci_sim_profile option \<Rightarrow> uci_sim_session \<Rightarrow> u8 \<Rightarrow> uci_sim_validation_result + unit" where
  "start_keys profile s sts_config =
     (let key_failure = policy_of profile invalid_key_rotation
                          UCI_SESSION_REASON_STATE_CHANGE_WITH_SESSION_MANAGEMENT_COMMANDS
      in vbind (get_session_u8_config s UCI_APP_CONFIG_KEY_ROTATION key_failure) (\<lambda>key_rotation.
         vbind (validate_key_rotation profile key_rotation) (\<lambda>_.
         if key_rotation \<noteq> 0 \<and> sts_config \<noteq> 0x01 \<and> sts_config \<noteq> 0x02 \<and> sts_config \<noteq> 0x03 \<and> sts_config \<noteq> 0x04
         then Inl key_failure
         else
         vbind (get_session_pair_config s UCI_APP_CONFIG_KEY_ROTATION_RATE
                  (policy_of profile invalid_key_rotation_rate
                     UCI_SESSION_REASON_STATE_CHANGE_WITH_SESSION_MANAGEMENT_COMMANDS)) (\<lambda>key_rotation_rate.
         vbind (validate_key_rotation_rate profile (key_rotation_rate ! 0)) (\<lambda>_.
         vbind (get_session_u8_config s UCI_APP_CONFIG_NUMBER_OF_STS_SEGMENTS
                  (policy_of profile invalid_number_of_sts_segments
                     UCI_SESSION_REASON_STATE_CHANGE_WITH_SESSION_MANAGEMENT_COMMANDS)) (\<lambda>segments.
         vbind (validate_number_of_sts_segments profile segments) (\<lambda>_.
         vbind (get_session_pair_config s UCI_APP_CONFIG_MAX_RR_RETRY
                  (set_invalid_result UCI_STATUS_INVALID_PARAM
                     UCI_SESSION_REASON_STATE_CHANGE_WITH_SESSION_MANAGEMENT_COMMANDS
                     UCI_SIM_INVALID_CONFIG_SURFACE_IMMEDIATE)) (\<lambda>_. Inr ()))))))))"

definition start_schedule ::
    "uci_sim_profile option \<Rightarrow> uci_sim_session \<Rightarrow> uci_sim_validation_result + unit" where
  "start_schedule profile s =
     vbind (get_session_u8_config s UCI_APP_CONFIG_LINK_LAYER_MODE
              (policy_of profile invalid_link_layer_mode
                 UCI_SESSION_REASON_STATE_CHANGE_WITH_SESSION_MANAGEMENT_COMMANDS)) (\<lambda>link_layer_mode.
     vbind (validate_link_layer_mode profile link_layer_mode) (\<lambda>_.
     vbind (get_session_u8_config s UCI_APP_CONFIG_RANGING_TIME_STRUCT
              (policy_of profile invalid_ranging_time_struct
                 UCI_SESSION_REASON_STATE_CHANGE_WITH_SESSION_MANAGEMENT_COMMANDS)) (\<lambda>ranging_time_struct.
     vbind (validate_ranging_time_struct profile ranging_time_struct) (\<lambda>_.
     vbind (get_session_u8_config s UCI_APP_CONFIG_SCHEDULED_MODE
              (policy_of profile invalid_scheduled_mode
                 UCI_SESSION_REASON_STATE_CHANGE_WITH_SESSION_MANAGEMENT_COMMANDS)) (\<lambda>scheduled_mode.
     vbind (validate_scheduled_mode profile scheduled_mode) (\<lambda>_.
     vbind (get_session_u8_config s UCI_APP_CONFIG_BLOCK_STRIDE_LENGTH
              (policy_of profile invalid_block_stride_length
                 UCI_SESSION_REASON_STATE_CHANGE_WITH_SESSION_MANAGEMENT_COMMANDS)) (\<lambda>block_stride_length.
     vbind (validate_block_stride_length profile block_stride_length) (\<lambda>_.
     vbind (validate_block_stride_context profile s 0xFF []) (\<lambda>_.
     vbind (get_session_u8_config s UCI_APP_CONFIG_SLOTS_PER_RR
              (policy_of profile invalid_slots_per_rr
                 UCI_SESSION_REASON_ERROR_INSUFFICIENT_SLOTS_PER_RR)) (\<lambda>slots_per_rr.
     vbind (validate_slots_per_rr profile slots_per_rr) (\<lambda>_.
     vbind (validate_slot_topology_context profile s 0xFF []) (\<lambda>_.
     validate_cap_size_range_context profile s 0xFF []))))))))))))"

definition uci_sim_validate_session_start ::
    "uci_sim_profile option \<Rightarrow> uci_sim_session \<Rightarrow> uci_sim_validation_result + unit" where
  "uci_sim_validate_session_start profile s =
     vbind (start_topology profile s) (\<lambda>_.
     vbind (start_sts profile s) (\<lambda>sts_config.
     vbind (start_reporting profile s) (\<lambda>_.
     vbind (start_phy profile s) (\<lambda>_.
     vbind (start_keys profile s sts_config) (\<lambda>_.
     vbind (start_schedule profile s) (\<lambda>_.
     vbind (validate_rssi_reporting profile (uci_sim_session_get_rssi_reporting s)) (\<lambda>_.
     validate_ranging_round_usage profile (uci_sim_session_get_ranging_round_usage s))))))))"

text \<open>
  The reads of the stored parameters this function does itself, in its order: the parameter and
  the size in bytes of the variable it is copied to.
\<close>

definition start_reads :: "(u8 \<times> nat) list" where
  "start_reads =
     [(UCI_APP_CONFIG_SLOT_DURATION, 2),        \<comment> \<open>\<open>uint8_t slot_duration[2]\<close>\<close>
      (UCI_APP_CONFIG_CHANNEL_NUMBER, 1),       \<comment> \<open>\<open>uint8_t channel_number\<close>\<close>
      (UCI_APP_CONFIG_STS_CONFIG, 1),
      (UCI_APP_CONFIG_PRF_MODE, 1),
      (UCI_APP_CONFIG_PREAMBLE_CODE_INDEX, 1),
      (UCI_APP_CONFIG_SFD_ID, 1),
      (UCI_APP_CONFIG_PSDU_DATA_RATE, 1),
      (UCI_APP_CONFIG_PREAMBLE_DURATION, 1),
      (UCI_APP_CONFIG_STS_LENGTH, 1),
      (UCI_APP_CONFIG_KEY_ROTATION, 1),
      (UCI_APP_CONFIG_KEY_ROTATION_RATE, 1),    \<comment> \<open>\<open>uint8_t key_rotation_rate\<close>, of a two-byte parameter\<close>
      (UCI_APP_CONFIG_NUMBER_OF_STS_SEGMENTS, 1),
      (UCI_APP_CONFIG_MAX_RR_RETRY, 2),         \<comment> \<open>\<open>uint8_t max_rr_retry[2]\<close>\<close>
      (UCI_APP_CONFIG_LINK_LAYER_MODE, 1),
      (UCI_APP_CONFIG_RANGING_TIME_STRUCT, 1),
      (UCI_APP_CONFIG_SCHEDULED_MODE, 1),
      (UCI_APP_CONFIG_BLOCK_STRIDE_LENGTH, 1),
      (UCI_APP_CONFIG_SLOTS_PER_RR, 1)]"


subsection \<open>When a check of one value passes\<close>

lemma mask_allows_iff: "mask_allows m v \<longleftrightarrow> bit m (unat v)"
  by (simp add: mask_allows_def push_bit_eq_mult and_exp_eq_0_iff_not_bit)

lemma policy_of_Some [simp]: "policy_of (Some p) sel r = sel (policies p)"
  by (simp add: policy_of_def)

lemma bit_mask_bound8: "bit (m :: u8) (unat (v :: u8)) \<Longrightarrow> v < 8"
  using bit_imp_le_length [of m "unat v"] by (simp add: word_less_nat_alt)

lemma bit_mask_bound16: "bit (m :: u16) (unat (v :: u8)) \<Longrightarrow> v < 16"
  using bit_imp_le_length [of m "unat v"] by (simp add: word_less_nat_alt)

named_theorems validate_ok \<open>when a check succeeds, under a given profile\<close>

lemma value_checks_ok [validate_ok]:
  "validate_ranging_interval_ms (Some p) i = Inr u \<longleftrightarrow> ucast (supported_min_ranging_interval_ms (limits p)) \<le> i"
  "validate_slot_duration_rstu (Some p) d = Inr u \<longleftrightarrow> supported_min_slot_duration_rstu (limits p) \<le> d"
  "validate_result_report_config (Some p) v = Inr u \<longleftrightarrow>
     v AND NOT (supported_result_report_config_mask (limits p)) = 0"
  "validate_aoa_result_req (Some p) v = Inr u \<longleftrightarrow> v \<le> supported_aoa_result_req_max (limits p)"
  "validate_prf_mode (Some p) v = Inr u \<longleftrightarrow> v \<le> supported_prf_mode_max (limits p)"
  "validate_psdu_data_rate (Some p) v = Inr u \<longleftrightarrow> v \<le> supported_psdu_data_rate_max (limits p)"
  "validate_preamble_duration (Some p) v = Inr u \<longleftrightarrow> v \<le> supported_preamble_duration_max (limits p)"
  "validate_sts_length (Some p) v = Inr u \<longleftrightarrow> v \<le> supported_sts_length_max (limits p)"
  "validate_key_rotation (Some p) v = Inr u \<longleftrightarrow> v \<le> supported_key_rotation_max (limits p)"
  "validate_key_rotation_rate (Some p) v = Inr u \<longleftrightarrow> v \<le> supported_key_rotation_rate_max (limits p)"
  "validate_number_of_sts_segments (Some p) v = Inr u \<longleftrightarrow> v \<le> supported_number_of_sts_segments_max (limits p)"
  "validate_link_layer_mode (Some p) v = Inr u \<longleftrightarrow> v \<le> supported_link_layer_mode_max (limits p)"
  "validate_block_stride_length (Some p) v = Inr u \<longleftrightarrow> v \<le> supported_max_block_stride_length (limits p)"
  "validate_slots_per_rr (Some p) v = Inr u \<longleftrightarrow>
     supported_min_slots_per_rr (limits p) \<le> v \<and> v \<le> supported_max_slots_per_rr (limits p)"
  "validate_rssi_reporting (Some p) v = Inr u \<longleftrightarrow> v \<le> supported_rssi_reporting_max (limits p)"
  "validate_number_of_controlees (Some p) v = Inr u \<longleftrightarrow> v \<le> supported_max_controlees (limits p)"
  by (auto simp: validate_ranging_interval_ms_def validate_slot_duration_rstu_def
      validate_result_report_config_def validate_aoa_result_req_def validate_prf_mode_def
      validate_psdu_data_rate_def validate_preamble_duration_def validate_sts_length_def
      validate_key_rotation_def validate_key_rotation_rate_def validate_number_of_sts_segments_def
      validate_link_layer_mode_def validate_block_stride_length_def validate_slots_per_rr_def
      validate_rssi_reporting_def validate_number_of_controlees_def)

lemma mask_checks_ok [validate_ok]:
  "validate_sts_config (Some p) v = Inr u \<longleftrightarrow> bit (supported_sts_config_mask (limits p)) (unat v)"
  "validate_ranging_time_struct (Some p) v = Inr u \<longleftrightarrow>
     bit (supported_ranging_time_struct_mask (limits p)) (unat v)"
  "validate_scheduled_mode (Some p) v = Inr u \<longleftrightarrow> bit (supported_scheduled_mode_mask (limits p)) (unat v)"
  "validate_ranging_round_usage (Some p) v = Inr u \<longleftrightarrow>
     bit (supported_ranging_round_usage_mask (limits p)) (unat v)"
  "validate_device_type (Some p) v = Inr u \<longleftrightarrow> bit (supported_device_type_mask (limits p)) (unat v)"
  "validate_mac_address_mode (Some p) v = Inr u \<longleftrightarrow> bit (supported_mac_address_mode_mask (limits p)) (unat v)"
  "validate_multi_node_mode (Some p) v = Inr u \<longleftrightarrow> bit (supported_multi_node_mode_mask (limits p)) (unat v)"
  "validate_channel_number (Some p) v = Inr u \<longleftrightarrow> bit (supported_channel_number_mask (limits p)) (unat v)"
  by (auto simp: validate_sts_config_def validate_ranging_time_struct_def validate_scheduled_mode_def
      validate_ranging_round_usage_def validate_device_type_def validate_mac_address_mode_def
      validate_multi_node_mode_def validate_channel_number_def mask_allows_iff not_le
      dest: bit_mask_bound8 bit_mask_bound16)

lemma preamble_ok [validate_ok]:
  "validate_preamble_code_index (Some p) v m = Inr u \<longleftrightarrow>
     m \<le> supported_prf_mode_max (limits p)
     \<and> (if m = 0 then supported_bprf_preamble_code_index_min (limits p) \<le> v
                      \<and> v \<le> supported_bprf_preamble_code_index_max (limits p)
        else supported_hprf_preamble_code_index_min (limits p) \<le> v
             \<and> v \<le> supported_hprf_preamble_code_index_max (limits p))"
  "validate_sfd_id (Some p) v m = Inr u \<longleftrightarrow>
     m \<le> supported_prf_mode_max (limits p)
     \<and> bit (if m = 0 then supported_bprf_sfd_id_mask (limits p) else supported_hprf_sfd_id_mask (limits p)) (unat v)"
  by (auto simp: validate_preamble_code_index_def validate_sfd_id_def vbind_Inr_iff validate_ok Let_def
      mask_allows_iff not_le dest: bit_mask_bound8)

lemma get_u8_ok [validate_ok]:
  "get_session_u8_config s k f = Inr b \<longleftrightarrow> uci_sim_session_get_config s k = Some [b]"
  by (auto simp: get_session_u8_config_def length_Suc_conv split: option.splits)

lemma get_pair_ok [validate_ok]:
  "get_session_pair_config s k f = Inr v \<longleftrightarrow> uci_sim_session_get_config s k = Some v \<and> length v = 2"
  by (auto simp: get_session_pair_config_def split: option.splits)

lemma require_len_ok [validate_ok]:
  "require_session_config_len q s k n = Inr u \<longleftrightarrow> (\<exists>v. uci_sim_session_get_config s k = Some v \<and> length v = n)"
  "require_session_config_len_one_of q s k a b = Inr u \<longleftrightarrow>
     (\<exists>v. uci_sim_session_get_config s k = Some v \<and> (length v = a \<or> length v = b))"
  by (auto simp: require_session_config_len_def require_session_config_len_one_of_def split: option.splits)

subsection \<open>The declarative specification of a session that may start\<close>

text \<open>Each predicate states what the stored parameters must be, in terms of the configuration map.\<close>

definition role_valid :: "uci_sim_profile \<Rightarrow> (u8 \<Rightarrow> bytes option) \<Rightarrow> bool" where
  "role_valid p cfg \<longleftrightarrow>
     (\<exists>t r. cfg UCI_APP_CONFIG_DEVICE_TYPE = Some [t] \<and> cfg UCI_APP_CONFIG_DEVICE_ROLE = Some [r]
        \<and> bit (supported_device_type_mask (limits p)) (unat t)
        \<and> (r = UCI_DEVICE_ROLE_RESPONDER \<longrightarrow> t = UCI_DEVICE_TYPE_CONTROLEE)
        \<and> (r = UCI_DEVICE_ROLE_INITIATOR \<longrightarrow> t = UCI_DEVICE_TYPE_CONTROLLER))"

definition topology_valid :: "uci_sim_profile \<Rightarrow> (u8 \<Rightarrow> bytes option) \<Rightarrow> bool" where
  "topology_valid p cfg \<longleftrightarrow>
     (\<exists>m a n dev dst.
        cfg UCI_APP_CONFIG_MULTI_NODE_MODE = Some [m] \<and> cfg UCI_APP_CONFIG_MAC_ADDRESS_MODE = Some [a]
        \<and> cfg UCI_APP_CONFIG_NUMBER_OF_CONTROLEES = Some [n]
        \<and> cfg UCI_APP_CONFIG_DEVICE_MAC_ADDRESS = Some dev \<and> cfg UCI_APP_CONFIG_DST_MAC_ADDRESS = Some dst
        \<and> bit (supported_multi_node_mode_mask (limits p)) (unat m)
        \<and> bit (supported_mac_address_mode_mask (limits p)) (unat a)
        \<and> (a = UCI_MAC_ADDRESS_MODE_SHORT \<longrightarrow> length dev = 2)
        \<and> (a = UCI_MAC_ADDRESS_MODE_EXTENDED \<longrightarrow> length dev = 8)
        \<and> 0 < n \<and> n \<le> supported_max_controlees (limits p) \<and> length dst = 2 * unat n
        \<and> (m = 0 \<longrightarrow> n = 1))"

definition sts_valid :: "uci_sim_profile \<Rightarrow> (u8 \<Rightarrow> bytes option) \<Rightarrow> u8 \<Rightarrow> bool" where
  "sts_valid p cfg x \<longleftrightarrow>
     cfg UCI_APP_CONFIG_STS_CONFIG = Some [x] \<and> bit (supported_sts_config_mask (limits p)) (unat x)
     \<and> (x = 0 \<longrightarrow> (\<exists>iv. cfg UCI_APP_CONFIG_STATIC_STS_IV = Some iv \<and> length iv = 8))
     \<and> (x = 3 \<or> x = 4 \<longrightarrow> (\<exists>k. cfg UCI_APP_CONFIG_SESSION_KEY = Some k \<and> (length k = 16 \<or> length k = 32)))
     \<and> (x = 4 \<longrightarrow> (\<exists>k. cfg UCI_APP_CONFIG_SUBSESSION_KEY = Some k \<and> (length k = 16 \<or> length k = 32)))"

definition phy_valid :: "uci_sim_profile \<Rightarrow> (u8 \<Rightarrow> bytes option) \<Rightarrow> bool" where
  "phy_valid p cfg \<longleftrightarrow>
     (\<exists>m c d r t l. cfg UCI_APP_CONFIG_PRF_MODE = Some [m] \<and> cfg UCI_APP_CONFIG_PREAMBLE_CODE_INDEX = Some [c]
        \<and> cfg UCI_APP_CONFIG_SFD_ID = Some [d] \<and> cfg UCI_APP_CONFIG_PSDU_DATA_RATE = Some [r]
        \<and> cfg UCI_APP_CONFIG_PREAMBLE_DURATION = Some [t] \<and> cfg UCI_APP_CONFIG_STS_LENGTH = Some [l]
        \<and> m \<le> supported_prf_mode_max (limits p)
        \<and> (if m = 0 then supported_bprf_preamble_code_index_min (limits p) \<le> c
                         \<and> c \<le> supported_bprf_preamble_code_index_max (limits p)
           else supported_hprf_preamble_code_index_min (limits p) \<le> c
                \<and> c \<le> supported_hprf_preamble_code_index_max (limits p))
        \<and> bit (if m = 0 then supported_bprf_sfd_id_mask (limits p) else supported_hprf_sfd_id_mask (limits p)) (unat d)
        \<and> r \<le> supported_psdu_data_rate_max (limits p) \<and> t \<le> supported_preamble_duration_max (limits p)
        \<and> l \<le> supported_sts_length_max (limits p))"

definition keys_valid :: "uci_sim_profile \<Rightarrow> (u8 \<Rightarrow> bytes option) \<Rightarrow> u8 \<Rightarrow> bool" where
  "keys_valid p cfg x \<longleftrightarrow>
     (\<exists>r lo hi n rr. cfg UCI_APP_CONFIG_KEY_ROTATION = Some [r] \<and> cfg UCI_APP_CONFIG_KEY_ROTATION_RATE = Some [lo, hi]
        \<and> cfg UCI_APP_CONFIG_NUMBER_OF_STS_SEGMENTS = Some [n]
        \<and> cfg UCI_APP_CONFIG_MAX_RR_RETRY = Some rr \<and> length rr = 2
        \<and> r \<le> supported_key_rotation_max (limits p) \<and> (r \<noteq> 0 \<longrightarrow> x \<in> {1, 2, 3, 4})
        \<and> lo \<le> supported_key_rotation_rate_max (limits p)
        \<and> n \<le> supported_number_of_sts_segments_max (limits p))"

text \<open>The responder's slot lies in the round.\<close>

definition slots_valid :: "uci_sim_profile \<Rightarrow> (u8 \<Rightarrow> bytes option) \<Rightarrow> bool" where
  "slots_valid p cfg \<longleftrightarrow>
     (\<exists>n i. cfg UCI_APP_CONFIG_SLOTS_PER_RR = Some [n] \<and> cfg UCI_APP_CONFIG_RESPONDER_SLOT_INDEX = Some [i]
        \<and> supported_min_slots_per_rr (limits p) \<le> n \<and> n \<le> supported_max_slots_per_rr (limits p) \<and> i < n)"

text \<open>A block stride needs block-based, time-scheduled ranging.\<close>

definition stride_valid :: "uci_sim_profile \<Rightarrow> (u8 \<Rightarrow> bytes option) \<Rightarrow> bool" where
  "stride_valid p cfg \<longleftrightarrow>
     (\<exists>b. cfg UCI_APP_CONFIG_BLOCK_STRIDE_LENGTH = Some [b] \<and> b \<le> supported_max_block_stride_length (limits p)
        \<and> (b \<noteq> 0 \<longrightarrow> cfg UCI_APP_CONFIG_RANGING_TIME_STRUCT = Some [1]
                    \<and> cfg UCI_APP_CONFIG_SCHEDULED_MODE = Some [UCI_SCHEDULED_MODE_TIME_SCHEDULED]))"

text \<open>A contention-access period is ordered, and needs contention-based ranging with room for it.\<close>

definition cap_valid :: "(u8 \<Rightarrow> bytes option) \<Rightarrow> bool" where
  "cap_valid cfg \<longleftrightarrow>
     (\<exists>hi lo. cfg UCI_APP_CONFIG_CAP_SIZE_RANGE = Some [hi, lo] \<and> lo \<le> hi
        \<and> (hi \<noteq> 0 \<longrightarrow> cfg UCI_APP_CONFIG_SCHEDULED_MODE = Some [UCI_SCHEDULED_MODE_CONTENTION_BASED]
            \<and> (\<exists>n. cfg UCI_APP_CONFIG_SLOTS_PER_RR = Some [n] \<and> hi < n)))"

definition schedule_valid :: "uci_sim_profile \<Rightarrow> (u8 \<Rightarrow> bytes option) \<Rightarrow> bool" where
  "schedule_valid p cfg \<longleftrightarrow>
     (\<exists>l t m. cfg UCI_APP_CONFIG_LINK_LAYER_MODE = Some [l] \<and> cfg UCI_APP_CONFIG_RANGING_TIME_STRUCT = Some [t]
        \<and> cfg UCI_APP_CONFIG_SCHEDULED_MODE = Some [m]
        \<and> l \<le> supported_link_layer_mode_max (limits p)
        \<and> bit (supported_ranging_time_struct_mask (limits p)) (unat t)
        \<and> bit (supported_scheduled_mode_mask (limits p)) (unat m))
     \<and> stride_valid p cfg \<and> slots_valid p cfg \<and> cap_valid cfg"

definition start_valid :: "uci_sim_profile \<Rightarrow> uci_sim_session \<Rightarrow> bool" where
  "start_valid p s \<longleftrightarrow>
     (let cfg = uci_sim_session_get_config s in
      ucast (supported_min_ranging_interval_ms (limits p)) \<le> uci_sim_session_get_ranging_interval_ms s (Some p)
      \<and> role_valid p cfg \<and> topology_valid p cfg
      \<and> (\<exists>v. cfg UCI_APP_CONFIG_SLOT_DURATION = Some v \<and> length v = 2
            \<and> supported_min_slot_duration_rstu (limits p) \<le> read_u16_le v)
      \<and> (\<exists>c. cfg UCI_APP_CONFIG_CHANNEL_NUMBER = Some [c]
            \<and> bit (supported_channel_number_mask (limits p)) (unat c))
      \<and> (\<exists>x. sts_valid p cfg x \<and> keys_valid p cfg x) \<and> phy_valid p cfg \<and> schedule_valid p cfg
      \<and> uci_sim_session_get_result_report_config s AND NOT (supported_result_report_config_mask (limits p)) = 0
      \<and> uci_sim_session_get_aoa_result_req s \<le> supported_aoa_result_req_max (limits p)
      \<and> uci_sim_session_get_rssi_reporting s \<le> supported_rssi_reporting_max (limits p)
      \<and> bit (supported_ranging_round_usage_mask (limits p)) (unat (uci_sim_session_get_ranging_round_usage s)))"

subsection \<open>The chain of checks meets the specification\<close>

lemma lookup_Inr_iff:
  "(case c of None \<Rightarrow> Inl f | Some v \<Rightarrow> k v) = Inr u \<longleftrightarrow> (\<exists>v. c = Some v \<and> k v = Inr u)"
  by (cases c) simp_all

lemma guard_Inr_iff: "(if b then Inl f else r) = Inr u \<longleftrightarrow> \<not> b \<and> r = Inr u"
  by simp

lemma skip_Inr_iff: "(if b then Inr () else r) = Inr u \<longleftrightarrow> b \<or> r = Inr u"
  by simp

lemma role_pair_ok:
  "validate_device_type_role_pair (Some p) s = Inr u \<longleftrightarrow> role_valid p (uci_sim_session_get_config s)"
  by (auto simp: validate_device_type_role_pair_def role_valid_def vbind_Inr_iff validate_ok Let_def)

lemma mac_ok:
  "validate_device_mac_address (Some p) v a = Inr u \<and> bit (supported_mac_address_mode_mask (limits p)) (unat a) \<longleftrightarrow>
     bit (supported_mac_address_mode_mask (limits p)) (unat a)
     \<and> (a = UCI_MAC_ADDRESS_MODE_SHORT \<longrightarrow> length v = 2) \<and> (a = UCI_MAC_ADDRESS_MODE_EXTENDED \<longrightarrow> length v = 8)"
  by (auto simp: validate_device_mac_address_def Let_def validate_ok)

lemma dst_ok:
  "validate_dst_mac_address (Some p) v = Inr u \<longleftrightarrow>
     (\<exists>n. length v = 2 * n \<and> 0 < n \<and> n \<le> unat (supported_max_controlees (limits p)))"
  by (cases v) (auto simp: validate_dst_mac_address_def Let_def elim!: evenE)

lemma topology_ok:
  "validate_multi_node_mode_topology (Some p) s = Inr u \<longleftrightarrow> topology_valid p (uci_sim_session_get_config s)"
proof -
  let ?cfg = "uci_sim_session_get_config s"
  have count: "(\<exists>k. length dst = 2 * k \<and> 0 < k \<and> k \<le> unat (supported_max_controlees (limits p)))
      \<and> length dst div 2 = unat n \<and> n \<le> supported_max_controlees (limits p)
      \<and> (m = 0 \<longrightarrow> n = 1 \<and> length dst = 2)
    \<longleftrightarrow> 0 < n \<and> n \<le> supported_max_controlees (limits p) \<and> length dst = 2 * unat n \<and> (m = 0 \<longrightarrow> n = 1)"
    for dst :: bytes and n :: u8 and m :: u8
    by (auto simp: word_le_nat_alt word_less_nat_alt)
  have "validate_multi_node_mode_topology (Some p) s = Inr u \<longleftrightarrow>
    (\<exists>m a n dev dst.
        ?cfg UCI_APP_CONFIG_MULTI_NODE_MODE = Some [m] \<and> ?cfg UCI_APP_CONFIG_MAC_ADDRESS_MODE = Some [a]
        \<and> ?cfg UCI_APP_CONFIG_NUMBER_OF_CONTROLEES = Some [n]
        \<and> ?cfg UCI_APP_CONFIG_DEVICE_MAC_ADDRESS = Some dev \<and> ?cfg UCI_APP_CONFIG_DST_MAC_ADDRESS = Some dst
        \<and> bit (supported_multi_node_mode_mask (limits p)) (unat m)
        \<and> (validate_device_mac_address (Some p) dev a = Inr u \<and> bit (supported_mac_address_mode_mask (limits p)) (unat a))
        \<and> ((\<exists>k. length dst = 2 * k \<and> 0 < k \<and> k \<le> unat (supported_max_controlees (limits p)))
           \<and> length dst div 2 = unat n \<and> n \<le> supported_max_controlees (limits p)
           \<and> (m = 0 \<longrightarrow> n = 1 \<and> length dst = 2)))"
    unfolding validate_multi_node_mode_topology_def Let_def
    by (auto simp: vbind_Inr_iff validate_ok dst_ok lookup_Inr_iff guard_Inr_iff)
  then show ?thesis unfolding topology_valid_def mac_ok count by simp
qed

lemma length_2_iff: "length v = 2 \<longleftrightarrow> (\<exists>a b. v = [a, b])"
  by (auto simp: numeral_2_eq_2 length_Suc_conv)

lemma pair_bind_ok:
  "vbind (get_session_pair_config s k f) g = Inr u \<longleftrightarrow>
     (\<exists>a b. uci_sim_session_get_config s k = Some [a, b] \<and> g [a, b] = Inr u)"
  by (auto simp: vbind_Inr_iff get_pair_ok length_2_iff)

lemma override_none [simp]:
  "k \<noteq> 0xFF \<Longrightarrow> override_u8 s k 0xFF [] f = get_session_u8_config s k f"
  by (simp add: override_u8_def)

lemma slot_context_ok:
  "validate_slot_topology_context (Some p) s 0xFF [] = Inr u \<longleftrightarrow> slots_valid p (uci_sim_session_get_config s)"
  by (auto simp: validate_slot_topology_context_def slots_valid_def vbind_Inr_iff validate_ok guard_Inr_iff
      Let_def not_le)

lemma stride_context_ok:
  "validate_block_stride_context (Some p) s 0xFF [] = Inr u \<longleftrightarrow> stride_valid p (uci_sim_session_get_config s)"
  by (auto simp: validate_block_stride_context_def stride_valid_def vbind_Inr_iff validate_ok Let_def)

lemma le_pred_iff: "n \<noteq> 0 \<Longrightarrow> hi \<le> n - 1 \<longleftrightarrow> hi < (n :: u8)"
proof -
  assume "n \<noteq> 0"
  then have "unat (n - 1) = unat n - 1" by (simp add: unat_minus_one)
  moreover have "0 < unat n" using \<open>n \<noteq> 0\<close> by (simp add: unat_gt_0)
  ultimately show ?thesis by (auto simp: word_le_nat_alt word_less_nat_alt)
qed

lemma cap_context_ok:
  "validate_cap_size_range_context (Some p) s 0xFF [] = Inr u \<longleftrightarrow> cap_valid (uci_sim_session_get_config s)"
proof -
  let ?cfg = "uci_sim_session_get_config s"
  have "validate_cap_size_range_context (Some p) s 0xFF [] = Inr u \<longleftrightarrow>
    (\<exists>hi lo. ?cfg UCI_APP_CONFIG_CAP_SIZE_RANGE = Some [hi, lo] \<and> lo \<le> hi
       \<and> (lo = 0 \<and> hi = 0 \<or> ?cfg UCI_APP_CONFIG_SCHEDULED_MODE = Some [UCI_SCHEDULED_MODE_CONTENTION_BASED]
            \<and> (\<exists>n. ?cfg UCI_APP_CONFIG_SLOTS_PER_RR = Some [n] \<and> n \<noteq> 0 \<and> hi \<le> n - 1)))"
    by (simp add: validate_cap_size_range_context_def pair_bind_ok Let_def guard_Inr_iff skip_Inr_iff
        vbind_Inr_iff validate_ok not_less) (auto simp: length_2_iff)
  moreover have room: "n \<noteq> 0 \<and> hi \<le> n - 1 \<longleftrightarrow> hi < n" for n hi :: u8
    using le_pred_iff [of n hi] by (cases "n = 0") auto
  moreover have "lo \<le> hi \<and> (lo = 0 \<and> hi = 0 \<or> P) \<longleftrightarrow> lo \<le> hi \<and> (hi \<noteq> 0 \<longrightarrow> P)" for lo hi :: u8 and P
    by (cases "hi = 0") auto
  ultimately show ?thesis unfolding cap_valid_def by (simp only:)
qed

lemma start_topology_ok:
  "start_topology (Some p) s = Inr u \<longleftrightarrow>
     (let cfg = uci_sim_session_get_config s in
      ucast (supported_min_ranging_interval_ms (limits p)) \<le> uci_sim_session_get_ranging_interval_ms s (Some p)
      \<and> role_valid p cfg \<and> topology_valid p cfg
      \<and> (\<exists>v. cfg UCI_APP_CONFIG_SLOT_DURATION = Some v \<and> length v = 2
            \<and> supported_min_slot_duration_rstu (limits p) \<le> read_u16_le v)
      \<and> (\<exists>c. cfg UCI_APP_CONFIG_CHANNEL_NUMBER = Some [c]
            \<and> bit (supported_channel_number_mask (limits p)) (unat c)))"
  by (auto simp: start_topology_def vbind_Inr_iff validate_ok role_pair_ok topology_ok Let_def)

lemma start_sts_ok: "start_sts (Some p) s = Inr x \<longleftrightarrow> sts_valid p (uci_sim_session_get_config s) x"
  by (auto simp: start_sts_def sts_valid_def validate_sts_dependencies_def vbind_Inr_iff validate_ok
      split: if_splits)

lemma start_phy_ok: "start_phy (Some p) s = Inr u \<longleftrightarrow> phy_valid p (uci_sim_session_get_config s)"
  by (auto simp: start_phy_def phy_valid_def vbind_Inr_iff validate_ok)

lemma start_keys_ok: "start_keys (Some p) s x = Inr u \<longleftrightarrow> keys_valid p (uci_sim_session_get_config s) x"
  by (auto simp: start_keys_def keys_valid_def vbind_Inr_iff validate_ok guard_Inr_iff Let_def length_2_iff)

lemma start_schedule_ok: "start_schedule (Some p) s = Inr u \<longleftrightarrow> schedule_valid p (uci_sim_session_get_config s)"
proof -
  let ?cfg = "uci_sim_session_get_config s"
  have stride: "stride_valid p ?cfg \<Longrightarrow>
      \<exists>b. ?cfg UCI_APP_CONFIG_BLOCK_STRIDE_LENGTH = Some [b] \<and> b \<le> supported_max_block_stride_length (limits p)"
    and slots: "slots_valid p ?cfg \<Longrightarrow>
      \<exists>n. ?cfg UCI_APP_CONFIG_SLOTS_PER_RR = Some [n] \<and> supported_min_slots_per_rr (limits p) \<le> n
        \<and> n \<le> supported_max_slots_per_rr (limits p)"
    by (auto simp: stride_valid_def slots_valid_def)
  have "start_schedule (Some p) s = Inr u \<longleftrightarrow>
     (\<exists>l t m. ?cfg UCI_APP_CONFIG_LINK_LAYER_MODE = Some [l] \<and> ?cfg UCI_APP_CONFIG_RANGING_TIME_STRUCT = Some [t]
        \<and> ?cfg UCI_APP_CONFIG_SCHEDULED_MODE = Some [m]
        \<and> l \<le> supported_link_layer_mode_max (limits p)
        \<and> bit (supported_ranging_time_struct_mask (limits p)) (unat t)
        \<and> bit (supported_scheduled_mode_mask (limits p)) (unat m))
     \<and> (\<exists>b. ?cfg UCI_APP_CONFIG_BLOCK_STRIDE_LENGTH = Some [b] \<and> b \<le> supported_max_block_stride_length (limits p))
     \<and> stride_valid p ?cfg
     \<and> (\<exists>n. ?cfg UCI_APP_CONFIG_SLOTS_PER_RR = Some [n] \<and> supported_min_slots_per_rr (limits p) \<le> n
        \<and> n \<le> supported_max_slots_per_rr (limits p))
     \<and> slots_valid p ?cfg \<and> cap_valid ?cfg"
    unfolding start_schedule_def vbind_Inr_iff validate_ok slot_context_ok stride_context_ok cap_context_ok
    by blast
  with stride slots show ?thesis unfolding schedule_valid_def by blast
qed

lemma session_start_ok:
  "uci_sim_validate_session_start (Some p) s = Inr u \<longleftrightarrow> start_valid p s"
  unfolding uci_sim_validate_session_start_def vbind_Inr_iff start_topology_ok start_sts_ok start_phy_ok
    start_keys_ok start_schedule_ok start_reporting_def validate_ok start_valid_def Let_def
  by blast

subsection \<open>A failure never reports OK\<close>

definition fails_ok :: "uci_sim_validation_result + 'a \<Rightarrow> bool" where
  "fails_ok r \<longleftrightarrow> (\<forall>f. r = Inl f \<longrightarrow> inv_status f \<noteq> UCI_STATUS_OK)"

lemma fails_ok_simps [simp]:
  "fails_ok (Inr x)" "fails_ok (Inl f) \<longleftrightarrow> inv_status f \<noteq> UCI_STATUS_OK"
  by (simp_all add: fails_ok_def)

lemma fails_ok_vbind [intro!]: "fails_ok r \<Longrightarrow> (\<And>x. fails_ok (k x)) \<Longrightarrow> fails_ok (vbind r k)"
  by (cases r) (auto simp: fails_ok_def)

lemma fails_ok_with_u8 [intro!]:
  "inv_status f \<noteq> UCI_STATUS_OK \<Longrightarrow> (\<And>x. fails_ok (k x)) \<Longrightarrow> fails_ok (with_u8 v f k)"
  by (simp add: with_u8_def)

lemma policy_status:
  assumes "profile_ok p"
  shows "\<forall>q\<in>set (policy_list (policies p)). inv_status q \<noteq> UCI_STATUS_OK"
  using assms by (simp add: profile_ok_def)

lemmas policy_statuses = policy_status [unfolded policy_list_def, simplified]

lemma set_invalid_status [simp]: "inv_status (set_invalid_result a b c) = a"
  by (simp add: set_invalid_result_def)

lemma length_policy_status [simp]: "inv_status (length_policy q sel r) = UCI_STATUS_INVALID_PARAM"
  by (simp add: length_policy_def)

lemma value_checks_fail:
  assumes "profile_ok p"
  shows "fails_ok (validate_ranging_interval_ms (Some p) i)" "fails_ok (validate_slot_duration_rstu (Some p) d)"
    "fails_ok (validate_result_report_config (Some p) v)" "fails_ok (validate_sts_config (Some p) v)"
    "fails_ok (validate_aoa_result_req (Some p) v)" "fails_ok (validate_prf_mode (Some p) v)"
    "fails_ok (validate_preamble_code_index (Some p) v m)" "fails_ok (validate_sfd_id (Some p) v m)"
    "fails_ok (validate_psdu_data_rate (Some p) v)" "fails_ok (validate_preamble_duration (Some p) v)"
    "fails_ok (validate_sts_length (Some p) v)" "fails_ok (validate_key_rotation (Some p) v)"
    "fails_ok (validate_key_rotation_rate (Some p) v)" "fails_ok (validate_number_of_sts_segments (Some p) v)"
    "fails_ok (validate_link_layer_mode (Some p) v)" "fails_ok (validate_ranging_time_struct (Some p) v)"
    "fails_ok (validate_scheduled_mode (Some p) v)" "fails_ok (validate_block_stride_length (Some p) v)"
    "fails_ok (validate_slots_per_rr (Some p) v)" "fails_ok (validate_rssi_reporting (Some p) v)"
    "fails_ok (validate_ranging_round_usage (Some p) v)" "fails_ok (validate_device_type (Some p) v)"
    "fails_ok (validate_number_of_controlees (Some p) v)" "fails_ok (validate_mac_address_mode (Some p) v)"
    "fails_ok (validate_device_mac_address (Some p) bs m)" "fails_ok (validate_dst_mac_address (Some p) bs)"
    "fails_ok (validate_multi_node_mode (Some p) v)" "fails_ok (validate_channel_number (Some p) v)"
  using policy_statuses [OF assms]
  by (auto simp: validate_ranging_interval_ms_def validate_slot_duration_rstu_def
      validate_result_report_config_def validate_aoa_result_req_def validate_prf_mode_def
      validate_psdu_data_rate_def validate_preamble_duration_def validate_sts_length_def
      validate_key_rotation_def validate_key_rotation_rate_def validate_number_of_sts_segments_def
      validate_link_layer_mode_def validate_block_stride_length_def validate_slots_per_rr_def
      validate_rssi_reporting_def validate_number_of_controlees_def validate_sts_config_def
      validate_ranging_time_struct_def validate_scheduled_mode_def validate_ranging_round_usage_def
      validate_device_type_def validate_mac_address_mode_def validate_multi_node_mode_def
      validate_channel_number_def validate_preamble_code_index_def validate_sfd_id_def
      validate_device_mac_address_def validate_dst_mac_address_def Let_def)

lemma reads_fail [intro!]:
  "inv_status f \<noteq> UCI_STATUS_OK \<Longrightarrow> fails_ok (get_session_u8_config s k f)"
  "inv_status f \<noteq> UCI_STATUS_OK \<Longrightarrow> fails_ok (get_session_pair_config s k f)"
  "inv_status f \<noteq> UCI_STATUS_OK \<Longrightarrow> fails_ok (override_u8 s k o' v f)"
  by (auto simp: get_session_u8_config_def get_session_pair_config_def override_u8_def split: option.splits)

lemma contexts_fail:
  assumes "profile_ok p"
  shows "fails_ok (validate_slot_topology_context (Some p) s k v)"
    and "fails_ok (validate_block_stride_context (Some p) s k v)"
    and "fails_ok (validate_cap_size_range_context (Some p) s k v)"
  using policy_statuses [OF assms] value_checks_fail [OF assms]
  by (auto simp: validate_slot_topology_context_def validate_block_stride_context_def
      validate_cap_size_range_context_def Let_def)

lemma app_config_fails:
  assumes "profile_ok p"
  shows "fails_ok (uci_sim_validate_session_app_config (Some p) s k v)"
proof -
  note base = value_checks_fail [OF assms] contexts_fail [OF assms]
  have schedule: "fails_ok (validate_app_config_schedule (Some p) s k v)"
    using base by (auto simp: validate_app_config_schedule_def)
  have keys: "fails_ok (validate_app_config_keys (Some p) s k v)"
    using base schedule by (auto simp: validate_app_config_keys_def)
  have phy: "fails_ok (validate_app_config_phy (Some p) s k v)"
    using base keys by (auto simp: validate_app_config_phy_def)
  have "fails_ok (validate_app_config_topology (Some p) s k v)"
    using base phy by (auto simp: validate_app_config_topology_def)
  with base show ?thesis by (simp add: uci_sim_validate_session_app_config_def)
qed

lemma session_start_fails:
  assumes ok: "profile_ok p"
  shows "fails_ok (uci_sim_validate_session_start (Some p) s)"
proof -
  note base = value_checks_fail [OF ok] contexts_fail [OF ok]
  note pol = policy_statuses [OF ok]
  have role: "fails_ok (validate_device_type_role_pair (Some p) s)"
    using base pol by (auto simp: validate_device_type_role_pair_def Let_def)
  have topo: "fails_ok (validate_multi_node_mode_topology (Some p) s)"
    using base pol by (auto simp: validate_multi_node_mode_topology_def Let_def split: option.splits)
  have sts: "fails_ok (validate_sts_dependencies (Some p) s x)" for x
    using pol by (auto simp: validate_sts_dependencies_def require_session_config_len_def
        require_session_config_len_one_of_def split: option.splits)
  have "fails_ok (start_topology (Some p) s)"
    using base pol role topo unfolding start_topology_def by (intro fails_ok_vbind reads_fail) auto
  moreover have "fails_ok (start_sts (Some p) s)"
    using base pol sts unfolding start_sts_def by (intro fails_ok_vbind reads_fail) auto
  moreover have "fails_ok (start_reporting (Some p) s)"
    using base unfolding start_reporting_def by (intro fails_ok_vbind)
  moreover have "fails_ok (start_phy (Some p) s)"
    using base pol unfolding start_phy_def by (intro fails_ok_vbind reads_fail) auto
  moreover have "fails_ok (start_keys (Some p) s x)" for x
    using base pol unfolding start_keys_def Let_def by (intro fails_ok_vbind reads_fail) auto
  moreover have "fails_ok (start_schedule (Some p) s)"
    using base pol unfolding start_schedule_def by (intro fails_ok_vbind reads_fail) auto
  ultimately show ?thesis
    using base unfolding uci_sim_validate_session_start_def by (intro fails_ok_vbind) auto
qed

subsection \<open>Properties\<close>

text \<open>
  C6. The checks before ranging, one after the other over three hundred lines, accept a session
  exactly when its stored parameters meet the specification start_valid: interval, roles,
  topology and addresses, slot, channel, STS with its keys, PHY, key rotation, schedule, block
  stride, slots, contention period, reports.
\<close>

theorem start_validation_exact:
  "uci_sim_validate_session_start (Some p) s = Inr () \<longleftrightarrow> start_valid p s"
  by (rule session_start_ok)

end
