(* ===== verification/Handlers_Core.thy ===== *)
theory Handlers_Core
  imports Streaming Validation
begin

text \<open>
  \<open>src/handlers/uci_sim_handlers.c\<close>, first part: responses and notifications, the two vendor
  groups and the CORE group. A handler takes the device, the request and the result so far and
  returns its code with both updated. A loop over the request's bytes is a function of the bytes
  not yet read; its first argument counts the entries still expected, so it ends. \<open>answers\<close>
  states what every COMMAND gets: one response with the request's group and opcode, whose first
  byte is OK exactly when the handler succeeds.
\<close>

subsection \<open>Responses and notifications\<close>

definition respond :: "uci_sim_result \<Rightarrow> u8 \<Rightarrow> u8 \<Rightarrow> bytes \<Rightarrow> uci_sim_result" where
  "respond r g o' bs =
     r\<lparr>response := Some \<lparr>mt = UCI_MT_RESPONSE, pbf = UCI_PBF_COMPLETE, gid = g, oid = o', payload = bs\<rparr>\<rparr>"

definition make_status_response :: "uci_sim_packet \<Rightarrow> uci_sim_result \<Rightarrow> u8 \<Rightarrow> uci_sim_result" where
  "make_status_response request r status = respond r (gid request) (oid request) [status]"

definition deliver :: "uci_sim_device \<Rightarrow> u8 \<Rightarrow> u8 \<Rightarrow> bytes \<Rightarrow> uci_sim_result \<Rightarrow> uci_sim_device \<times> uci_sim_result" where
  "deliver d g o' bs r =
     snd (uci_sim_device_deliver_notification d
       \<lparr>mt = UCI_MT_NOTIFICATION, pbf = UCI_PBF_COMPLETE, gid = g, oid = o', payload = bs\<rparr> r)"

definition emit_session_status_ntf_with_reason ::
    "uci_sim_device \<Rightarrow> u32 \<Rightarrow> u8 \<Rightarrow> u8 \<Rightarrow> uci_sim_result \<Rightarrow> uci_sim_device \<times> uci_sim_result" where
  "emit_session_status_ntf_with_reason d sid st reason r =
     deliver d UCI_GID_SESSION_CONFIG UCI_SESSION_STATUS_NTF (write_u32_le sid @ [st, reason]) r"

definition emit_session_status_ntf ::
    "uci_sim_device \<Rightarrow> u32 \<Rightarrow> u8 \<Rightarrow> uci_sim_result \<Rightarrow> uci_sim_device \<times> uci_sim_result" where
  "emit_session_status_ntf d sid st r =
     emit_session_status_ntf_with_reason d sid st (session_status_reason_code (effective_profile d)) r"

definition emit_device_status_ntf ::
    "uci_sim_device \<Rightarrow> u8 \<Rightarrow> uci_sim_result \<Rightarrow> uci_sim_device \<times> uci_sim_result" where
  "emit_device_status_ntf d st r = deliver d UCI_GID_CORE UCI_CORE_DEVICE_STATUS_NTF [st] r"

definition emit_core_generic_error_ntf ::
    "uci_sim_device \<Rightarrow> u8 \<Rightarrow> uci_sim_result \<Rightarrow> uci_sim_device \<times> uci_sim_result" where
  "emit_core_generic_error_ntf d status r = deliver d UCI_GID_CORE UCI_CORE_GENERIC_ERROR [status] r"

definition emit_logical_link_notification ::
    "uci_sim_device \<Rightarrow> uci_sim_result \<Rightarrow> u32 \<Rightarrow> u8 \<Rightarrow> u8 \<Rightarrow> u8 \<Rightarrow> uci_sim_device \<times> uci_sim_result" where
  "emit_logical_link_notification d r sid o' link_id reason_or_credit =
     deliver d UCI_GID_SESSION_CONTROL o' (write_u32_le sid @ [link_id, reason_or_credit]) r"

type_synonym handler = "uci_sim_device \<Rightarrow> uci_sim_packet \<Rightarrow> uci_sim_result \<Rightarrow> rc \<times> uci_sim_device \<times> uci_sim_result"

text \<open>\<open>make_status_response(...); return -1\<close> and \<open>...; return 0\<close>\<close>

definition refuse :: "u8 \<Rightarrow> handler" where
  "refuse status d request r = (RC_FAIL, d, make_status_response request r status)"

definition accept :: "u8 \<Rightarrow> u8 \<Rightarrow> bytes \<Rightarrow> uci_sim_device \<Rightarrow> uci_sim_result \<Rightarrow> rc \<times> uci_sim_device \<times> uci_sim_result" where
  "accept g o' bs d r = (RC_OK, d, respond r g o' bs)"

subsection \<open>The vendor groups\<close>

definition handle_qorvo_ext2 :: handler where
  "handle_qorvo_ext2 d request r =
     (if oid request = UCI_OID_QORVO_CORE_GET_DEVICE_STATS then
        accept UCI_GID_QORVO_EXT2 UCI_OID_QORVO_CORE_GET_DEVICE_STATS
          (UCI_STATUS_OK # write_u16_le (dev_stats_temperature d)) d r
      else refuse UCI_STATUS_UNKNOWN_OID d request r)"

text \<open>
  The loop over the requested calibration keys: an entry that does not fit the response is
  skipped; None is a malformed request.
\<close>

fun calibration_loop :: "nat \<Rightarrow> bytes \<Rightarrow> bytes \<Rightarrow> u16 \<Rightarrow> (bytes \<times> bytes \<times> u16) option" where
  "calibration_loop 0 rest acc returned = Some (rest, acc, returned)"
| "calibration_loop (Suc k) rest acc returned =
     (case rest of
        [] \<Rightarrow> None
      | key_len # rest' \<Rightarrow>
          if unat key_len > length rest' then None
          else if 3 + length acc + 1 + unat key_len + 1 + 1 + 1 > 255 then
            calibration_loop k (drop (unat key_len) rest') acc returned
          else
            calibration_loop k (drop (unat key_len) rest')
              (acc @ key_len # take (unat key_len) rest' @ [0, 1, 0xFF]) (returned + 1))"

definition handle_qorvo_mac :: handler where
  "handle_qorvo_mac d request r =
     (if oid request = UCI_OID_QORVO_MAC_GET_CALIBRATIONS then
        let answer = respond r UCI_GID_QORVO_MAC UCI_OID_QORVO_MAC_GET_CALIBRATIONS;
            malformed = (RC_FAIL, d, answer [UCI_STATUS_INVALID_MSG_SIZE, 0x00, 0x00])
        in if payload_len request < 2 then malformed
           else
             (case calibration_loop (unat (read_u16_le (payload request))) (drop 2 (payload request)) [] 0 of
                None \<Rightarrow> malformed
              | Some (rest, acc, returned) \<Rightarrow>
                  if rest \<noteq> [] then malformed
                  else (RC_OK, d, answer (UCI_STATUS_OK # write_u16_le returned @ acc)))
      else if oid request = UCI_OID_QORVO_MAC_SET_CALIBRATIONS then
        (RC_OK, d, make_status_response request r UCI_STATUS_OK)
      else refuse UCI_STATUS_UNKNOWN_OID d request r)"

subsection \<open>Core configuration\<close>

text \<open>
  One turn per parameter of CORE_SET_CONFIG. The result is the device, the pairs of id and
  status written so far, whether one of them failed and how many entries were not reached.
\<close>

fun core_set_loop ::
    "nat \<Rightarrow> bytes \<Rightarrow> uci_sim_device \<Rightarrow> bytes \<Rightarrow> bool \<Rightarrow> uci_sim_device \<times> bytes \<times> bool \<times> nat" where
  "core_set_loop 0 rest d acc any_failed = (d, acc, any_failed, 0)"
| "core_set_loop (Suc k) rest d acc any_failed =
     (case rest of
        cid # value_len # rest' \<Rightarrow>
          if unat value_len > length rest' \<or> 2 + length acc + 2 > UCI_SIM_MAX_PAYLOAD then
            (d, acc, any_failed, Suc k)
          else
            let v = take (unat value_len) rest'; next = drop (unat value_len) rest'
            in if cid = UCI_DEVICE_CONFIG_DEVICE_STATE then
                 core_set_loop k next d (acc @ [cid, UCI_STATUS_INVALID_PARAM]) True
               else if \<not> uci_sim_profile_supports_core_config (dev_profile d) cid then
                 core_set_loop k next d (acc @ [cid, UCI_STATUS_INVALID_PARAM]) True
               else (case uci_sim_device_store_config d cid v of
                       None \<Rightarrow> core_set_loop k next d (acc @ [cid, UCI_STATUS_FAILED]) True
                     | Some d' \<Rightarrow> core_set_loop k next d' (acc @ [cid, UCI_STATUS_OK]) any_failed)
      | _ \<Rightarrow> (d, acc, any_failed, Suc k))"

text \<open>
  One turn per id of CORE_GET_CONFIG: the entries read so far, their number, and whether the
  loop was left through one of its error branches.
\<close>

fun core_get_loop :: "nat \<Rightarrow> bytes \<Rightarrow> uci_sim_device \<Rightarrow> bytes \<Rightarrow> u8 \<Rightarrow> bytes \<times> u8 \<times> bool" where
  "core_get_loop 0 rest d acc processed = (acc, processed, False)"
| "core_get_loop (Suc k) rest d acc processed =
     (case rest of
        [] \<Rightarrow> (acc, processed, False)
      | cid # rest' \<Rightarrow>
          if \<not> uci_sim_profile_supports_core_config (dev_profile d) cid then (acc, processed, True)
          else (case uci_sim_device_get_config d cid of
                  None \<Rightarrow> (acc, processed, True)
                | Some v \<Rightarrow>
                    if 2 + length acc + 2 + length v > UCI_SIM_MAX_PAYLOAD then (acc, processed, True)
                    else core_get_loop k rest' d (acc @ cid # of_nat (length v) # v) (processed + 1)))"

definition handle_core_set_get_config :: "bool \<Rightarrow> handler" where
  "handle_core_set_get_config is_set d request r =
     (if payload_len request < 1 then refuse UCI_STATUS_INVALID_PARAM d request r
      else
        let count = payload request ! 0; answer = respond r UCI_GID_CORE (oid request)
        in if is_set then
             let (d', acc, any_failed, left) = core_set_loop (unat count) (drop 1 (payload request)) d [] False;
                 status = (if any_failed \<or> left \<noteq> 0 then UCI_STATUS_INVALID_PARAM else UCI_STATUS_OK)
             in (rc_of_bool (status = UCI_STATUS_OK), d',
                 answer (status # of_nat (unat count - left) # acc))
           else
             let (acc, processed, broke) = core_get_loop (unat count) (drop 1 (payload request)) d [] 0;
                 status = (if broke \<or> processed = 0 then UCI_STATUS_INVALID_PARAM else UCI_STATUS_OK)
             in (rc_of_bool (status = UCI_STATUS_OK), d, answer (status # processed # acc)))"

subsection \<open>The CORE group\<close>

abbreviation UCI_CORE_DEVICE_RESET_CONFIG_VALID :: u8 where
  "UCI_CORE_DEVICE_RESET_CONFIG_VALID \<equiv> 1"

definition device_info_payload :: "uci_sim_device \<Rightarrow> bytes" where
  "device_info_payload d =
     (let p = effective_profile d;
          vendor_len = unat (vendor_specific_length p);
          vendor_copy_len = (if vendor_len > 255 - 10 then 255 - 10 else vendor_len)
      in UCI_STATUS_OK # write_u16_le (dev_uci_version d) @ write_u16_le (dev_mac_version d)
         @ write_u16_le (dev_phy_version d) @ write_u16_le (dev_test_version d)
         @ [of_nat vendor_copy_len]
         @ array_prefix UCI_SIM_MAX_PAYLOAD vendor_copy_len (vendor_specific_data p))"

definition handle_core :: handler where
  "handle_core d request r =
     (if \<not> uci_sim_profile_supports_command (dev_profile d) (gid request) (oid request) then
        refuse UCI_STATUS_UNKNOWN_OID d request r
      else if oid request = UCI_CORE_DEVICE_RESET then
        (if payload_len request \<noteq> 1 then refuse UCI_STATUS_INVALID_MSG_SIZE d request r
         else if payload request ! 0 \<noteq> UCI_CORE_DEVICE_RESET_CONFIG_VALID then
           refuse UCI_STATUS_INVALID_PARAM d request r
         else
           let d' = uci_sim_device_reset_runtime_state d
           in (RC_OK, emit_device_status_ntf d' (device_state d') (make_status_response request r UCI_STATUS_OK)))
      else if oid request = UCI_CORE_DEVICE_INFO then
        accept UCI_GID_CORE UCI_CORE_DEVICE_INFO (device_info_payload d) d r
      else if oid request = UCI_CORE_GET_CAPS_INFO then
        (case dev_profile d of
           None \<Rightarrow> refuse UCI_STATUS_FAILED d request r
         | Some p \<Rightarrow>
             if core_caps_payload_len p = 0 then refuse UCI_STATUS_FAILED d request r
             else accept UCI_GID_CORE UCI_CORE_GET_CAPS_INFO
                    (array_prefix UCI_SIM_MAX_PAYLOAD (unat (core_caps_payload_len p)) (core_caps_payload p)) d r)
      else if oid request = UCI_CORE_SET_CONFIG then handle_core_set_get_config True d request r
      else if oid request = UCI_CORE_GET_CONFIG then handle_core_set_get_config False d request r
      else if oid request = UCI_CORE_QUERY_UWBS_TIMESTAMP then
        (if payload_len request \<noteq> 0 then refuse UCI_STATUS_INVALID_MSG_SIZE d request r
         else
           accept UCI_GID_CORE UCI_CORE_QUERY_UWBS_TIMESTAMP
             (UCI_STATUS_OK # write_u64_le (next_uwbs_timestamp d))
             (d\<lparr>next_uwbs_timestamp := next_uwbs_timestamp d
                 + (case dev_profile d of Some p \<Rightarrow> uwbs_timestamp_increment p | None \<Rightarrow> 1)\<rparr>) r)
      else refuse UCI_STATUS_UNKNOWN_OID d request r)"


subsection \<open>What a handler owes\<close>

definition answers :: "uci_sim_packet \<Rightarrow> rc \<Rightarrow> uci_sim_result \<Rightarrow> bool" where
  "answers request c r \<longleftrightarrow>
     (\<exists>a. response r = Some a \<and> mt a = UCI_MT_RESPONSE \<and> pbf a = UCI_PBF_COMPLETE
        \<and> gid a = gid request \<and> oid a = oid request
        \<and> payload a \<noteq> [] \<and> payload_len a \<le> UCI_SIM_MAX_PAYLOAD
        \<and> (c = RC_OK \<longleftrightarrow> payload a ! 0 = UCI_STATUS_OK))"

definition step_ok :: "uci_sim_packet \<Rightarrow> rc \<times> uci_sim_device \<times> uci_sim_result \<Rightarrow> bool" where
  "step_ok request out \<longleftrightarrow>
     (case out of (c, d, r) \<Rightarrow> device_inv d \<and> result_ok r \<and> answers request c r)"

lemma respond_simps [simp]:
  "response (respond r g o' bs) =
     Some \<lparr>mt = UCI_MT_RESPONSE, pbf = UCI_PBF_COMPLETE, gid = g, oid = o', payload = bs\<rparr>"
  "notification (respond r g o' bs) = notification r"
  "result_ok (respond r g o' bs) = result_ok r"
  by (simp_all add: respond_def result_ok_def)

lemma make_status_simps [simp]:
  "result_ok (make_status_response request r status) = result_ok r"
  "notification (make_status_response request r status) = notification r"
  by (simp_all add: make_status_response_def)

lemma answers_respond:
  "g = gid request \<Longrightarrow> o' = oid request \<Longrightarrow> length bs < UCI_SIM_MAX_PAYLOAD \<Longrightarrow> (c = RC_OK \<longleftrightarrow> b = UCI_STATUS_OK)
   \<Longrightarrow> answers request c (respond r g o' (b # bs))"
  by (simp add: answers_def payload_len_def)

lemma refuse_ok [wf_intros]:
  "device_inv d \<Longrightarrow> result_ok r \<Longrightarrow> status \<noteq> UCI_STATUS_OK \<Longrightarrow> step_ok request (refuse status d request r)"
  by (simp add: step_ok_def refuse_def make_status_response_def answers_respond)

lemma accept_ok [wf_intros]:
  "device_inv d \<Longrightarrow> result_ok r \<Longrightarrow> g = gid request \<Longrightarrow> o' = oid request \<Longrightarrow> length bs < UCI_SIM_MAX_PAYLOAD
   \<Longrightarrow> step_ok request (accept g o' (UCI_STATUS_OK # bs) d r)"
  by (simp add: step_ok_def accept_def answers_respond)

lemma respond_ok:
  "device_inv d \<Longrightarrow> result_ok r \<Longrightarrow> g = gid request \<Longrightarrow> o' = oid request \<Longrightarrow> length bs < UCI_SIM_MAX_PAYLOAD
   \<Longrightarrow> (c = RC_OK \<longleftrightarrow> b = UCI_STATUS_OK) \<Longrightarrow> step_ok request (c, d, respond r g o' (b # bs))"
  by (simp add: step_ok_def answers_respond)

lemma status_ok:
  "device_inv d \<Longrightarrow> result_ok r \<Longrightarrow> (c = RC_OK \<longleftrightarrow> b = UCI_STATUS_OK)
   \<Longrightarrow> step_ok request (c, d, make_status_response request r b)"
  unfolding make_status_response_def by (rule respond_ok) simp_all

lemma deliver_frame:
  assumes "device_inv d" and "result_ok r" and "g < 16" and "o' < 64" and "length bs \<le> 255"
    and "deliver d g o' bs r = (d', r')"
  shows "device_inv d' \<and> result_ok r' \<and> response r' = response r \<and> sessions d' = sessions d
    \<and> dev_profile d' = dev_profile d \<and> dev_scenario d' = dev_scenario d"
proof -
  let ?n = "\<lparr>mt = UCI_MT_NOTIFICATION, pbf = UCI_PBF_COMPLETE, gid = g, oid = o', payload = bs\<rparr>"
  have "notification_ok ?n" using assms(3-5) by (intro notification_ok_intro) simp_all
  moreover obtain c where "uci_sim_device_deliver_notification d ?n r = (c, d', r')"
    using assms(6) by (cases "uci_sim_device_deliver_notification d ?n r") (auto simp: deliver_def)
  ultimately show ?thesis using deliver_notification_inv assms(1,2) by blast
qed

lemma deliver_ok:
  assumes "step_ok request (c, d, r)" and "g < 16" and "o' < 64" and "length bs \<le> 255"
  shows "step_ok request (c, deliver d g o' bs r)"
proof -
  obtain d' r' where out: "deliver d g o' bs r = (d', r')" by (cases "deliver d g o' bs r")
  with deliver_frame [OF _ _ assms(2-4) out] assms(1) show ?thesis
    by (auto simp: step_ok_def answers_def)
qed

lemmas emit_defs = emit_session_status_ntf_with_reason_def emit_session_status_ntf_def
  emit_device_status_ntf_def emit_core_generic_error_ntf_def emit_logical_link_notification_def

lemma emit_ok:
  assumes "step_ok request (c, d, r)"
  shows "step_ok request (c, emit_session_status_ntf_with_reason d sid st reason r)"
    and "step_ok request (c, emit_session_status_ntf d sid st r)"
    and "step_ok request (c, emit_device_status_ntf d st r)"
    and "o' < 64 \<Longrightarrow> step_ok request (c, emit_logical_link_notification d r sid o' x y)"
  unfolding emit_defs by (intro deliver_ok assms; simp)+

subsection \<open>The loops\<close>

lemma calibration_loop_bound:
  "calibration_loop k rest acc n = Some (rest', acc', n') \<Longrightarrow> length acc \<le> 252 \<Longrightarrow> length acc' \<le> 252"
  by (induction k rest acc n rule: calibration_loop.induct) (auto split: list.splits if_splits)

lemma core_set_loop_spec:
  assumes "core_set_loop k rest d acc failed = (d', acc', failed', left)" and "device_inv d"
    and "length acc + 2 \<le> UCI_SIM_MAX_PAYLOAD"
  shows "device_inv d' \<and> length acc' + 2 \<le> UCI_SIM_MAX_PAYLOAD \<and> left \<le> k
    \<and> length acc' = length acc + 2 * (k - left)"
  using assms
proof (induction k arbitrary: rest d acc failed)
  case (Suc k)
  show ?case
  proof (cases "\<exists>cid n rest'. rest = cid # n # rest' \<and> unat n \<le> length rest' \<and> 2 + length acc + 2 \<le> UCI_SIM_MAX_PAYLOAD")
    case False
    with Suc.prems show ?thesis by (auto split: list.splits if_splits)
  next
    case True
    then obtain cid n rest' where rest: "rest = cid # n # rest'" "unat n \<le> length rest'"
        "2 + length acc + 2 \<le> UCI_SIM_MAX_PAYLOAD" by blast
    obtain d1 st f1 where step: "core_set_loop k (drop (unat n) rest') d1 (acc @ [cid, st]) f1 = (d', acc', failed', left)"
        and d1: "device_inv d1"
      using Suc.prems(1,2) rest device_store_config_inv [OF _ Suc.prems(2)]
      by (simp add: Let_def not_less split: if_splits option.splits)
    show ?thesis using Suc.IH [OF step d1] rest(3) by auto
  qed
qed simp

lemma core_get_loop_bound:
  assumes "core_get_loop k rest d acc n = (acc', n', broke)"
    and "length acc + 2 \<le> UCI_SIM_MAX_PAYLOAD"
  shows "length acc' + 2 \<le> UCI_SIM_MAX_PAYLOAD"
  using assms
  by (induction k rest d acc n rule: core_get_loop.induct) (auto split: list.splits if_splits option.splits)

subsection \<open>The handlers of this part\<close>

lemma handle_qorvo_ext2_ok:
  "device_inv d \<Longrightarrow> result_ok r \<Longrightarrow> gid request = UCI_GID_QORVO_EXT2
   \<Longrightarrow> step_ok request (handle_qorvo_ext2 d request r)"
  unfolding handle_qorvo_ext2_def by (auto intro!: accept_ok refuse_ok)

lemma handle_qorvo_mac_ok:
  assumes "device_inv d" and "result_ok r" and "gid request = UCI_GID_QORVO_MAC"
  shows "step_ok request (handle_qorvo_mac d request r)"
  using assms calibration_loop_bound [of "unat (read_u16_le (payload request))" "drop 2 (payload request)" "[]" 0]
  unfolding handle_qorvo_mac_def
  by (fastforce simp: Let_def split: option.splits intro!: respond_ok refuse_ok status_ok)

lemma handle_core_set_get_config_ok:
  assumes inv: "device_inv d" and r: "result_ok r" and g: "gid request = UCI_GID_CORE"
  shows "step_ok request (handle_core_set_get_config is_set d request r)"
proof (cases "payload_len request < 1")
  case True
  with inv r show ?thesis by (simp add: handle_core_set_get_config_def refuse_ok)
next
  case False
  let ?n = "unat (payload request ! 0)"
  let ?rest = "drop 1 (payload request)"
  obtain d' acc failed left where set: "core_set_loop ?n ?rest d [] False = (d', acc, failed, left)"
    by (metis prod_cases4)
  obtain acc' n broke where get: "core_get_loop ?n ?rest d [] 0 = (acc', n, broke)"
    by (metis prod_cases3)
  have "device_inv d'" "length acc + 2 \<le> UCI_SIM_MAX_PAYLOAD"
    using core_set_loop_spec [OF set inv] by simp_all
  moreover have "length acc' + 2 \<le> UCI_SIM_MAX_PAYLOAD"
    using core_get_loop_bound [OF get] by simp
  ultimately show ?thesis
    using False inv r g set get
    by (auto simp: handle_core_set_get_config_def Let_def intro!: respond_ok)
qed

lemma handle_core_ok:
  assumes inv: "device_inv d" and r: "result_ok r" and g: "gid request = UCI_GID_CORE"
  shows "step_ok request (handle_core d request r)"
proof -
  have reset: "step_ok request (RC_OK, emit_device_status_ntf (uci_sim_device_reset_runtime_state d) st
      (make_status_response request r UCI_STATUS_OK))" for st
    using inv r by (intro emit_ok status_ok reset_inv) simp_all
  have info: "step_ok request (accept UCI_GID_CORE UCI_CORE_DEVICE_INFO (device_info_payload d) d r)"
    if "oid request = UCI_CORE_DEVICE_INFO"
    using that inv r g unfolding device_info_payload_def Let_def
    by (intro accept_ok) (auto simp: array_prefix_def min_def)
  have caps: "step_ok request (accept UCI_GID_CORE UCI_CORE_GET_CAPS_INFO
        (array_prefix UCI_SIM_MAX_PAYLOAD (unat (core_caps_payload_len p)) (core_caps_payload p)) d r)"
    if "oid request = UCI_CORE_GET_CAPS_INFO" "dev_profile d = Some p" for p
  proof -
    have "profile_ok p" using inv that(2) by (rule device_invD(5))
    then obtain bs where bs: "core_caps_payload p = UCI_STATUS_OK # bs"
        "0 < unat (core_caps_payload_len p)" "unat (core_caps_payload_len p) \<le> 255"
      by (cases "core_caps_payload p") (auto simp: profile_ok_def unat_gt_0)
    then obtain k where k: "unat (core_caps_payload_len p) = Suc k" "k \<le> 254"
      by (cases "unat (core_caps_payload_len p)") auto
    show ?thesis
      unfolding k array_prefix_def bs using that inv r g k by (simp, intro accept_ok) auto
  qed
  have time: "device_inv (d\<lparr>next_uwbs_timestamp := t\<rparr>)" for t
    using inv by (simp add: device_inv_def)
  have stamp: "step_ok request (accept UCI_GID_CORE UCI_CORE_QUERY_UWBS_TIMESTAMP
      (UCI_STATUS_OK # write_u64_le t) (d\<lparr>next_uwbs_timestamp := u\<rparr>) r)"
    if "oid request = UCI_CORE_QUERY_UWBS_TIMESTAMP" for t u
    using that g r time by (intro accept_ok) simp_all
  have unsupported: "step_ok request (refuse status d request r)" if "status \<noteq> UCI_STATUS_OK" for status
    using inv r that by (rule refuse_ok)
  show ?thesis
    using reset info caps stamp unsupported handle_core_set_get_config_ok [OF inv r g]
    unfolding handle_core_def Let_def by (simp split: option.splits)
qed

subsection \<open>Properties\<close>

text \<open>A calibration request for a list of keys, and the entries that answer it.\<close>

definition calibration_request :: "bytes list \<Rightarrow> bytes" where
  "calibration_request keys = concat (map (\<lambda>key. of_nat (length key) # key) keys)"

definition calibration_entries :: "bytes list \<Rightarrow> bytes" where
  "calibration_entries keys = concat (map (\<lambda>key. of_nat (length key) # key @ [0, 1, 0xFF]) keys)"

lemma calibration_loop_keys:
  assumes "\<forall>key\<in>set keys. length key \<le> 255"
    and "3 + length acc + length (calibration_entries keys) \<le> 255"
  shows "calibration_loop (length keys) (calibration_request keys) acc n =
    Some ([], acc @ calibration_entries keys, n + of_nat (length keys))"
  using assms
proof (induction keys arbitrary: acc n)
  case Nil
  then show ?case by (simp add: calibration_request_def calibration_entries_def)
next
  case (Cons key keys)
  have len: "unat (of_nat (length key) :: u8) = length key"
    using Cons.prems(1) by (simp add: unat_of_nat)
  have "calibration_loop (length keys) (calibration_request keys) (acc @ of_nat (length key) # key @ [0, 1, 0xFF]) (n + 1) =
      Some ([], (acc @ of_nat (length key) # key @ [0, 1, 0xFF]) @ calibration_entries keys, n + 1 + of_nat (length keys))"
    using Cons.prems by (intro Cons.IH) (simp_all add: calibration_entries_def)
  moreover have "\<not> 3 + length acc + 1 + length key + 1 + 1 + 1 > 255"
    using Cons.prems(2) by (simp add: calibration_entries_def)
  ultimately show ?case
    by (simp add: calibration_request_def calibration_entries_def len add.assoc)
qed

text \<open>
  A request for calibration keys is answered with every key it names, in order, each with
  its status and the fixed value, when the answer fits a control packet.
\<close>

lemma calibrations_answered:
  assumes "oid request = UCI_OID_QORVO_MAC_GET_CALIBRATIONS"
    and "payload request = write_u16_le (of_nat (length keys)) @ calibration_request keys"
    and "length (calibration_entries keys) \<le> 252"
  shows "handle_qorvo_mac d request r =
    (RC_OK, d, respond r UCI_GID_QORVO_MAC UCI_OID_QORVO_MAC_GET_CALIBRATIONS
       (UCI_STATUS_OK # write_u16_le (of_nat (length keys)) @ calibration_entries keys))"
proof -
  have entry: "length key + 4 \<le> length (calibration_entries keys)" if "key \<in> set keys" for key
    using that by (induction keys) (auto simp: calibration_entries_def)
  have short: "\<forall>key\<in>set keys. length key \<le> 255" using entry assms(3) by fastforce
  have count: "4 * length keys \<le> length (calibration_entries keys)"
    by (induction keys) (simp_all add: calibration_entries_def)
  have n: "unat (of_nat (length keys) :: u16) = length keys"
    using count assms(3) by (simp add: unat_of_nat)
  have "calibration_loop (length keys) (calibration_request keys) [] 0 =
      Some ([], [] @ calibration_entries keys, 0 + of_nat (length keys))"
    by (rule calibration_loop_keys [OF short]) (use assms(3) in simp)
  then show ?thesis
    using assms(1,2) n
    by (simp add: handle_qorvo_mac_def Let_def payload_len_def length_write_le)
qed

end
