(* ===== verification/Handlers_Session.thy ===== *)
theory Handlers_Session
  imports Handlers_Core
begin

text \<open>
  \<open>src/handlers/uci_sim_handlers.c\<close>, second part: the SESSION_CONFIG group. A session found by
  its id is an index; every update of it writes the session back with \<open>set_session\<close>. The
  lemmas show that every handler keeps the device well formed and answers its command.
\<close>

subsection \<open>Allocation\<close>

text \<open>
  \<open>alloc_session\<close>: the first free slot, with the profile's defaults. The stores of the default
  parameters ignore their result.
\<close>

definition fresh_session :: "uci_sim_device \<Rightarrow> uci_sim_session \<Rightarrow> u32 \<Rightarrow> uci_sim_session" where
  "fresh_session d s sid =
     (let profile = effective_profile d
      in load_configs uci_sim_session_store_config (default_app_configs profile)
           (s\<lparr>allocated := True, session_id := sid, session_type := default_session_type profile,
              state := initial_session_state profile, ranging_count := 0,
              has_last_proximity_state := False, last_in_proximity_range := False,
              max_data_size := (case dev_profile d of Some p \<Rightarrow> default_session_max_data_size p
                                | None \<Rightarrow> 0x0200)\<rparr>))"

definition alloc_session :: "uci_sim_device \<Rightarrow> u32 \<Rightarrow> (uci_sim_device \<times> nat) option" where
  "alloc_session d sid =
     (case find_index (\<lambda>s. \<not> allocated s) (sessions d) of
        None \<Rightarrow> None
      | Some i \<Rightarrow> Some (set_session d i (fresh_session d (sessions d ! i) sid), i))"

subsection \<open>SESSION_INIT and SESSION_DEINIT\<close>

definition handle_session_init :: handler where
  "handle_session_init d request r =
     (if payload_len request < 5 then refuse UCI_STATUS_INVALID_MSG_SIZE d request r
      else
        let sid = read_u32_le (payload request)
        in if payload request ! 4 \<noteq> UCI_SESSION_TYPE_RANGING then
             refuse UCI_STATUS_INVALID_RANGE d request r
           else
             (case (case find_session_by_id d sid of Some i \<Rightarrow> Some (d, i) | None \<Rightarrow> alloc_session d sid) of
                None \<Rightarrow> refuse UCI_STATUS_REJECTED d request r
              | Some (d', i) \<Rightarrow>
                  (RC_OK, emit_session_status_ntf d' sid (state (sessions d' ! i))
                     (respond r UCI_GID_SESSION_CONFIG UCI_SESSION_INIT (UCI_STATUS_OK # write_u32_le sid)))))"

definition handle_session_deinit :: handler where
  "handle_session_deinit d request r =
     (if payload_len request < 4 then refuse UCI_STATUS_INVALID_MSG_SIZE d request r
      else
        let sid = read_u32_le (payload request)
        in case find_session_by_id d sid of
             None \<Rightarrow> refuse UCI_STATUS_INVALID_PARAM d request r
           | Some i \<Rightarrow>
               let (d', r') = emit_session_status_ntf d sid UCI_SESSION_STATE_DEINIT
                                (make_status_response request r UCI_STATUS_OK)
               in (RC_OK, set_session d' i zero_session, r'))"

subsection \<open>Queries\<close>

definition handle_session_get_count :: handler where
  "handle_session_get_count d request r =
     accept UCI_GID_SESSION_CONFIG UCI_SESSION_GET_COUNT
       [UCI_STATUS_OK, of_nat (length (filter allocated (sessions d)))] d r"

definition handle_session_query_data_size :: handler where
  "handle_session_query_data_size d request r =
     (let answer = respond r UCI_GID_SESSION_CONFIG UCI_SESSION_QUERY_DATA_SIZE_IN_RANGING
      in if payload_len request < 4 then (RC_FAIL, d, answer [UCI_STATUS_INVALID_PARAM, 0x00, 0x00])
         else
           case find_session_by_id d (read_u32_le (payload request)) of
             Some i \<Rightarrow> (RC_OK, d, answer (UCI_STATUS_OK # write_u16_le (max_data_size (sessions d ! i))))
           | None \<Rightarrow> (RC_FAIL, d, answer [UCI_STATUS_INVALID_PARAM, 0x00, 0x00]))"

definition handle_session_get_state :: handler where
  "handle_session_get_state d request r =
     (if payload_len request < 4 then refuse UCI_STATUS_INVALID_MSG_SIZE d request r
      else
        case find_session_by_id d (read_u32_le (payload request)) of
          None \<Rightarrow> refuse UCI_STATUS_INVALID_PARAM d request r
        | Some i \<Rightarrow>
            accept UCI_GID_SESSION_CONFIG UCI_SESSION_GET_STATE
              [UCI_STATUS_OK, state (sessions d ! i)] d r)"

subsection \<open>The multicast list\<close>

text \<open>
  One entry of the request: the bytes after it, the session, the seven bytes answered and the
  entry's status; None leaves the loop. A key that is missing altogether at the end of the
  request is an empty key.
\<close>

definition multicast_key_len :: "u8 \<Rightarrow> nat" where
  "multicast_key_len action =
     (if action = UCI_MULTICAST_ACTION_ADD_SHORT_KEY then 16
      else if action = UCI_MULTICAST_ACTION_ADD_LONG_KEY then 32 else 0)"

definition multicast_change :: "u8 \<Rightarrow> uci_sim_session \<Rightarrow> u16 \<Rightarrow> u32 \<Rightarrow> bytes \<Rightarrow> int \<times> uci_sim_session" where
  "multicast_change action s short_address subsession_id key =
     (if action = UCI_MULTICAST_ACTION_REMOVE
      then uci_sim_session_remove_multicast_entry s short_address subsession_id
      else uci_sim_session_add_multicast_entry s short_address subsession_id key)"

definition multicast_entry ::
    "u8 \<Rightarrow> bytes \<Rightarrow> uci_sim_session \<Rightarrow> (bytes \<times> uci_sim_session \<times> bytes \<times> int) option" where
  "multicast_entry action rest s =
     (if length rest < 6 then None
      else
        let short_address = read_u16_le rest; subsession_id = read_u32_le (drop 2 rest);
            rest1 = drop 6 rest; key_len = multicast_key_len action
        in if key_len > length rest1 \<and> rest1 \<noteq> [] then None
           else
             let out = multicast_change action s short_address subsession_id (take key_len rest1)
             in Some (drop key_len rest1, snd out,
                  write_u16_le short_address @ write_u32_le subsession_id @ [of_int (fst out)], fst out))"

text \<open>The session, the entries answered so far, the overall status and the number processed.\<close>

primrec multicast_loop ::
    "nat \<Rightarrow> u8 \<Rightarrow> bytes \<Rightarrow> uci_sim_session \<Rightarrow> bytes \<Rightarrow> u8 \<Rightarrow> u8 \<Rightarrow> uci_sim_session \<times> bytes \<times> u8 \<times> u8" where
  "multicast_loop 0 action rest s acc overall processed = (s, acc, overall, processed)"
| "multicast_loop (Suc n) action rest s acc overall processed =
     (if 2 + length acc + 7 > UCI_SIM_MAX_PAYLOAD then (s, acc, UCI_STATUS_INVALID_PARAM, processed)
      else case multicast_entry action rest s of
        None \<Rightarrow> (s, acc, UCI_STATUS_INVALID_PARAM, processed)
      | Some (rest', s', answered, entry_status) \<Rightarrow>
          multicast_loop n action rest' s' (acc @ answered)
            (if entry_status \<noteq> uint UCI_STATUS_OK \<and> overall = UCI_STATUS_OK
             then UCI_STATUS_FAILED else overall)
            (processed + 1))"

definition handle_session_update_multicast_list :: handler where
  "handle_session_update_multicast_list d request r =
     (if payload_len request < 6 then refuse UCI_STATUS_INVALID_MSG_SIZE d request r
      else
        let sid = read_u32_le (payload request);
            entry_count = payload request ! 4;
            action = payload request ! 5
        in case find_session_by_id d sid of
             None \<Rightarrow> refuse UCI_STATUS_INVALID_PARAM d request r
           | Some i \<Rightarrow>
               if \<not> uci_sim_profile_supports_multicast_action (dev_profile d) action then
                 refuse UCI_STATUS_INVALID_PARAM d request r
               else
                 let (s, acc, overall, processed) =
                       multicast_loop (unat entry_count) action (drop 6 (payload request)) (sessions d ! i) []
                         UCI_STATUS_OK 0;
                     overall' = (if processed \<noteq> entry_count \<and> overall = UCI_STATUS_OK
                                 then UCI_STATUS_INVALID_PARAM else overall)
                 in (rc_of_bool (overall' = UCI_STATUS_OK), set_session d i s,
                     respond r UCI_GID_SESSION_CONFIG UCI_SESSION_UPDATE_CONTROLLER_MULTICAST_LIST
                       (overall' # processed # acc)))"

subsection \<open>Data-transfer phase and DT rounds\<close>

definition handle_session_data_transfer_phase_config :: handler where
  "handle_session_data_transfer_phase_config d request r =
     (if payload_len request < 7 then refuse UCI_STATUS_INVALID_PARAM d request r
      else
        case find_session_by_id d (read_u32_le (payload request)) of
          None \<Rightarrow> refuse UCI_STATUS_INVALID_PARAM d request r
        | Some i \<Rightarrow>
            let size = payload request ! 6;
                len = (of_nat (payload_len request - 7) :: u8)
            in if unat size > UCI_SIM_DTP_PAYLOAD \<or> len \<noteq> size then
                 refuse UCI_STATUS_INVALID_MSG_SIZE d request r
               else
                 let s = (sessions d ! i)\<lparr>dtp_repetition := payload request ! 4,
                            dtp_control := payload request ! 5, dtp_size := size, dtp_payload_len := len,
                            dtp_payload := array_prefix UCI_SIM_DTP_PAYLOAD UCI_SIM_DTP_PAYLOAD
                                             (take (unat len) (drop 7 (payload request)))\<rparr>
                 in (RC_OK, set_session d i s, make_status_response request r UCI_STATUS_OK))"

definition handle_session_update_dt_rounds :: "bool \<Rightarrow> handler" where
  "handle_session_update_dt_rounds use_anchor_rounds d request r =
     (if payload_len request < 5 then refuse UCI_STATUS_INVALID_PARAM d request r
      else
        let round_count = payload request ! 4
        in if payload_len request < 5 + unat round_count \<or> unat round_count > UCI_SIM_MAX_DT_ROUNDS then
             refuse UCI_STATUS_INVALID_PARAM d request r
           else
             case find_session_by_id d (read_u32_le (payload request)) of
               None \<Rightarrow> refuse UCI_STATUS_INVALID_PARAM d request r
             | Some i \<Rightarrow>
                 let given = take (unat round_count) (drop 5 (payload request));
                     rounds = array_prefix UCI_SIM_MAX_DT_ROUNDS UCI_SIM_MAX_DT_ROUNDS given;
                     s = sessions d ! i;
                     s' = (if use_anchor_rounds
                           then s\<lparr>dt_anchor_round_count := round_count, dt_anchor_round_indexes := rounds\<rparr>
                           else s\<lparr>dt_tag_round_count := round_count, dt_tag_round_indexes := rounds\<rparr>)
                 in (RC_OK, set_session d i s',
                     respond r UCI_GID_SESSION_CONFIG (oid request)
                       (UCI_STATUS_OK # round_count # take (unat round_count) rounds)))"

subsection \<open>Application parameters\<close>

text \<open>The ids whose value is validated when it is set.\<close>

definition validated_app_configs :: bytes where
  "validated_app_configs =
     [UCI_APP_CONFIG_DEVICE_TYPE, UCI_APP_CONFIG_MULTI_NODE_MODE, UCI_APP_CONFIG_CHANNEL_NUMBER,
      UCI_APP_CONFIG_NUMBER_OF_CONTROLEES, UCI_APP_CONFIG_DEVICE_MAC_ADDRESS,
      UCI_APP_CONFIG_DST_MAC_ADDRESS, UCI_APP_CONFIG_MAC_ADDRESS_MODE, UCI_APP_CONFIG_STS_CONFIG,
      UCI_APP_CONFIG_RANGING_INTERVAL, UCI_APP_CONFIG_SLOT_DURATION, UCI_APP_CONFIG_RANGING_ROUND_USAGE,
      UCI_APP_CONFIG_AOA_RESULT_REQ, UCI_APP_CONFIG_PRF_MODE, UCI_APP_CONFIG_PREAMBLE_CODE_INDEX,
      UCI_APP_CONFIG_SFD_ID, UCI_APP_CONFIG_PSDU_DATA_RATE, UCI_APP_CONFIG_PREAMBLE_DURATION,
      UCI_APP_CONFIG_STS_LENGTH, UCI_APP_CONFIG_KEY_ROTATION, UCI_APP_CONFIG_LINK_LAYER_MODE,
      UCI_APP_CONFIG_CAP_SIZE_RANGE, UCI_APP_CONFIG_RANGING_TIME_STRUCT, UCI_APP_CONFIG_SCHEDULED_MODE,
      UCI_APP_CONFIG_KEY_ROTATION_RATE, UCI_APP_CONFIG_NUMBER_OF_STS_SEGMENTS, UCI_APP_CONFIG_MAX_RR_RETRY,
      UCI_APP_CONFIG_BLOCK_STRIDE_LENGTH, UCI_APP_CONFIG_SLOTS_PER_RR, UCI_APP_CONFIG_RESPONDER_SLOT_INDEX,
      UCI_APP_CONFIG_RSSI_REPORTING, UCI_APP_CONFIG_RESULT_REPORT_CONFIG]"

text \<open>The failure that stops a parameter from being stored: one the profile surfaces at once.\<close>

definition immediate_failure :: "uci_sim_device \<Rightarrow> uci_sim_session \<Rightarrow> u8 \<Rightarrow> bytes \<Rightarrow> u8 option" where
  "immediate_failure d s k v =
     (if k \<in> set validated_app_configs then
        (case uci_sim_validate_session_app_config (Some (effective_profile d)) s k v of
           Inl f \<Rightarrow> if inv_surface f = UCI_SIM_INVALID_CONFIG_SURFACE_IMMEDIATE
                    then Some (inv_status f) else None
         | Inr _ \<Rightarrow> None)
      else None)"

text \<open>One parameter: the device after it, and the status to stop with, if any.\<close>

definition set_app_config :: "uci_sim_device \<Rightarrow> nat \<Rightarrow> u8 \<Rightarrow> bytes \<Rightarrow> uci_sim_device \<times> u8 option" where
  "set_app_config d i k v =
     (if \<not> uci_sim_profile_supports_session_app_config (dev_profile d) k then
        (d, Some UCI_STATUS_INVALID_PARAM)
      else case immediate_failure d (sessions d ! i) k v of
        Some status \<Rightarrow> (d, Some status)
      | None \<Rightarrow>
          (case uci_sim_session_store_config (sessions d ! i) k v of
             None \<Rightarrow> (d, Some UCI_STATUS_REJECTED)
           | Some s \<Rightarrow>
               let s' = (if k = UCI_APP_CONFIG_SESSION_INFO_NTF_CONFIG
                            \<or> k = UCI_APP_CONFIG_RNG_DATA_NTF_PROXIMITY_NEAR
                            \<or> k = UCI_APP_CONFIG_RNG_DATA_NTF_PROXIMITY_FAR
                         then s\<lparr>has_last_proximity_state := False, last_in_proximity_range := False\<rparr> else s);
                   d' = set_session d i s'
               in if k = UCI_APP_CONFIG_RANGING_INTERVAL \<and> state s' = UCI_SESSION_STATE_ACTIVE
                     \<and> ranging_stream_remaining s' > 0 then
                    (case uci_sim_device_reschedule_session_event d' UCI_SIM_EVENT_RANGE_DATA (session_id s')
                            (uci_sim_session_get_ranging_interval_ms s' (Some (effective_profile d))) of
                       (RC_OK, d'') \<Rightarrow> (d'', None)
                     | (RC_FAIL, d'') \<Rightarrow> (d'', Some UCI_STATUS_REJECTED))
                  else (d', None)))"

text \<open>
  The loop of SESSION_SET_APP_CONFIG; its second result is the response status. When the bytes
  run out before the announced number of parameters the status stays OK.
\<close>

fun app_set_loop :: "nat \<Rightarrow> bytes \<Rightarrow> uci_sim_device \<Rightarrow> nat \<Rightarrow> uci_sim_device \<times> u8" where
  "app_set_loop 0 rest d i = (d, UCI_STATUS_OK)"
| "app_set_loop (Suc n) rest d i =
     (case rest of
        k # value_len # rest' \<Rightarrow>
          if unat value_len > length rest' then (d, UCI_STATUS_INVALID_PARAM)
          else
            (case set_app_config d i k (take (unat value_len) rest') of
               (d', Some status) \<Rightarrow> (d', status)
             | (d', None) \<Rightarrow> app_set_loop n (drop (unat value_len) rest') d' i)
      | _ \<Rightarrow> (d, UCI_STATUS_OK))"

text \<open>SESSION_GET_APP_CONFIG with a list of ids, and with an empty list: every supported id.\<close>

fun app_get_loop ::
    "nat \<Rightarrow> bytes \<Rightarrow> uci_sim_profile option \<Rightarrow> uci_sim_session \<Rightarrow> bytes \<Rightarrow> u8 \<Rightarrow> bytes \<times> u8 \<times> u8" where
  "app_get_loop 0 rest q s acc processed = (acc, processed, UCI_STATUS_OK)"
| "app_get_loop (Suc n) rest q s acc processed =
     (case rest of
        [] \<Rightarrow> (acc, processed, UCI_STATUS_OK)
      | k # rest' \<Rightarrow>
          if \<not> uci_sim_profile_supports_session_app_config q k then (acc, processed, UCI_STATUS_INVALID_PARAM)
          else (case uci_sim_session_get_config s k of
                  None \<Rightarrow> (acc, processed, UCI_STATUS_INVALID_PARAM)
                | Some v \<Rightarrow>
                    if 2 + length acc + 2 + length v > UCI_SIM_MAX_PAYLOAD
                    then (acc, processed, UCI_STATUS_INVALID_PARAM)
                    else app_get_loop n rest' q s (acc @ k # of_nat (length v) # v) (processed + 1)))"

fun app_get_all :: "bytes \<Rightarrow> uci_sim_session \<Rightarrow> bytes \<Rightarrow> u8 \<Rightarrow> bytes \<times> u8 \<times> u8" where
  "app_get_all [] s acc processed = (acc, processed, UCI_STATUS_OK)"
| "app_get_all (k # ks) s acc processed =
     (case uci_sim_session_get_config s k of
        None \<Rightarrow> app_get_all ks s acc processed
      | Some v \<Rightarrow>
          if 2 + length acc + 2 + length v > UCI_SIM_MAX_PAYLOAD
          then (acc, processed, UCI_STATUS_INVALID_PARAM)
          else app_get_all ks s (acc @ k # of_nat (length v) # v) (processed + 1))"

definition handle_session_set_get_config :: "bool \<Rightarrow> handler" where
  "handle_session_set_get_config is_set d request r =
     (if payload_len request < 5 then refuse UCI_STATUS_INVALID_MSG_SIZE d request r
      else
        let count = payload request ! 4
        in case find_session_by_id d (read_u32_le (payload request)) of
             None \<Rightarrow> refuse UCI_STATUS_INVALID_PARAM d request r
           | Some i \<Rightarrow>
               let answer = respond r UCI_GID_SESSION_CONFIG (oid request);
                   rest = drop 5 (payload request)
               in if is_set then
                    let (d', status) = app_set_loop (unat count) rest d i
                    in (rc_of_bool (status = UCI_STATUS_OK), d', answer [status, 0])
                  else
                    let (acc, processed, status) =
                          (if count = 0
                           then app_get_all (supported_session_app_config_ids (effective_profile d))
                                  (sessions d ! i) [] 0
                           else app_get_loop (unat count) rest (dev_profile d) (sessions d ! i) [] 0)
                    in (rc_of_bool (status = UCI_STATUS_OK), d, answer (status # processed # acc)))"

subsection \<open>The SESSION_CONFIG group\<close>

definition handle_session_config :: handler where
  "handle_session_config d request r =
     (if \<not> uci_sim_profile_supports_command (dev_profile d) (gid request) (oid request) then
        refuse UCI_STATUS_UNKNOWN_OID d request r
      else if oid request = UCI_SESSION_INIT then handle_session_init d request r
      else if oid request = UCI_SESSION_DEINIT then handle_session_deinit d request r
      else if oid request = UCI_SESSION_SET_APP_CONFIG then handle_session_set_get_config True d request r
      else if oid request = UCI_SESSION_GET_APP_CONFIG then handle_session_set_get_config False d request r
      else if oid request = UCI_SESSION_GET_COUNT then handle_session_get_count d request r
      else if oid request = UCI_SESSION_QUERY_DATA_SIZE_IN_RANGING then handle_session_query_data_size d request r
      else if oid request = UCI_SESSION_GET_STATE then handle_session_get_state d request r
      else if oid request = UCI_SESSION_UPDATE_CONTROLLER_MULTICAST_LIST then
        handle_session_update_multicast_list d request r
      else if oid request = UCI_SESSION_UPDATE_DT_ANCHOR_RANGING_ROUNDS then
        handle_session_update_dt_rounds True d request r
      else if oid request = UCI_SESSION_UPDATE_DT_TAG_RANGING_ROUNDS then
        handle_session_update_dt_rounds False d request r
      else if oid request = UCI_SESSION_DATA_TRANSFER_PHASE_CONFIG then
        handle_session_data_transfer_phase_config d request r
      else refuse UCI_STATUS_UNKNOWN_OID d request r)"


subsection \<open>A fresh session\<close>

lemma load_session_configs_frame:
  "\<exists>es. load_configs uci_sim_session_store_config bs s = s\<lparr>configs := es\<rparr>"
proof (induction bs arbitrary: s)
  case Nil
  show ?case by (rule exI [of _ "configs s"]) simp
next
  case (Cons b bs)
  obtain k v where b: "b = (k, v)" by (cases b)
  show ?case
  proof (cases "uci_sim_session_store_config s k v")
    case None
    with Cons.IH [of s] b show ?thesis by simp
  next
    case (Some s')
    obtain es where "load_configs uci_sim_session_store_config bs s' = s'\<lparr>configs := es\<rparr>"
      using Cons.IH by blast
    moreover obtain es' where "s' = s\<lparr>configs := es'\<rparr>"
      using store_config_frame [OF Some] by blast
    ultimately show ?thesis using b Some by (intro exI [of _ es]) simp
  qed
qed

lemma fresh_session_facts:
  assumes inv: "device_inv d"
  shows "session_ok (fresh_session d zero_session sid)" and "allocated (fresh_session d zero_session sid)"
    and "session_id (fresh_session d zero_session sid) = sid"
    and "state (fresh_session d zero_session sid) = UCI_SESSION_STATE_INIT"
    and "ranging_stream_remaining (fresh_session d zero_session sid) = 0"
proof -
  let ?p = "effective_profile d"
  define s0 where "s0 = zero_session\<lparr>allocated := True, session_id := sid,
      session_type := default_session_type ?p, state := initial_session_state ?p, ranging_count := 0,
      has_last_proximity_state := False, last_in_proximity_range := False,
      max_data_size := (case dev_profile d of Some p \<Rightarrow> default_session_max_data_size p | None \<Rightarrow> 0x0200)\<rparr>"
  have fresh: "fresh_session d zero_session sid =
      load_configs uci_sim_session_store_config (default_app_configs ?p) s0"
    by (simp add: fresh_session_def s0_def Let_def)
  obtain es where es: "fresh_session d zero_session sid = s0\<lparr>configs := es\<rparr>"
    using load_session_configs_frame unfolding fresh by blast
  have init: "initial_session_state ?p = UCI_SESSION_STATE_INIT"
    using effective_profile_ok [OF inv] by (simp add: profile_ok_def)
  have s0: "session_ok s0"
    using zero_session_ok init unfolding s0_def
    by (simp add: session_ok_def protocol_state_def) (simp add: zero_session_def)
  have "configs_ok (configs (fresh_session d zero_session sid))"
    unfolding fresh using session_okD(1) [OF s0] by (rule session_configs.load_ok)
  with es s0 show "session_ok (fresh_session d zero_session sid)"
    by (simp add: session_ok_def s0_def)
  show "allocated (fresh_session d zero_session sid)" "session_id (fresh_session d zero_session sid) = sid"
    "state (fresh_session d zero_session sid) = UCI_SESSION_STATE_INIT"
    "ranging_stream_remaining (fresh_session d zero_session sid) = 0"
    unfolding es using init by (simp_all add: s0_def zero_session_def)
qed

text \<open>A fresh session reads back the profile's defaults, the last one when an id occurs twice.\<close>

lemma fresh_session_defaults:
  assumes inv: "device_inv d"
    and fit: "length (default_app_configs (effective_profile d)) \<le> UCI_SIM_MAX_SESSION_CONFIGS"
  shows "uci_sim_session_get_config (fresh_session d zero_session sid) =
    map_of (rev (default_app_configs (effective_profile d)))"
proof -
  let ?p = "effective_profile d"
  let ?bs = "default_app_configs ?p"
  let ?s0 = "zero_session\<lparr>allocated := True, session_id := sid,
      session_type := default_session_type ?p, state := initial_session_state ?p, ranging_count := 0,
      has_last_proximity_state := False, last_in_proximity_range := False,
      max_data_size := (case dev_profile d of Some p \<Rightarrow> default_session_max_data_size p | None \<Rightarrow> 0x0200)\<rparr>"
  have lens: "\<forall>b\<in>set ?bs. length (snd b) \<le> UCI_SIM_MAX_CONFIG_VALUE"
    using effective_profile_ok [OF inv] by (auto simp: profile_ok_def intro: order_trans)
  have ok: "configs_ok (configs ?s0)" using zero_session_ok by (simp add: session_ok_def)
  have empty: "uci_sim_session_get_config ?s0 = Map.empty"
    by (rule ext) (simp add: uci_sim_session_get_config_def zero_session_def)
  have card: "card (fst ` set ?bs) \<le> UCI_SIM_MAX_SESSION_CONFIGS"
    using fit by (meson card_image_le card_length finite_set order_trans)
  have "uci_sim_session_get_config (load_configs uci_sim_session_store_config ?bs ?s0) =
      uci_sim_session_get_config ?s0 ++ map_of (rev ?bs)"
    by (rule session_configs.load_lookup [where K = "fst ` set ?bs"]) (use ok empty lens card in simp_all)
  then show ?thesis by (simp add: fresh_session_def Let_def empty)
qed

lemma alloc_session_SomeD:
  assumes alloc: "alloc_session d sid = Some (d', i)" and inv: "device_inv d"
  shows "i < length (sessions d) \<and> \<not> allocated (sessions d ! i)
    \<and> d' = set_session d i (fresh_session d zero_session sid)"
proof -
  from alloc have i: "find_index (\<lambda>s. \<not> allocated s) (sessions d) = Some i"
      and d': "d' = set_session d i (fresh_session d (sessions d ! i) sid)"
    by (auto simp: alloc_session_def split: option.splits)
  from i have lt: "i < length (sessions d)" and free: "\<not> allocated (sessions d ! i)"
    using find_index_SomeD by metis+
  have "session_ok (sessions d ! i)" using device_invD(6,7) [OF inv] lt by simp
  with free have "sessions d ! i = zero_session" by (rule session_okD(6) [rotated])
  with lt free d' show ?thesis by simp
qed

lemma alloc_session_inv:
  assumes "alloc_session d sid = Some (d', i)" and inv: "device_inv d"
    and new: "find_session_by_id d sid = None"
  shows "device_inv d'"
proof -
  from alloc_session_SomeD [OF assms(1,2)] have d': "d' = set_session d i (fresh_session d zero_session sid)"
    by blast
  have "sessions_ok ((sessions d)[i := fresh_session d zero_session sid])"
    using inv new fresh_session_facts [OF inv, of sid]
    by (intro sessions_ok_update device_invD(1)) (auto simp: find_session_None_iff)
  with inv d' show ?thesis by (simp add: device_inv_def)
qed

lemma alloc_session_None_iff:
  "alloc_session d sid = None \<longleftrightarrow> (\<forall>s\<in>set (sessions d). allocated s)"
proof -
  have "alloc_session d sid = None \<longleftrightarrow> find_index (\<lambda>s. \<not> allocated s) (sessions d) = None"
    by (simp add: alloc_session_def split: option.splits)
  then show ?thesis by (simp add: find_index_None_iff)
qed

subsection \<open>Every handler answers and keeps the device well formed\<close>

lemma found_session:
  assumes "find_session_by_id d sid = Some i" and "device_inv d"
  shows "i < length (sessions d)" "allocated (sessions d ! i)" "session_ok (sessions d ! i)"
  using find_session_SomeD [OF assms] by blast+

lemma handle_session_init_ok:
  assumes inv: "device_inv d" and r: "result_ok r" and req: "gid request = UCI_GID_SESSION_CONFIG" "oid request = UCI_SESSION_INIT"
  shows "step_ok request (handle_session_init d request r)"
proof -
  have go: "step_ok request (RC_OK, emit_session_status_ntf d' sid st
      (respond r UCI_GID_SESSION_CONFIG UCI_SESSION_INIT (UCI_STATUS_OK # write_u32_le sid)))"
    if "device_inv d'" for d' sid st
    using that r req by (intro emit_ok respond_ok) simp_all
  show ?thesis
    using refuse_ok [OF inv r] go [OF inv] go [OF alloc_session_inv [OF _ inv]]
    by (auto simp: handle_session_init_def Let_def split: option.splits)
qed

lemma handle_session_deinit_ok:
  assumes inv: "device_inv d" and r: "result_ok r"
  shows "step_ok request (handle_session_deinit d request r)"
proof -
  have "step_ok request (RC_OK, set_session d' i zero_session, r')"
    if "emit_session_status_ntf d sid UCI_SESSION_STATE_DEINIT
        (make_status_response request r UCI_STATUS_OK) = (d', r')" for d' r' i sid
  proof -
    have "step_ok request (RC_OK, d', r')"
      using emit_ok(2) [of request RC_OK d "make_status_response request r UCI_STATUS_OK"
          sid UCI_SESSION_STATE_DEINIT] inv r that
      by (simp add: status_ok)
    then show ?thesis by (simp add: step_ok_def free_session_inv)
  qed
  then show ?thesis
    using refuse_ok [OF inv r] by (auto simp: handle_session_deinit_def Let_def split: option.splits prod.splits)
qed

lemma queries_ok:
  assumes inv: "device_inv d" and r: "result_ok r" and g: "gid request = UCI_GID_SESSION_CONFIG"
  shows "oid request = UCI_SESSION_GET_COUNT \<Longrightarrow> step_ok request (handle_session_get_count d request r)"
    and "oid request = UCI_SESSION_QUERY_DATA_SIZE_IN_RANGING \<Longrightarrow>
      step_ok request (handle_session_query_data_size d request r)"
    and "oid request = UCI_SESSION_GET_STATE \<Longrightarrow> step_ok request (handle_session_get_state d request r)"
  using assms refuse_ok [OF inv r]
  by (auto simp: handle_session_get_count_def handle_session_query_data_size_def handle_session_get_state_def
      Let_def split: option.splits intro!: accept_ok respond_ok)

lemma session_ok_multicast:
  "session_ok s \<Longrightarrow> allocated s \<Longrightarrow> multicast_ok es \<Longrightarrow> session_ok (s\<lparr>multicast_entries := es\<rparr>)"
  by (simp add: session_ok_def)

lemma multicast_change_ok:
  assumes "multicast_change action s a sub key = (status, s')" and "session_ok s" and "allocated s"
    and "length key \<le> 32"
  shows "session_ok s' \<and> allocated s' \<and> session_id s' = session_id s"
proof -
  note ok = session_okD(2) [OF assms(2)]
  have "s' = s \<or> (\<exists>es. multicast_ok es \<and> s' = s\<lparr>multicast_entries := es\<rparr>)"
    using assms(1) add_multicast_spec [OF ok assms(4), of a sub status s'] remove_multicast_spec [OF ok, of a sub status s']
    by (auto simp: multicast_change_def split: if_splits)
  with assms(2,3) session_ok_multicast [OF assms(2,3)] show ?thesis by auto
qed

lemma multicast_entry_ok:
  assumes "multicast_entry action rest s = Some (rest', s', answered, status)" and "session_ok s" and "allocated s"
  shows "session_ok s' \<and> allocated s' \<and> session_id s' = session_id s \<and> length answered = 7"
proof -
  let ?key = "take (multicast_key_len action) (drop 6 rest)"
  have "multicast_key_len action \<le> 32" by (simp add: multicast_key_len_def)
  then have len: "length ?key \<le> 32" by simp
  have key: "multicast_change action s (read_u16_le rest) (read_u32_le (drop 2 rest)) ?key = (status, s')"
    using assms(1) unfolding multicast_entry_def Let_def
    by (cases "multicast_change action s (read_u16_le rest) (read_u32_le (drop 2 rest)) ?key")
      (simp split: if_splits)
  have answered: "length answered = 7"
    using assms(1) unfolding multicast_entry_def Let_def by (auto split: if_splits)
  from multicast_change_ok [OF key assms(2,3) len] answered show ?thesis by simp
qed


lemma multicast_loop_ok:
  assumes "multicast_loop n action rest s acc overall processed = (s', acc', overall', processed')"
    and "session_ok s" and "allocated s" and "length acc + 2 \<le> UCI_SIM_MAX_PAYLOAD"
  shows "session_ok s' \<and> allocated s' \<and> session_id s' = session_id s \<and> length acc' + 2 \<le> UCI_SIM_MAX_PAYLOAD"
  using assms
proof (induction n arbitrary: rest s acc overall processed)
  case (Suc n)
  show ?case
  proof (cases "2 + length acc + 7 > UCI_SIM_MAX_PAYLOAD \<or> multicast_entry action rest s = None")
    case True
    with Suc.prems show ?thesis by (auto split: if_splits)
  next
    case False
    then obtain rest1 s1 answered status where entry: "multicast_entry action rest s = Some (rest1, s1, answered, status)"
        and room: "\<not> 2 + length acc + 7 > UCI_SIM_MAX_PAYLOAD" by auto
    from multicast_entry_ok [OF entry Suc.prems(2,3)] room
    have s1: "session_ok s1" "allocated s1" "session_id s1 = session_id s"
      and len: "length (acc @ answered) + 2 \<le> UCI_SIM_MAX_PAYLOAD" by auto
    obtain overall1 where loop: "multicast_loop n action rest1 s1 (acc @ answered) overall1 (processed + 1)
        = (s', acc', overall', processed')"
      using Suc.prems(1) entry room by simp
    from Suc.IH [OF loop s1(1,2) len] s1(3) show ?thesis by simp
  qed
qed simp

lemma handle_session_update_multicast_list_ok:
  assumes inv: "device_inv d" and r: "result_ok r" and g: "gid request = UCI_GID_SESSION_CONFIG"
    and o': "oid request = UCI_SESSION_UPDATE_CONTROLLER_MULTICAST_LIST"
  shows "step_ok request (handle_session_update_multicast_list d request r)"
proof -
  let ?action = "payload request ! 5"
  have go: "step_ok request (rc_of_bool (b = UCI_STATUS_OK), set_session d i s',
      respond r UCI_GID_SESSION_CONFIG UCI_SESSION_UPDATE_CONTROLLER_MULTICAST_LIST (b # n # acc))"
    if "find_session_by_id d sid = Some i"
      "multicast_loop k ?action rest (sessions d ! i) [] UCI_STATUS_OK 0 = (s', acc, ov, pr)"
    for sid i k rest s' acc ov pr b n
  proof -
    note found = found_session [OF that(1) inv]
    from multicast_loop_ok [OF that(2) found(3,2)]
    have "session_ok s'" "session_id s' = session_id (sessions d ! i)" "length acc + 2 \<le> UCI_SIM_MAX_PAYLOAD"
      by simp_all
    with set_session_inv [OF inv found(1,2)] r g o' show ?thesis
      by (intro respond_ok) simp_all
  qed
  show ?thesis
    using refuse_ok [OF inv r] go
    by (auto simp: handle_session_update_multicast_list_def Let_def split: option.splits prod.splits)
qed

lemma handle_session_data_transfer_phase_config_ok:
  assumes inv: "device_inv d" and r: "result_ok r"
  shows "step_ok request (handle_session_data_transfer_phase_config d request r)"
proof -
  have go: "step_ok request (RC_OK, set_session d i ((sessions d ! i)\<lparr>dtp_repetition := a, dtp_control := b,
        dtp_size := n, dtp_payload_len := n, dtp_payload := array_prefix UCI_SIM_DTP_PAYLOAD UCI_SIM_DTP_PAYLOAD
          (take (unat n) bs)\<rparr>), make_status_response request r UCI_STATUS_OK)"
    if "find_session_by_id d sid = Some i" "unat n \<le> UCI_SIM_DTP_PAYLOAD" for sid i a b n bs
  proof -
    note found = found_session [OF that(1) inv]
    have "length (array_prefix UCI_SIM_DTP_PAYLOAD UCI_SIM_DTP_PAYLOAD (take (unat n) bs)) = UCI_SIM_DTP_PAYLOAD"
      using that(2) by (intro length_array_prefix) simp_all
    with found that(2) r inv show ?thesis
      by (intro status_ok set_session_inv') (simp_all add: session_ok_def)
  qed
  show ?thesis
    using refuse_ok [OF inv r] go
    by (auto simp: handle_session_data_transfer_phase_config_def Let_def split: option.splits)
qed

lemma handle_session_update_dt_rounds_ok:
  assumes inv: "device_inv d" and r: "result_ok r" and g: "gid request = UCI_GID_SESSION_CONFIG"
  shows "step_ok request (handle_session_update_dt_rounds anchor d request r)"
proof -
  have go: "step_ok request (RC_OK, set_session d i
        (if anchor then (sessions d ! i)\<lparr>dt_anchor_round_count := n, dt_anchor_round_indexes := rounds\<rparr>
         else (sessions d ! i)\<lparr>dt_tag_round_count := n, dt_tag_round_indexes := rounds\<rparr>),
      respond r UCI_GID_SESSION_CONFIG (oid request) (UCI_STATUS_OK # n # take (unat n) rounds))"
    if "find_session_by_id d sid = Some i" "unat n \<le> UCI_SIM_MAX_DT_ROUNDS"
      "rounds = array_prefix UCI_SIM_MAX_DT_ROUNDS UCI_SIM_MAX_DT_ROUNDS (take (unat n) bs)" for sid i n rounds bs
  proof -
    note found = found_session [OF that(1) inv]
    have "length rounds = UCI_SIM_MAX_DT_ROUNDS"
      unfolding that(3) using that(2) by (intro length_array_prefix) simp_all
    with found that(2) r g inv show ?thesis
      by (intro respond_ok set_session_inv') (simp_all add: session_ok_def rounds_ok_def)
  qed
  show ?thesis
    using refuse_ok [OF inv r] go
    by (auto simp: handle_session_update_dt_rounds_def Let_def not_less split: option.splits)
qed

lemma session_ok_proximity [simp]:
  "allocated s \<Longrightarrow> session_ok (s\<lparr>has_last_proximity_state := a, last_in_proximity_range := b\<rparr>) = session_ok s"
  by (simp add: session_ok_def)

lemma immediate_failure_status:
  "device_inv d \<Longrightarrow> immediate_failure d s k v = Some status \<Longrightarrow> status \<noteq> UCI_STATUS_OK"
  using app_config_fails [OF effective_profile_ok, of d s k v]
  by (auto simp: immediate_failure_def fails_ok_def split: if_splits sum.splits)

text \<open>Setting a parameter touches the session at \<open>i\<close> and the events only.\<close>

lemma set_app_config_ok:
  assumes out: "set_app_config d i k v = (d', status)" and inv: "device_inv d"
    and i: "i < length (sessions d)" and alloc: "allocated (sessions d ! i)"
  shows "device_inv d' \<and> length (sessions d') = length (sessions d) \<and> allocated (sessions d' ! i)
    \<and> session_id (sessions d' ! i) = session_id (sessions d ! i) \<and> status \<noteq> Some UCI_STATUS_OK"
proof -
  let ?s = "sessions d ! i"
  show ?thesis
  proof (cases "uci_sim_profile_supports_session_app_config (dev_profile d) k
      \<and> immediate_failure d ?s k v = None \<and> uci_sim_session_store_config ?s k v \<noteq> None")
    case False
    with out inv alloc immediate_failure_status [OF inv] show ?thesis
      by (auto simp: set_app_config_def split: if_splits option.splits)
  next
    case True
    then obtain s where s: "uci_sim_session_store_config ?s k v = Some s" by blast
    then obtain es where es: "s = ?s\<lparr>configs := es\<rparr>" using store_config_frame by blast
    have "session_ok ?s" using device_invD(6,7) [OF inv] i by simp
    with s alloc have s_ok: "session_ok s" by (blast intro: session_store_config_ok)
    define s' where "s' = (if k = UCI_APP_CONFIG_SESSION_INFO_NTF_CONFIG
        \<or> k = UCI_APP_CONFIG_RNG_DATA_NTF_PROXIMITY_NEAR \<or> k = UCI_APP_CONFIG_RNG_DATA_NTF_PROXIMITY_FAR
      then s\<lparr>has_last_proximity_state := False, last_in_proximity_range := False\<rparr> else s)"
    have s': "session_ok s'" "allocated s'" "session_id s' = session_id ?s"
      using s_ok es alloc by (simp_all add: s'_def)
    let ?d = "set_session d i s'"
    have d: "device_inv ?d" using set_session_inv [OF inv i alloc] s' by simp
    let ?re = "uci_sim_device_reschedule_session_event ?d UCI_SIM_EVENT_RANGE_DATA (session_id s')
        (uci_sim_session_get_ranging_interval_ms s' (Some (effective_profile d)))"
    have "d' = ?d \<and> status = None
        \<or> d' = snd ?re \<and> (status = None \<or> status = Some UCI_STATUS_REJECTED)"
      using out True s unfolding set_app_config_def
      by (auto simp: Let_def s'_def [symmetric] split: if_splits rc.splits prod.splits)
    moreover obtain evs where re: "snd ?re = ?d\<lparr>scheduled_events := evs\<rparr>"
      using reschedule_event_frame by blast
    moreover have "device_inv (?d\<lparr>scheduled_events := evs\<rparr>)"
      unfolding re [symmetric] by (rule reschedule_event_inv [OF d])
    ultimately show ?thesis using d s' i by auto
  qed
qed

lemma app_set_loop_ok:
  assumes "app_set_loop n rest d i = (d', status)" and "device_inv d"
    and "i < length (sessions d)" and "allocated (sessions d ! i)"
  shows "device_inv d'"
  using assms
proof (induction n arbitrary: rest d)
  case (Suc n)
  show ?case
  proof (cases "\<exists>k vl rest'. rest = k # vl # rest' \<and> unat vl \<le> length rest'")
    case False
    with Suc.prems show ?thesis by (auto split: list.splits if_splits)
  next
    case True
    then obtain k vl rest' where rest: "rest = k # vl # rest'" "unat vl \<le> length rest'" by blast
    obtain d1 st where set: "set_app_config d i k (take (unat vl) rest') = (d1, st)"
      by (cases "set_app_config d i k (take (unat vl) rest')")
    from set_app_config_ok [OF set Suc.prems(2-4)] Suc.prems(3)
    have d1: "device_inv d1" "i < length (sessions d1)" "allocated (sessions d1 ! i)" by simp_all
    with Suc.IH [OF _ d1] Suc.prems(1) rest set show ?thesis
      by (auto split: option.splits)
  qed
qed simp

lemma app_get_loop_bound:
  "app_get_loop n rest q s acc k = (acc', k', status) \<Longrightarrow> length acc + 2 \<le> UCI_SIM_MAX_PAYLOAD
   \<Longrightarrow> length acc' + 2 \<le> UCI_SIM_MAX_PAYLOAD"
  by (induction n rest q s acc k rule: app_get_loop.induct) (auto split: list.splits if_splits option.splits)

lemma app_get_all_bound:
  "app_get_all ks s acc k = (acc', k', status) \<Longrightarrow> length acc + 2 \<le> UCI_SIM_MAX_PAYLOAD
   \<Longrightarrow> length acc' + 2 \<le> UCI_SIM_MAX_PAYLOAD"
  by (induction ks s acc k rule: app_get_all.induct) (auto split: if_splits option.splits)

lemma handle_session_set_get_config_ok:
  assumes inv: "device_inv d" and r: "result_ok r" and g: "gid request = UCI_GID_SESSION_CONFIG"
  shows "step_ok request (handle_session_set_get_config is_set d request r)"
proof -
  have set: "step_ok request (rc_of_bool (st = UCI_STATUS_OK), d', respond r UCI_GID_SESSION_CONFIG (oid request) [st, 0])"
    if "find_session_by_id d sid = Some i" "app_set_loop n rest d i = (d', st)" for sid i n rest d' st
    using app_set_loop_ok [OF that(2) inv] found_session [OF that(1) inv] r g by (intro respond_ok) simp_all
  have get: "step_ok request (rc_of_bool (st = UCI_STATUS_OK), d,
      respond r UCI_GID_SESSION_CONFIG (oid request) (st # k # acc))"
    if "length acc + 2 \<le> UCI_SIM_MAX_PAYLOAD" for st k acc
    using that inv r g by (intro respond_ok) simp_all
  let ?count = "payload request ! 4" and ?rest = "drop 5 (payload request)"
  show ?thesis
  proof (cases "payload_len request < 5 \<or> find_session_by_id d (read_u32_le (payload request)) = None")
    case True
    with refuse_ok [OF inv r] show ?thesis
      by (auto simp: handle_session_set_get_config_def Let_def)
  next
    case False
    then obtain i where i: "find_session_by_id d (read_u32_le (payload request)) = Some i" by blast
    obtain d' st where s: "app_set_loop (unat ?count) ?rest d i = (d', st)" by fastforce
    obtain acc k st' where gt: "(if ?count = 0
        then app_get_all (supported_session_app_config_ids (effective_profile d)) (sessions d ! i) [] 0
        else app_get_loop (unat ?count) ?rest (dev_profile d) (sessions d ! i) [] 0) = (acc, k, st')"
      by (metis prod_cases3)
    have "length acc + 2 \<le> UCI_SIM_MAX_PAYLOAD"
      using gt app_get_all_bound [of _ _ "[]"] app_get_loop_bound [of _ _ _ _ "[]"]
      by (auto split: if_splits)
    with set [OF i s] get False i s gt show ?thesis
      by (cases is_set) (simp_all add: handle_session_set_get_config_def Let_def)
  qed
qed

lemma handle_session_config_ok:
  assumes inv: "device_inv d" and r: "result_ok r" and g: "gid request = UCI_GID_SESSION_CONFIG"
  shows "step_ok request (handle_session_config d request r)"
  using refuse_ok [OF inv r] handle_session_init_ok [OF assms] handle_session_deinit_ok [OF inv r]
    queries_ok [OF assms] handle_session_update_multicast_list_ok [OF assms]
    handle_session_data_transfer_phase_config_ok [OF inv r] handle_session_update_dt_rounds_ok [OF assms]
    handle_session_set_get_config_ok [OF assms]
  by (simp add: handle_session_config_def)

subsection \<open>Properties\<close>

lemma live_count:
  "device_inv d \<Longrightarrow> card (session_id ` {s \<in> set (sessions d). allocated s}) = length (filter allocated (sessions d))"
  using device_invD(1) distinct_card [of "map session_id (filter allocated (sessions d))"]
  by (simp add: sessions_ok_def)

lemma emit_status_sessions [simp]:
  "sessions (fst (emit_session_status_ntf d sid st r)) = sessions d"
  by (simp add: emit_session_status_ntf_def emit_session_status_ntf_with_reason_def deliver_def
      uci_sim_device_deliver_notification_def uci_sim_device_queue_notification_def)

lemma live_after_alloc:
  assumes "alloc_session d sid = Some (d', i)" and inv: "device_inv d"
  shows "session_id ` {s \<in> set (sessions d'). allocated s} = insert sid (session_id ` {s \<in> set (sessions d). allocated s})"
proof -
  from alloc_session_SomeD [OF assms] have i: "i < length (sessions d)" "\<not> allocated (sessions d ! i)"
      and d': "d' = set_session d i (fresh_session d zero_session sid)" by simp_all
  have "{s \<in> set (sessions d'). allocated s} = insert (fresh_session d zero_session sid) {s \<in> set (sessions d). allocated s}"
    using i fresh_session_facts(2) [OF inv, of sid]
    by (auto simp: d' in_set_conv_nth nth_list_update; metis)
  then show ?thesis using fresh_session_facts(3) [OF inv, of sid] by simp
qed

text \<open>
  C15. SESSION_INIT keeps a set of at most eight ids: a well-formed ranging request for an id
  that is there, or for a new one while fewer than eight are, is accepted and the id is in the
  set afterwards; otherwise it is refused and the device is as before.
\<close>

theorem session_init_capacity:
  assumes inv: "device_inv d" and req: "5 \<le> payload_len request" "payload request ! 4 = UCI_SESSION_TYPE_RANGING"
  shows "case handle_session_init d request r of (c, d', r') \<Rightarrow>
    let sid = read_u32_le (payload request);
        live = session_id ` {s \<in> set (sessions d). allocated s};
        live' = session_id ` {s \<in> set (sessions d'). allocated s}
    in if sid \<in> live \<or> card live < UCI_SIM_MAX_SESSIONS then c = RC_OK \<and> live' = insert sid live
       else c = RC_FAIL \<and> d' = d"
proof (cases "find_session_by_id d (read_u32_le (payload request))")
  case (Some i)
  then have "read_u32_le (payload request) \<in> session_id ` {s \<in> set (sessions d). allocated s}"
    using find_session_SomeD [OF Some inv] by (auto simp: image_iff in_set_conv_nth)
  with Some req show ?thesis
    by (simp add: handle_session_init_def Let_def split_def insert_absorb)
next
  case None
  then have new: "read_u32_le (payload request) \<notin> session_id ` {s \<in> set (sessions d). allocated s}"
    by (auto simp: find_session_None_iff in_set_conv_nth)
  have len: "length (sessions d) = UCI_SIM_MAX_SESSIONS" by (rule device_invD(6) [OF inv])
  show ?thesis
  proof (cases "alloc_session d (read_u32_le (payload request))")
    case full: None
    then have "filter allocated (sessions d) = sessions d" by (simp add: alloc_session_None_iff filter_id_conv)
    with live_count [OF inv] len None full req new show ?thesis
      by (simp add: handle_session_init_def Let_def refuse_def)
  next
    case (Some x)
    obtain d' i where x: "x = (d', i)" by (cases x)
    have "length (filter allocated (sessions d)) < UCI_SIM_MAX_SESSIONS"
      using alloc_session_SomeD [OF Some [unfolded x] inv] length_filter_less [of "sessions d ! i" "sessions d" allocated] len
      by simp
    with live_count [OF inv] live_after_alloc [OF Some [unfolded x] inv] None Some x req show ?thesis
      by (simp add: handle_session_init_def Let_def split_def)
  qed
qed

lemma session_init_capacity_witness:
  "fst (handle_session_init uci_sim_device_init
      \<lparr>mt = UCI_MT_COMMAND, pbf = 0, gid = UCI_GID_SESSION_CONFIG, oid = UCI_SESSION_INIT, payload = [3, 0, 0, 0, 0]\<rparr> init_result) = RC_OK"
proof -
  have "sessions uci_sim_device_init = replicate UCI_SIM_MAX_SESSIONS zero_session"
    by (simp add: uci_sim_device_init_def uci_sim_device_init_with_scenario_def uci_sim_device_init_with_profile_def
        apply_profile_defaults_def zero_device_def)
  then have none: "{s \<in> set (sessions uci_sim_device_init). allocated s} = {}" by auto
  show ?thesis
    using session_init_capacity [OF start_up_inv, of "\<lparr>mt = UCI_MT_COMMAND, pbf = 0, gid = UCI_GID_SESSION_CONFIG,
        oid = UCI_SESSION_INIT, payload = [3, 0, 0, 0, 0]\<rparr>" init_result]
    by (simp add: payload_len_def none split_def Let_def)
qed

text \<open>
  C16. A new session reads back the profile's default parameters, all of them, and nothing else.
\<close>

theorem new_session_has_defaults:
  assumes "device_inv d" and "alloc_session d sid = Some (d', i)"
    and "length (default_app_configs (effective_profile d)) \<le> UCI_SIM_MAX_SESSION_CONFIGS"
  shows "uci_sim_session_get_config (sessions d' ! i) = map_of (rev (default_app_configs (effective_profile d)))"
  using alloc_session_SomeD [OF assms(2,1)] fresh_session_defaults [OF assms(1,3), of sid] by auto

lemma new_session_has_defaults_witness:
  "case alloc_session uci_sim_device_init 5 of None \<Rightarrow> False
    | Some (d', i) \<Rightarrow> uci_sim_session_get_config (sessions d' ! i) =
        map_of (rev (default_app_configs uci_sim_default_profile))"
proof -
  have d: "sessions uci_sim_device_init = replicate UCI_SIM_MAX_SESSIONS zero_session"
      "effective_profile uci_sim_device_init = uci_sim_default_profile"
    by (simp_all add: uci_sim_device_init_def uci_sim_device_init_with_scenario_def uci_sim_device_init_with_profile_def
        apply_profile_defaults_def zero_device_def effective_profile_def)
  have "alloc_session uci_sim_device_init 5 \<noteq> None" by (simp add: alloc_session_None_iff d)
  then obtain d' i where a: "alloc_session uci_sim_device_init 5 = Some (d', i)" by fast
  have "length (default_app_configs uci_sim_default_profile) \<le> UCI_SIM_MAX_SESSION_CONFIGS" by code_simp
  with new_session_has_defaults [OF start_up_inv a] a d show ?thesis by simp
qed

text \<open>
  What one \<open>SET_APP_CONFIG\<close> parameter can do: nothing, for one of three reasons, or store the
  value, after which only the rescheduling of the ranging stream can still be refused.
\<close>

definition config_refusal :: "uci_sim_device \<Rightarrow> nat \<Rightarrow> u8 \<Rightarrow> bytes \<Rightarrow> u8 option" where
  "config_refusal d i k v =
     (let s = sessions d ! i; known = uci_sim_session_get_config s in
      if \<not> uci_sim_profile_supports_session_app_config (dev_profile d) k then Some UCI_STATUS_INVALID_PARAM
      else case immediate_failure d s k v of
        Some status \<Rightarrow> Some status
      | None \<Rightarrow>
          if length v > UCI_SIM_MAX_CONFIG_VALUE
              \<or> known k = None \<and> card (dom known) \<ge> UCI_SIM_MAX_SESSION_CONFIGS
          then Some UCI_STATUS_REJECTED else None)"

definition no_room_to_reschedule :: "uci_sim_device \<Rightarrow> nat \<Rightarrow> u8 \<Rightarrow> bool" where
  "no_room_to_reschedule d i k \<longleftrightarrow>
     k = UCI_APP_CONFIG_RANGING_INTERVAL
     \<and> state (sessions d ! i) = UCI_SESSION_STATE_ACTIVE \<and> ranging_stream_remaining (sessions d ! i) > 0
     \<and> length (filter (\<lambda>e. \<not> (ev_type e = UCI_SIM_EVENT_RANGE_DATA \<and> ev_session_id e = session_id (sessions d ! i)))
                 (scheduled_events d)) \<ge> UCI_SIM_MAX_SCENARIO_EVENTS"

lemma sessions_after:
  "sessions (d\<lparr>sessions := ss, scheduled_events := es\<rparr>) = ss"
  "dev_profile (d\<lparr>sessions := ss, scheduled_events := es\<rparr>) = dev_profile d"
  "pending_notifications (d\<lparr>sessions := ss, scheduled_events := es\<rparr>) = pending_notifications d"
  by simp_all

lemma pair_if_cases:
  "(y, st) = (if c then (y1, if b then None else Some z) else (y2, None)) \<Longrightarrow> (c \<and> \<not> b \<longleftrightarrow> n)
   \<Longrightarrow> (y = y2 \<or> y = y1) \<and> st = (if n then Some z else None)"
  by (auto split: if_splits)

lemma set_app_config_outcome:
  assumes inv: "device_inv d" and i: "i < length (sessions d)"
    and out: "set_app_config d i k v = (d', status)"
  shows "case config_refusal d i k v of
      Some st \<Rightarrow> status = Some st \<and> st \<noteq> UCI_STATUS_OK \<and> d' = d
    | None \<Rightarrow> status = (if no_room_to_reschedule d i k then Some UCI_STATUS_REJECTED else None)
        \<and> uci_sim_profile_supports_session_app_config (dev_profile d) k
        \<and> immediate_failure d (sessions d ! i) k v = None
        \<and> uci_sim_session_get_config (sessions d' ! i) = (uci_sim_session_get_config (sessions d ! i))(k \<mapsto> v)
        \<and> d' = d\<lparr>sessions := (sessions d)[i := sessions d' ! i], scheduled_events := scheduled_events d'\<rparr>"
proof -
  let ?s = "sessions d ! i"
  have ok: "session_ok ?s" using device_invD(6,7) [OF inv] i by simp
  have stored: "uci_sim_session_store_config ?s k v \<noteq> None \<longleftrightarrow>
      length v \<le> UCI_SIM_MAX_CONFIG_VALUE \<and> (uci_sim_session_get_config ?s k \<noteq> None
        \<or> card (dom (uci_sim_session_get_config ?s)) < UCI_SIM_MAX_SESSION_CONFIGS)"
    using session_configs.store_defined [of ?s k v] session_okD(1) [OF ok] by simp
  show ?thesis
  proof (cases "config_refusal d i k v")
    case (Some st)
    with out immediate_failure_status [OF inv] stored show ?thesis
      by (auto simp: set_app_config_def config_refusal_def Let_def not_le not_less
          split: if_splits option.splits)
  next
    case None
    then have fine: "uci_sim_profile_supports_session_app_config (dev_profile d) k" "immediate_failure d ?s k v = None"
        "uci_sim_session_store_config ?s k v \<noteq> None"
      by (auto simp del: not_None_eq simp: stored config_refusal_def Let_def split: if_splits option.splits)
    then obtain s where s: "uci_sim_session_store_config ?s k v = Some s" by blast
    define s' where "s' = (if k = UCI_APP_CONFIG_SESSION_INFO_NTF_CONFIG
        \<or> k = UCI_APP_CONFIG_RNG_DATA_NTF_PROXIMITY_NEAR \<or> k = UCI_APP_CONFIG_RNG_DATA_NTF_PROXIMITY_FAR
      then s\<lparr>has_last_proximity_state := False, last_in_proximity_range := False\<rparr> else s)"
    have "uci_sim_session_get_config s = (uci_sim_session_get_config ?s)(k \<mapsto> v)"
      using session_configs.store_lookup [OF _ s] ok by (simp add: session_okD(1))
    moreover have "configs s' = configs s" by (simp add: s'_def)
    then have "uci_sim_session_get_config s' = uci_sim_session_get_config s"
      by (simp add: fun_eq_iff uci_sim_session_get_config_def)
    ultimately have get: "uci_sim_session_get_config s' = (uci_sim_session_get_config ?s)(k \<mapsto> v)" by simp
    have same: "state s' = state ?s" "ranging_stream_remaining s' = ranging_stream_remaining ?s"
        "session_id s' = session_id ?s"
      using s by (auto simp: s'_def uci_sim_session_store_config_def)
    let ?re = "uci_sim_device_reschedule_session_event (set_session d i s') UCI_SIM_EVENT_RANGE_DATA (session_id s')
        (uci_sim_session_get_ranging_interval_ms s' (Some (effective_profile d)))"
    obtain evs where evs: "snd ?re = (set_session d i s')\<lparr>scheduled_events := evs\<rparr>"
      using reschedule_event_frame by blast
    have failed: "fst ?re = RC_OK \<longleftrightarrow> length (filter (\<lambda>e. \<not> (ev_type e = UCI_SIM_EVENT_RANGE_DATA \<and> ev_session_id e = session_id ?s))
                 (scheduled_events d)) < UCI_SIM_MAX_SCENARIO_EVENTS"
      by (simp add: uci_sim_device_reschedule_session_event_def uci_sim_device_schedule_event_def Let_def same)
    have "(d', status) = (if k = UCI_APP_CONFIG_RANGING_INTERVAL \<and> state s' = UCI_SESSION_STATE_ACTIVE
              \<and> ranging_stream_remaining s' > 0
            then (snd ?re, if fst ?re = RC_OK then None else Some UCI_STATUS_REJECTED)
            else (set_session d i s', None))"
      using out fine s unfolding set_app_config_def
      by (auto simp: Let_def s'_def [symmetric] split: if_splits rc.splits prod.splits)
    moreover have "(k = UCI_APP_CONFIG_RANGING_INTERVAL \<and> state s' = UCI_SESSION_STATE_ACTIVE
              \<and> ranging_stream_remaining s' > 0) \<and> fst ?re \<noteq> RC_OK \<longleftrightarrow> no_room_to_reschedule d i k"
      unfolding failed unfolding no_room_to_reschedule_def same not_less by blast
    ultimately have "(d' = set_session d i s' \<or> d' = snd ?re)
        \<and> status = (if no_room_to_reschedule d i k then Some UCI_STATUS_REJECTED else None)"
      by (rule pair_if_cases)
    then have d': "d' = set_session d i s' \<or> d' = snd ?re"
        and st: "status = (if no_room_to_reschedule d i k then Some UCI_STATUS_REJECTED else None)" by blast+
    from d' evs have "\<exists>es. d' = d\<lparr>sessions := (sessions d)[i := s'], scheduled_events := es\<rparr>"
      by (auto simp: set_session_def intro: exI [of _ "scheduled_events d"] exI [of _ evs])
    then have d': "d' = d\<lparr>sessions := (sessions d)[i := s'], scheduled_events := scheduled_events d'\<rparr>"
      by (auto simp: set_session_def)
    then have s': "sessions d' ! i = s'" using i by (metis nth_list_update_eq sessions_after)
    show ?thesis using d' get fine None st by (simp add: s')
  qed
qed

lemma set_app_config_accepted:
  assumes "device_inv d" and "i < length (sessions d)" and "set_app_config d i k v = (d', None)"
  shows "uci_sim_profile_supports_session_app_config (dev_profile d) k \<and> dev_profile d' = dev_profile d
    \<and> uci_sim_session_get_config (sessions d' ! i) = (uci_sim_session_get_config (sessions d ! i))(k \<mapsto> v)"
proof -
  from set_app_config_outcome [OF assms]
  have "d' = d\<lparr>sessions := (sessions d)[i := sessions d' ! i], scheduled_events := scheduled_events d'\<rparr>"
    by (simp split: option.splits)
  then have "dev_profile d' = dev_profile d" by (metis sessions_after(2))
  with set_app_config_outcome [OF assms] show ?thesis by (simp split: option.splits)
qed



text \<open>The parameters of a request as the host encodes them, and setting them one by one.\<close>

definition app_config_tlvs :: "(u8 \<times> bytes) list \<Rightarrow> bytes" where
  "app_config_tlvs kvs = concat (map (\<lambda>(k, v). k # of_nat (length v) # v) kvs)"

fun set_app_configs :: "(u8 \<times> bytes) list \<Rightarrow> uci_sim_device \<Rightarrow> nat \<Rightarrow> uci_sim_device \<times> u8" where
  "set_app_configs [] d i = (d, UCI_STATUS_OK)"
| "set_app_configs ((k, v) # kvs) d i =
     (case set_app_config d i k v of (d', Some status) \<Rightarrow> (d', status) | (d', None) \<Rightarrow> set_app_configs kvs d' i)"

text \<open>
  C14. The loop over the bytes of SESSION_SET_APP_CONFIG does what setting the encoded parameters
  one after the other does, up to the first that is refused, whatever bytes follow.
\<close>

theorem app_set_loop_sets_each:
  assumes "list_all (\<lambda>(k, v). length v \<le> 255) kvs"
  shows "app_set_loop (length kvs) (app_config_tlvs kvs @ rest) d i = set_app_configs kvs d i"
  using assms
proof (induction kvs arbitrary: d)
  case Nil
  then show ?case by simp
next
  case (Cons kv kvs)
  obtain k v where kv: "kv = (k, v)" by (cases kv)
  have len: "unat (of_nat (length v) :: u8) = length v"
    using Cons.prems kv by (simp add: unat_of_nat)
  have IH: "app_set_loop (length kvs) (app_config_tlvs kvs @ rest) d' i = set_app_configs kvs d' i" for d'
    using Cons by simp
  then show ?case
    by (simp add: kv app_config_tlvs_def len split: prod.splits option.splits)
qed

lemma app_set_loop_sets_each_witness:
  "app_set_loop 2 [0x09, 4, 200, 0, 0, 0, 0x04, 1, 9] uci_sim_device_init 0 =
     set_app_configs [(0x09, [200, 0, 0, 0]), (0x04, [9])] uci_sim_device_init 0"
  using app_set_loop_sets_each [of "[(0x09, [200, 0, 0, 0]), (0x04, [9])]" "[]"]
  by (simp add: app_config_tlvs_def numeral_2_eq_2)

lemma after_session_id [simp]:
  "drop 5 (write_u32_le sid @ b # bs) = bs" "(write_u32_le sid @ b # bs) ! 4 = b"
  by (simp_all add: write_u32_le_def)

text \<open>
  C12. Set then get: a parameter the device accepts over SESSION_SET_APP_CONFIG is read back
  unchanged by the next SESSION_GET_APP_CONFIG for it.
\<close>

theorem app_config_set_then_get:
  assumes inv: "device_inv d" and found: "find_session_by_id d sid = Some i"
    and set: "payload setting = write_u32_le sid @ [1, k, of_nat (length v)] @ v" "length v \<le> UCI_SIM_MAX_CONFIG_VALUE"
    and accepted: "handle_session_set_get_config True d setting r = (RC_OK, d', r')"
    and get: "payload getting = write_u32_le sid @ [1, k]"
  shows "handle_session_set_get_config False d' getting r'' = (RC_OK, d',
    respond r'' UCI_GID_SESSION_CONFIG (oid getting) (UCI_STATUS_OK # 1 # k # of_nat (length v) # v))"
proof -
  have len: "unat (of_nat (length v) :: u8) = length v" using set(2) by (simp add: unat_of_nat)
  note i = found_session [OF found inv]
  obtain d1 st where step: "set_app_config d i k v = (d1, st)" by (cases "set_app_config d i k v")
  have loop: "app_set_loop 1 (k # of_nat (length v) # v) d i = (case st of Some status \<Rightarrow> (d1, status) | None \<Rightarrow> (d1, UCI_STATUS_OK))"
    by (simp add: len step split: option.splits)
  note outcome = set_app_config_accepted [OF inv i(1)]
  note ok = set_app_config_ok [OF step inv i(1,2)]
  have st: "st = None" and d': "d' = d1"
    using accepted found set loop ok
    by (auto simp: handle_session_set_get_config_def payload_len_def rc_of_bool_def split: option.splits if_splits)
  have "find_session_by_id d' sid = Some i"
    using ok i d' find_session_SomeD(3) [OF found inv] by (simp add: find_session_eq_Some)
  with outcome [of k v d'] step st d' get set(2) show ?thesis
    by (simp add: handle_session_set_get_config_def payload_len_def rc_of_bool_def)
qed

text \<open>A device with one session to try it on.\<close>

definition one_session :: uci_sim_session where
  "one_session = zero_session\<lparr>allocated := True, session_id := 3\<rparr>"

definition one_session_device :: uci_sim_device where
  "one_session_device = set_session uci_sim_device_init 0 one_session"

lemma start_up_sessions: "sessions uci_sim_device_init = replicate UCI_SIM_MAX_SESSIONS zero_session"
  "dev_profile uci_sim_device_init = Some uci_sim_default_profile"
  by (simp_all add: uci_sim_device_init_def uci_sim_device_init_with_scenario_def uci_sim_device_init_with_profile_def
      apply_profile_defaults_def zero_device_def)

lemma one_session_facts:
  "device_inv one_session_device" "find_session_by_id one_session_device 3 = Some 0"
  "sessions one_session_device ! 0 = one_session" "dev_profile one_session_device = Some uci_sim_default_profile"
proof -
  have s: "session_ok one_session"
    using zero_session_ok
    by (simp add: one_session_def session_ok_def protocol_state_def) (simp add: zero_session_def)
  have "sessions_ok ((sessions uci_sim_device_init)[0 := one_session])"
    by (rule sessions_ok_update [OF device_invD(1) [OF start_up_inv] s]) (simp add: start_up_sessions nth_Cons')
  with start_up_inv show inv: "device_inv one_session_device"
    by (simp add: device_inv_def one_session_device_def)
  show "find_session_by_id one_session_device 3 = Some 0" "sessions one_session_device ! 0 = one_session"
    unfolding find_session_eq_Some [OF inv]
    by (simp_all add: one_session_device_def start_up_sessions one_session_def)
  show "dev_profile one_session_device = Some uci_sim_default_profile"
    by (simp add: one_session_device_def start_up_sessions)
qed

lemma app_config_set_then_get_witness:
  "\<exists>d' r'. handle_session_set_get_config True one_session_device
      \<lparr>mt = UCI_MT_COMMAND, pbf = 0, gid = UCI_GID_SESSION_CONFIG, oid = UCI_SESSION_SET_APP_CONFIG,
       payload = [3, 0, 0, 0, 1, UCI_APP_CONFIG_RANGING_INTERVAL, 4, 200, 0, 0, 0]\<rparr> init_result = (RC_OK, d', r')
    \<and> handle_session_set_get_config False d'
        \<lparr>mt = UCI_MT_COMMAND, pbf = 0, gid = UCI_GID_SESSION_CONFIG, oid = UCI_SESSION_GET_APP_CONFIG,
         payload = [3, 0, 0, 0, 1, UCI_APP_CONFIG_RANGING_INTERVAL]\<rparr> init_result
      = (RC_OK, d', respond init_result UCI_GID_SESSION_CONFIG UCI_SESSION_GET_APP_CONFIG
          [UCI_STATUS_OK, 1, UCI_APP_CONFIG_RANGING_INTERVAL, 4, 200, 0, 0, 0])"
proof -
  let ?set = "\<lparr>mt = UCI_MT_COMMAND, pbf = 0, gid = UCI_GID_SESSION_CONFIG, oid = UCI_SESSION_SET_APP_CONFIG,
      payload = [3, 0, 0, 0, 1, UCI_APP_CONFIG_RANGING_INTERVAL, 4, 200, 0, 0, 0]\<rparr>"
  let ?get = "\<lparr>mt = UCI_MT_COMMAND, pbf = 0, gid = UCI_GID_SESSION_CONFIG, oid = UCI_SESSION_GET_APP_CONFIG,
      payload = [3, 0, 0, 0, 1, UCI_APP_CONFIG_RANGING_INTERVAL]\<rparr>"
  have sid: "write_u32_le 3 = [3, 0, 0, 0]" by (simp add: write_u32_le_def)
  have three: "read_u32_le (3 # 0 # 0 # 0 # bs) = 3" for bs
    using read_write_u32 [of 3 bs] by (simp add: sid)
  have support: "uci_sim_profile_supports_session_app_config (Some uci_sim_default_profile) UCI_APP_CONFIG_RANGING_INTERVAL"
    by code_simp
  have valid: "uci_sim_validate_session_app_config (Some uci_sim_default_profile) one_session UCI_APP_CONFIG_RANGING_INTERVAL [200, 0, 0, 0] = Inr ()"
    by (simp add: uci_sim_validate_session_app_config_def validate_ok read_u32_le_def uci_sim_default_profile_def
        k_default_profile_def default_limits_def)
  have "uci_sim_session_get_config one_session = Map.empty" "configs_ok (configs one_session)"
    using session_okD(1) [OF zero_session_ok]
    by (auto simp: one_session_def uci_sim_session_get_config_def zero_session_def fun_eq_iff)
  then have "uci_sim_session_store_config one_session UCI_APP_CONFIG_RANGING_INTERVAL [200, 0, 0, 0] \<noteq> None"
    by (subst session_configs.store_defined) simp_all
  then obtain s where s: "uci_sim_session_store_config one_session UCI_APP_CONFIG_RANGING_INTERVAL [200, 0, 0, 0] = Some s" by blast
  then obtain es where es: "s = one_session\<lparr>configs := es\<rparr>" using store_config_frame by blast
  have step: "set_app_config one_session_device 0 UCI_APP_CONFIG_RANGING_INTERVAL [200, 0, 0, 0] = (set_session one_session_device 0 s, None)"
    using support valid s es
    by (simp add: set_app_config_def immediate_failure_def one_session_facts Let_def one_session_def zero_session_def)
  have "handle_session_set_get_config True one_session_device ?set init_result =
      (RC_OK, set_session one_session_device 0 s, respond init_result UCI_GID_SESSION_CONFIG UCI_SESSION_SET_APP_CONFIG [UCI_STATUS_OK, 0])"
    by (simp add: handle_session_set_get_config_def payload_len_def three one_session_facts step rc_of_bool_def)
  moreover from app_config_set_then_get [OF one_session_facts(1,2) _ _ this, of UCI_APP_CONFIG_RANGING_INTERVAL
      "[200, 0, 0, 0]" ?get init_result]
  have "handle_session_set_get_config False (set_session one_session_device 0 s) ?get init_result
      = (RC_OK, set_session one_session_device 0 s, respond init_result UCI_GID_SESSION_CONFIG UCI_SESSION_GET_APP_CONFIG
          [UCI_STATUS_OK, 1, UCI_APP_CONFIG_RANGING_INTERVAL, 4, 200, 0, 0, 0])"
    by (simp add: sid)
  ultimately show ?thesis by blast
qed

end
