(* ===== verification/Handlers_Control.thy ===== *)
theory Handlers_Control
  imports Handlers_Session
begin

text \<open>
  \<open>src/handlers/uci_sim_handlers.c\<close>, last part: the SESSION_CONTROL group (ranging start and
  stop through the profile's transition table, logical links), DATA messages and the entry
  point \<open>uci_sim_device_handle_packet\<close>.
\<close>

subsection \<open>Logical links\<close>

definition handle_logical_link_create :: "nat \<Rightarrow> u32 \<Rightarrow> handler" where
  "handle_logical_link_create i sid d request r =
     (if payload_len request < 5 then refuse UCI_STATUS_INVALID_MSG_SIZE d request r
      else
        let requested_id = payload request ! 4;
            mode = (if payload_len request \<ge> 6 then payload request ! 5 else 0);
            credit = (if payload_len request \<ge> 7 then payload request ! 6 else 1);
            s = sessions d ! i;
            failed = (\<lambda>status. (RC_FAIL, d,
               respond r UCI_GID_SESSION_CONTROL UCI_SESSION_LOGICAL_LINK_CREATE [status, 0xFF, 0]))
        in if requested_id \<noteq> 0xFF \<and> uci_sim_session_find_logical_link s requested_id \<noteq> None then
             failed UCI_STATUS_INVALID_PARAM
           else if length (logical_links s) \<ge> UCI_SIM_MAX_LOGICAL_LINKS then
             failed UCI_STATUS_MULTICAST_LIST_FULL
           else
             case uci_sim_session_allocate_logical_link s requested_id of
               None \<Rightarrow> failed UCI_STATUS_INVALID_PARAM
             | Some (s1, k, assigned_id) \<Rightarrow>
                 let entry = (logical_links s1 ! k)\<lparr>ll_mode := mode, ll_credit := credit\<rparr>;
                     s2 = s1\<lparr>logical_links := (logical_links s1)[k := entry]\<rparr>
                 in (RC_OK, emit_logical_link_notification (set_session d i s2)
                      (respond r UCI_GID_SESSION_CONTROL UCI_SESSION_LOGICAL_LINK_CREATE
                         [UCI_STATUS_OK, assigned_id, credit])
                      sid UCI_SESSION_LOGICAL_LINK_UWBS_CREATE assigned_id credit))"

definition handle_logical_link_close :: "nat \<Rightarrow> u32 \<Rightarrow> handler" where
  "handle_logical_link_close i sid d request r =
     (if payload_len request < 5 then refuse UCI_STATUS_INVALID_MSG_SIZE d request r
      else
        let link_id = payload request ! 4
        in case uci_sim_session_remove_logical_link (sessions d ! i) link_id of
             None \<Rightarrow> (RC_FAIL, d, respond r UCI_GID_SESSION_CONTROL UCI_SESSION_LOGICAL_LINK_CLOSE
                                    [UCI_STATUS_INVALID_PARAM, link_id])
           | Some s \<Rightarrow>
               (RC_OK, emit_logical_link_notification (set_session d i s)
                  (respond r UCI_GID_SESSION_CONTROL UCI_SESSION_LOGICAL_LINK_CLOSE [UCI_STATUS_OK, link_id])
                  sid UCI_SESSION_LOGICAL_LINK_UWBS_CLOSE link_id 0x00))"

definition handle_logical_link_get_param :: "nat \<Rightarrow> handler" where
  "handle_logical_link_get_param i d request r =
     (if payload_len request < 5 then refuse UCI_STATUS_INVALID_MSG_SIZE d request r
      else
        let link_id = payload request ! 4; s = sessions d ! i;
            answer = respond r UCI_GID_SESSION_CONTROL UCI_SESSION_LOGICAL_LINK_GET_PARAM
        in case uci_sim_session_find_logical_link s link_id of
             None \<Rightarrow> (RC_FAIL, d, answer [UCI_STATUS_INVALID_PARAM, link_id, 0, 0])
           | Some k \<Rightarrow>
               (RC_OK, d, answer [UCI_STATUS_OK, link_id, ll_mode (logical_links s ! k),
                                  ll_credit (logical_links s ! k)]))"

subsection \<open>Starting and stopping\<close>

definition state_allowed :: "uci_sim_session_transition \<Rightarrow> u8 \<Rightarrow> bool" where
  "state_allowed t st \<longleftrightarrow> ucast (tr_allowed_states_mask t) AND (push_bit (unat st) 1 :: u32) \<noteq> 0"

text \<open>The part after the checks: the transition itself, its response, its notification and the hooks.\<close>

definition apply_transition ::
    "nat \<Rightarrow> u32 \<Rightarrow> uci_sim_session_transition \<Rightarrow> handler" where
  "apply_transition i sid t d request r =
     (let s = sessions d ! i;
          s1 = (if oid request = UCI_SESSION_START \<or> oid request = UCI_SESSION_STOP
                then s\<lparr>has_last_proximity_state := False, last_in_proximity_range := False\<rparr> else s);
          s2 = s1\<lparr>state := tr_next_state t\<rparr>;
          (d1, r1) = emit_session_status_ntf (set_session d i s2) sid (tr_next_state t)
                       (make_status_response request r UCI_STATUS_OK);
          d2 = (if oid request = UCI_SESSION_START then snd (uci_sim_scenario_on_session_started d1 i)
                else if oid request = UCI_SESSION_STOP then uci_sim_scenario_on_session_stopped d1 i
                else d1)
      in (RC_OK, d2, r1))"

definition handle_session_transition :: "nat \<Rightarrow> u32 \<Rightarrow> handler" where
  "handle_session_transition i sid d request r =
     (case uci_sim_profile_get_session_transition (dev_profile d) (oid request) of
        None \<Rightarrow> refuse UCI_STATUS_UNKNOWN_OID d request r
      | Some t \<Rightarrow>
          if \<not> state_allowed t (state (sessions d ! i)) then refuse (tr_invalid_status t) d request r
          else if oid request = UCI_SESSION_START then
            (case uci_sim_validate_session_start (Some (effective_profile d)) (sessions d ! i) of
               Inl f \<Rightarrow>
                 if inv_surface f = UCI_SIM_INVALID_CONFIG_SURFACE_SESSION_STATUS then
                   (RC_OK, emit_session_status_ntf_with_reason d sid (state (sessions d ! i)) (inv_reason f)
                      (make_status_response request r UCI_STATUS_OK))
                 else refuse (inv_status f) d request r
             | Inr _ \<Rightarrow> apply_transition i sid t d request r)
          else apply_transition i sid t d request r)"

definition handle_session_control :: handler where
  "handle_session_control d request r =
     (if \<not> uci_sim_profile_supports_command (dev_profile d) (gid request) (oid request) then
        refuse UCI_STATUS_UNKNOWN_OID d request r
      else if payload_len request < 4 then refuse UCI_STATUS_INVALID_MSG_SIZE d request r
      else
        let sid = read_u32_le (payload request)
        in case find_session_by_id d sid of
             None \<Rightarrow> refuse UCI_STATUS_INVALID_PARAM d request r
           | Some i \<Rightarrow>
               if oid request = UCI_SESSION_GET_RANGING_COUNT then
                 accept UCI_GID_SESSION_CONTROL UCI_SESSION_GET_RANGING_COUNT
                   (UCI_STATUS_OK # write_u32_le (ranging_count (sessions d ! i))) d r
               else if oid request = UCI_SESSION_LOGICAL_LINK_CREATE then
                 handle_logical_link_create i sid d request r
               else if oid request = UCI_SESSION_LOGICAL_LINK_CLOSE then
                 handle_logical_link_close i sid d request r
               else if oid request = UCI_SESSION_LOGICAL_LINK_GET_PARAM then
                 handle_logical_link_get_param i d request r
               else handle_session_transition i sid d request r)"

subsection \<open>DATA messages\<close>

definition reject_data :: "uci_sim_device \<Rightarrow> u32 \<Rightarrow> u16 \<Rightarrow> u8 \<Rightarrow> u8 \<Rightarrow> uci_sim_result
    \<Rightarrow> rc \<times> uci_sim_device \<times> uci_sim_result" where
  "reject_data d sid sequence_number status tx_count r =
     (RC_FAIL, d, r\<lparr>notification := Some
        \<lparr>mt = UCI_MT_NOTIFICATION, pbf = UCI_PBF_COMPLETE, gid = UCI_GID_SESSION_CONTROL,
         oid = UCI_SESSION_DATA_TRANSFER_STATUS_NTF,
         payload = write_u32_le sid @ write_u16_le sequence_number @ [status, tx_count]\<rparr>\<rparr>)"

text \<open>A credit and a transfer status, one after the other.\<close>

definition queue_data_done :: "uci_sim_device \<Rightarrow> u32 \<Rightarrow> u16 \<Rightarrow> u8 \<Rightarrow> rc \<times> uci_sim_device" where
  "queue_data_done d sid sequence_number status =
     (let (c, d1) = uci_sim_device_queue_data_credit_notification d sid 1
      in if c \<noteq> RC_OK then (RC_FAIL, d1)
         else uci_sim_device_queue_data_transfer_status_notification d1 sid sequence_number status 1)"

definition start_data_transfer ::
    "uci_sim_device \<Rightarrow> nat \<Rightarrow> u32 \<Rightarrow> u16 \<Rightarrow> u8 \<Rightarrow> rc \<times> uci_sim_device" where
  "start_data_transfer d i sid sequence_number repetitions =
     (let s = (sessions d ! i)\<lparr>data_transfer_in_progress := True,
                 data_transfer_repetitions_remaining := repetitions,
                 data_transfer_tx_count := 0, data_transfer_sequence := sequence_number\<rparr>;
          (c, d1) = uci_sim_device_schedule_event (set_session d i s) UCI_SIM_EVENT_DATA_TRANSFER sid
                      (uci_sim_session_get_ranging_interval_ms s (Some (effective_profile d)))
      in if c \<noteq> RC_OK then
           (RC_FAIL, set_session d1 i ((sessions d1 ! i)\<lparr>data_transfer_in_progress := False,
              data_transfer_repetitions_remaining := 0, data_transfer_tx_count := 0\<rparr>))
         else (RC_OK, d1))"

definition handle_data_message_send :: handler where
  "handle_data_message_send d request r =
     (if gid request \<noteq> UCI_DATA_PACKET_FORMAT_SEND \<or> oid request \<noteq> 0x00 then (RC_FAIL, d, r)
      else if payload_len request < 16 then (RC_FAIL, d, r)
      else
        let sid = read_u32_le (payload request);
            sequence_number = read_u16_le (drop 12 (payload request));
            declared_length = read_u16_le (drop 14 (payload request))
        in if 16 + unat declared_length > payload_len request then
             reject_data d sid sequence_number UCI_DATA_TRANSFER_STATUS_INVALID_FORMAT 0 r
           else case find_session_by_id d sid of
             None \<Rightarrow> reject_data d sid sequence_number UCI_DATA_TRANSFER_STATUS_ERROR_REJECTED 0 r
           | Some i \<Rightarrow>
               let s = sessions d ! i
               in if state s \<noteq> UCI_SESSION_STATE_ACTIVE then
                    reject_data d sid sequence_number UCI_DATA_TRANSFER_STATUS_ERROR_REJECTED 0 r
                  else if data_transfer_in_progress s then
                    reject_data d sid sequence_number
                      UCI_DATA_TRANSFER_STATUS_ERROR_DATA_TRANSFER_IS_ONGOING (data_transfer_tx_count s) r
                  else if has_last_data_message s \<and> last_data_sequence s = sequence_number
                          \<and> last_data_length s = declared_length then
                    (let (c, d1) = queue_data_done d sid sequence_number UCI_DATA_TRANSFER_STATUS_REPETITION_OK
                     in (c, d1, r))
                  else
                    let repetitions = uci_sim_session_get_data_repetition_count s;
                        d1 = set_session d i (s\<lparr>last_data_sequence := sequence_number,
                               last_data_length := declared_length, has_last_data_message := True\<rparr>);
                        (c, d2) = (if repetitions = 0
                                   then queue_data_done d1 sid sequence_number UCI_DATA_TRANSFER_STATUS_OK
                                   else start_data_transfer d1 i sid sequence_number repetitions)
                    in (c, d2, r))"

subsection \<open>The entry point\<close>

definition dispatch_command :: handler where
  "dispatch_command d request r =
     (if gid request = UCI_GID_CORE then handle_core d request r
      else if gid request = UCI_GID_SESSION_CONFIG then handle_session_config d request r
      else if gid request = UCI_GID_SESSION_CONTROL then handle_session_control d request r
      else if gid request = UCI_GID_QORVO_EXT2 then handle_qorvo_ext2 d request r
      else if gid request = UCI_GID_QORVO_MAC then handle_qorvo_mac d request r
      else refuse UCI_STATUS_UNKNOWN_GID d request r)"

definition uci_sim_device_handle_packet ::
    "uci_sim_device \<Rightarrow> uci_sim_packet \<Rightarrow> rc \<times> uci_sim_device \<times> uci_sim_result" where
  "uci_sim_device_handle_packet d request =
     (let pending_count_before = length (pending_notifications d)
      in if mt request = UCI_MT_DATA then
           let (c, d1, r1) = handle_data_message_send d request init_result
           in (c, uci_sim_device_finalize_result d1 r1 pending_count_before)
         else if mt request \<noteq> UCI_MT_COMMAND then (RC_FAIL, d, init_result)
         else
           let (c, d1, r1) = dispatch_command d request init_result;
               (d2, r2) = (case response r1 of
                             Some a \<Rightarrow> if c \<noteq> RC_OK \<and> payload_len a \<ge> 1
                                       then emit_core_generic_error_ntf d1 (payload a ! 0) r1 else (d1, r1)
                           | None \<Rightarrow> (d1, r1))
           in (c, uci_sim_device_finalize_result d2 r2 pending_count_before))"


subsection \<open>Logical links: every branch answers\<close>

lemma session_ok_links:
  "session_ok s \<Longrightarrow> allocated s \<Longrightarrow> links_ok ls \<Longrightarrow> session_ok (s\<lparr>logical_links := ls\<rparr>)"
  by (simp add: session_ok_def)

text \<open>What the session is after a link was created: its links and the new one, with a fresh id.\<close>

lemma link_created:
  assumes "links_ok (logical_links s)"
    and "req \<noteq> 0xFF \<longrightarrow> uci_sim_session_find_logical_link s req = None"
    and "uci_sim_session_allocate_logical_link s req = Some (s1, k, c)"
  shows "s1\<lparr>logical_links := (logical_links s1)[k := (logical_links s1 ! k)\<lparr>ll_mode := m, ll_credit := n\<rparr>]\<rparr>
      = s\<lparr>logical_links := logical_links s @ [\<lparr>ll_link_id = c, ll_mode = m, ll_credit = n, ll_in_use = True\<rparr>]\<rparr>"
    and "c \<notin> ll_link_id ` set (logical_links s)" and "c \<noteq> 0xFF" and "req \<noteq> 0xFF \<longrightarrow> c = req"
    and "links_ok (logical_links s @ [\<lparr>ll_link_id = c, ll_mode = m, ll_credit = n, ll_in_use = True\<rparr>])"
proof -
  from allocate_link_spec(2) [OF assms(1) _ assms(3)] assms(2)
  have c: "uci_sim_session_find_logical_link s c = None" "c \<noteq> 0xFF" "req \<noteq> 0xFF \<longrightarrow> c = req"
      "length (logical_links s) < UCI_SIM_MAX_LOGICAL_LINKS" by simp_all
  show new: "c \<notin> ll_link_id ` set (logical_links s)"
    using c(1) find_logical_link_None_iff [OF assms(1)] by simp
  show "c \<noteq> 0xFF" "req \<noteq> 0xFF \<longrightarrow> c = req" by (fact c)+
  have "s1 = s\<lparr>logical_links := logical_links s @ [\<lparr>ll_link_id = c, ll_mode = 0, ll_credit = 0, ll_in_use = True\<rparr>]\<rparr>"
      "k = length (logical_links s)"
    using assms(2,3) allocate_link_spec(1) [OF assms(1)] c(4) by (auto simp: Let_def)
  then show "s1\<lparr>logical_links := (logical_links s1)[k := (logical_links s1 ! k)\<lparr>ll_mode := m, ll_credit := n\<rparr>]\<rparr>
      = s\<lparr>logical_links := logical_links s @ [\<lparr>ll_link_id = c, ll_mode = m, ll_credit = n, ll_in_use = True\<rparr>]\<rparr>"
    by simp
  show "links_ok (logical_links s @ [\<lparr>ll_link_id = c, ll_mode = m, ll_credit = n, ll_in_use = True\<rparr>])"
    using c new by (intro links_ok_append assms(1)) simp_all
qed

lemma handle_logical_link_create_ok:
  assumes inv: "device_inv d" and r: "result_ok r" and g: "gid request = UCI_GID_SESSION_CONTROL"
    and o': "oid request = UCI_SESSION_LOGICAL_LINK_CREATE"
    and i: "i < length (sessions d)" "allocated (sessions d ! i)"
  shows "step_ok request (handle_logical_link_create i sid d request r)"
proof -
  let ?s = "sessions d ! i"
  have s: "session_ok ?s" using device_invD(6,7) [OF inv] i by simp
  have failed: "step_ok request (RC_FAIL, d,
      respond r UCI_GID_SESSION_CONTROL UCI_SESSION_LOGICAL_LINK_CREATE [st, 0xFF, 0])"
    if "st \<noteq> UCI_STATUS_OK" for st
    using that inv r g o' by (intro respond_ok) simp_all
  have created: "step_ok request (RC_OK, emit_logical_link_notification (set_session d i
        (s1\<lparr>logical_links := (logical_links s1)[k := (logical_links s1 ! k)\<lparr>ll_mode := m, ll_credit := n\<rparr>]\<rparr>))
      (respond r UCI_GID_SESSION_CONTROL UCI_SESSION_LOGICAL_LINK_CREATE [UCI_STATUS_OK, c, n])
      sid UCI_SESSION_LOGICAL_LINK_UWBS_CREATE c n)"
    if "uci_sim_session_allocate_logical_link ?s req = Some (s1, k, c)"
      "\<not> (req \<noteq> 0xFF \<and> uci_sim_session_find_logical_link ?s req \<noteq> None)" for req s1 k c m n
  proof -
    have fresh: "req \<noteq> 0xFF \<longrightarrow> uci_sim_session_find_logical_link ?s req = None" using that(2) by blast
    note link = link_created [OF session_okD(3) [OF s] fresh that(1)]
    show ?thesis
      unfolding link(1) using s i inv r g o' link(5)
      by (intro emit_ok(4) respond_ok set_session_inv' session_ok_links) simp_all
  qed
  show ?thesis
    using refuse_ok [OF inv r] failed created
    by (simp add: handle_logical_link_create_def Let_def split: option.splits)
qed

lemma handle_logical_link_close_ok:
  assumes inv: "device_inv d" and r: "result_ok r" and g: "gid request = UCI_GID_SESSION_CONTROL"
    and o': "oid request = UCI_SESSION_LOGICAL_LINK_CLOSE"
    and i: "i < length (sessions d)" "allocated (sessions d ! i)"
  shows "step_ok request (handle_logical_link_close i sid d request r)"
proof -
  have s: "session_ok (sessions d ! i)" using device_invD(6,7) [OF inv] i by simp
  have closed: "step_ok request (RC_OK, emit_logical_link_notification (set_session d i s')
      (respond r UCI_GID_SESSION_CONTROL UCI_SESSION_LOGICAL_LINK_CLOSE [UCI_STATUS_OK, c])
      sid UCI_SESSION_LOGICAL_LINK_UWBS_CLOSE c 0x00)"
    if rem: "uci_sim_session_remove_logical_link (sessions d ! i) c = Some s'" for c s'
  proof -
    obtain ls where "links_ok ls" "s' = (sessions d ! i)\<lparr>logical_links := ls\<rparr>"
      using remove_link_spec(2) [OF session_okD(3) [OF s] rem] by blast
    then show ?thesis
      using s i inv r g o' by (intro emit_ok(4) respond_ok set_session_inv') (simp_all add: session_ok_links)
  qed
  show ?thesis
    using refuse_ok [OF inv r] closed inv r g o'
    by (auto simp: handle_logical_link_close_def Let_def split: option.splits intro!: respond_ok)
qed

subsection \<open>Transitions\<close>

lemma deliver_set_session:
  "deliver (set_session d i s) g o' bs r =
     (let (d', r') = deliver d g o' bs r in (set_session d' i s, r'))"
  by (simp add: deliver_def uci_sim_device_deliver_notification_def uci_sim_device_queue_notification_def
      set_session_def Let_def)

lemma transition_found:
  assumes "uci_sim_profile_get_session_transition (dev_profile d) o' = Some t" and "device_inv d"
  shows "tr_oid t = o' \<and> transition_ok t"
proof -
  obtain p where p: "dev_profile d = Some p" "find (\<lambda>t. tr_oid t = o') (session_transitions p) = Some t"
    using assms(1) by (auto simp: uci_sim_profile_get_session_transition_def split: option.splits)
  from device_invD(5) [OF assms(2) p(1)] p(2) show ?thesis
    by (auto simp: find_Some_iff profile_ok_def)
qed

lemma set_session_twice [simp]: "set_session (set_session d i s) i s' = set_session d i s'"
  by (simp add: set_session_def)

lemma apply_transition_ok:
  assumes inv: "device_inv d" and r: "result_ok r"
    and t: "tr_oid t = oid request" "transition_ok t"
    and i: "i < length (sessions d)" and alloc: "allocated (sessions d ! i)"
  shows "step_ok request (apply_transition i sid t d request r)"
proof -
  let ?s = "sessions d ! i"
  let ?s2 = "?s\<lparr>has_last_proximity_state := False, last_in_proximity_range := False, state := tr_next_state t\<rparr>"
  let ?r = "make_status_response request r UCI_STATUS_OK"
  have oid: "oid request = UCI_SESSION_START \<and> tr_next_state t = UCI_SESSION_STATE_ACTIVE
      \<or> oid request = UCI_SESSION_STOP \<and> tr_next_state t = UCI_SESSION_STATE_IDLE"
    using t by (auto simp: transition_ok_def)
  let ?bs = "write_u32_le sid @ [tr_next_state t, session_status_reason_code (effective_profile d)]"
  obtain d1 r1 where out: "deliver d UCI_GID_SESSION_CONFIG UCI_SESSION_STATUS_NTF ?bs ?r = (d1, r1)"
    by fastforce
  have emitted: "emit_session_status_ntf (set_session d i ?s2) sid (tr_next_state t) ?r = (set_session d1 i ?s2, r1)"
    using out by (simp add: emit_defs deliver_set_session)
  have "step_ok request (RC_OK, d, ?r)" using inv r by (intro status_ok) simp_all
  then have ok1: "step_ok request (RC_OK, d1, r1)"
    using deliver_ok [of request RC_OK d ?r UCI_GID_SESSION_CONFIG UCI_SESSION_STATUS_NTF ?bs] out by simp
  have same: "sessions d1 = sessions d"
    using deliver_frame [OF inv _ _ _ _ out] r by simp
  note d1 = ok1 [unfolded step_ok_def, simplified]
  have s: "session_ok ?s" using device_invD(6,7) [OF inv] i by simp
  show ?thesis
  proof (cases "oid request = UCI_SESSION_START")
    case True
    with oid have active: "tr_next_state t = UCI_SESSION_STATE_ACTIVE" by auto
    have "device_inv (set_session d1 i ?s2)"
      using d1 i alloc s active same by (intro set_session_inv') (simp_all add: session_ok_def protocol_state_def)
    then have "device_inv (snd (uci_sim_scenario_on_session_started (set_session d1 i ?s2) i))"
      using i alloc active same by (intro session_started_inv) simp_all
    with d1 True emitted show ?thesis by (simp add: apply_transition_def Let_def step_ok_def)
  next
    case False
    with oid have stop: "oid request = UCI_SESSION_STOP" "tr_next_state t = UCI_SESSION_STATE_IDLE" by auto
    have "device_inv (uci_sim_scenario_on_session_stopped (set_session d1 i ?s2) i)"
      unfolding uci_sim_scenario_on_session_stopped_def Let_def set_session_twice
      using d1 i alloc s stop same
      by (intro cancel_events_inv set_session_inv') (simp_all add: session_ok_def protocol_state_def)
    with d1 stop emitted show ?thesis by (simp add: apply_transition_def Let_def step_ok_def)
  qed
qed

lemma handle_session_transition_ok:
  assumes inv: "device_inv d" and r: "result_ok r"
    and i: "i < length (sessions d)" and alloc: "allocated (sessions d ! i)"
  shows "step_ok request (handle_session_transition i sid d request r)"
proof (cases "uci_sim_profile_get_session_transition (dev_profile d) (oid request)")
  case None
  with inv r show ?thesis by (simp add: handle_session_transition_def refuse_ok)
next
  case (Some t)
  from transition_found [OF Some inv] have t: "tr_oid t = oid request" "transition_ok t" by simp_all
  note applied = apply_transition_ok [OF inv r t i alloc]
  have bad: "step_ok request (refuse (tr_invalid_status t) d request r)"
    using t(2) inv r by (intro refuse_ok) (simp_all add: transition_ok_def)
  have invalid: "step_ok request (refuse (inv_status f) d request r)"
      "step_ok request (RC_OK, emit_session_status_ntf_with_reason d sid st reason
        (make_status_response request r UCI_STATUS_OK))"
    if "uci_sim_validate_session_start (Some (effective_profile d)) (sessions d ! i) = Inl f" for f st reason
    using that session_start_fails [OF effective_profile_ok [OF inv], of "sessions d ! i"] inv r
    by (auto simp: fails_ok_def intro!: refuse_ok emit_ok status_ok)
  show ?thesis
    using Some applied bad invalid by (simp add: handle_session_transition_def split: sum.splits)
qed

lemma handle_session_control_ok:
  assumes inv: "device_inv d" and r: "result_ok r" and g: "gid request = UCI_GID_SESSION_CONTROL"
  shows "step_ok request (handle_session_control d request r)"
proof (cases "\<not> uci_sim_profile_supports_command (dev_profile d) (gid request) (oid request)
    \<or> payload_len request < 4 \<or> find_session_by_id d (read_u32_le (payload request)) = None")
  case True
  with refuse_ok [OF inv r] show ?thesis by (auto simp: handle_session_control_def Let_def)
next
  case False
  then obtain i where i: "find_session_by_id d (read_u32_le (payload request)) = Some i" by blast
  note found = found_session [OF i inv]
  have "step_ok request (accept UCI_GID_SESSION_CONTROL UCI_SESSION_GET_RANGING_COUNT
      (UCI_STATUS_OK # write_u32_le x) d r)" if "oid request = UCI_SESSION_GET_RANGING_COUNT" for x
    using that inv r g by (intro accept_ok) simp_all
  moreover have "step_ok request (handle_logical_link_get_param i d request r)"
    if "oid request = UCI_SESSION_LOGICAL_LINK_GET_PARAM"
    using that inv r g refuse_ok [OF inv r]
    by (auto simp: handle_logical_link_get_param_def Let_def split: option.splits intro!: respond_ok)
  ultimately show ?thesis
    using False i handle_logical_link_create_ok [OF inv r g _ found(1,2)]
      handle_logical_link_close_ok [OF inv r g _ found(1,2)]
      handle_session_transition_ok [OF inv r found(1,2)]
    by (simp add: handle_session_control_def Let_def)
qed


subsection \<open>DATA messages and the entry point\<close>

lemma queue_data_done_inv:
  "device_inv d \<Longrightarrow> device_inv (snd (queue_data_done d sid q st))"
  by (auto simp: queue_data_done_def Let_def split_def
      intro!: queue_data_credit_inv queue_data_transfer_status_inv)

lemma start_data_transfer_inv:
  assumes inv: "device_inv d" and i: "i < length (sessions d)" and alloc: "allocated (sessions d ! i)"
  shows "device_inv (snd (start_data_transfer d i sid q n))"
proof -
  let ?s = "(sessions d ! i)\<lparr>data_transfer_in_progress := True, data_transfer_repetitions_remaining := n,
      data_transfer_tx_count := 0, data_transfer_sequence := q\<rparr>"
  let ?e = "uci_sim_device_schedule_event (set_session d i ?s) UCI_SIM_EVENT_DATA_TRANSFER sid
      (uci_sim_session_get_ranging_interval_ms ?s (Some (effective_profile d)))"
  have d1: "device_inv (snd ?e)"
    using assms by (intro schedule_event_inv set_session_inv') (simp_all add: session_ok_def)
  have "sessions (snd ?e) = (sessions d)[i := ?s]" by (simp add: schedule_event_snd)
  then have "device_inv (set_session (snd ?e) i ((sessions (snd ?e) ! i)\<lparr>data_transfer_in_progress := False,
      data_transfer_repetitions_remaining := 0, data_transfer_tx_count := 0\<rparr>))"
    using d1 i alloc by (intro set_session_inv') (simp_all add: session_ok_def)
  with d1 show ?thesis by (simp add: start_data_transfer_def Let_def split_def)
qed

lemma reject_data_inv:
  "device_inv d \<Longrightarrow> device_inv (fst (snd (reject_data d sid q st n r))) \<and>
   result_ok (snd (snd (reject_data d sid q st n r)))"
  unfolding reject_data_def result_ok_def by (auto intro!: notification_ok_intro)

lemma handle_data_inv:
  assumes inv: "device_inv d" and r: "result_ok r"
  shows "device_inv (fst (snd (handle_data_message_send d request r))) \<and>
    result_ok (snd (snd (handle_data_message_send d request r)))"
proof -
  have live: "device_inv (snd (if n = 0 then queue_data_done (set_session d i (s\<lparr>last_data_sequence := q,
        last_data_length := l, has_last_data_message := True\<rparr>)) sid q st
      else start_data_transfer (set_session d i (s\<lparr>last_data_sequence := q,
        last_data_length := l, has_last_data_message := True\<rparr>)) i sid q n))"
    if "find_session_by_id d sid = Some i" "s = sessions d ! i" for sid i s q l st n
  proof -
    note found = found_session [OF that(1) inv]
    let ?d = "set_session d i (s\<lparr>last_data_sequence := q, last_data_length := l, has_last_data_message := True\<rparr>)"
    have "device_inv ?d"
      using found inv that(2) by (intro set_session_inv') (simp_all add: session_ok_def)
    with found that(2) show ?thesis
      using queue_data_done_inv [of ?d] start_data_transfer_inv [of ?d i] by simp
  qed
  show ?thesis
    using inv r live reject_data_inv [OF inv] queue_data_done_inv [OF inv]
    by (simp add: handle_data_message_send_def Let_def split_def split: option.splits)
qed

lemma dispatch_command_ok:
  "device_inv d \<Longrightarrow> result_ok r \<Longrightarrow> step_ok request (dispatch_command d request r)"
  unfolding dispatch_command_def
  by (simp add: handle_core_ok handle_session_config_ok handle_session_control_ok handle_qorvo_ext2_ok
      handle_qorvo_mac_ok refuse_ok)

text \<open>A handler that fails has sent no notification and has not touched the scenario.\<close>

lemma store_config_scenario:
  "uci_sim_device_store_config d k v = Some d' \<Longrightarrow> dev_scenario d' = dev_scenario d"
  by (auto simp: uci_sim_device_store_config_def split: option.splits if_splits)

lemma core_set_loop_scenario [simp]:
  "dev_scenario (fst (core_set_loop n rest d acc b)) = dev_scenario d"
  by (induction n rest d acc b rule: core_set_loop.induct)
    (auto simp: Let_def store_config_scenario split: list.splits option.splits)

lemma set_app_config_scenario:
  "set_app_config d i k v = (d', status) \<Longrightarrow> dev_scenario d' = dev_scenario d"
  by (auto simp: set_app_config_def Let_def uci_sim_device_reschedule_session_event_def uci_sim_device_schedule_event_def
      split: if_splits option.splits)

lemma app_set_loop_scenario [simp]:
  "dev_scenario (fst (app_set_loop n rest d i)) = dev_scenario d"
  by (induction n rest d i rule: app_set_loop.induct)
    (auto simp: set_app_config_scenario split: list.splits option.splits prod.splits)

definition quiet :: "rc \<times> uci_sim_device \<times> uci_sim_result \<Rightarrow> uci_sim_device \<Rightarrow> uci_sim_result \<Rightarrow> bool" where
  "quiet out d r \<longleftrightarrow> (fst out = RC_FAIL \<longrightarrow>
     dev_scenario (fst (snd out)) = dev_scenario d \<and> notification (snd (snd out)) = notification r)"

lemma quiet_intros [simp]:
  "quiet (RC_OK, out) d r" "quiet (refuse st d request r) d r" "quiet (accept g o' bs d' r) d r"
  "quiet (c, d', respond r g o' bs) d r \<longleftrightarrow> (c = RC_FAIL \<longrightarrow> dev_scenario d' = dev_scenario d)"
  "quiet (c, d, make_status_response request r st) d r"
  by (simp_all add: quiet_def refuse_def accept_def)

lemma handlers_quiet:
  "quiet (handle_qorvo_ext2 d request r) d r" "quiet (handle_qorvo_mac d request r) d r"
  "quiet (handle_core_set_get_config b d request r) d r"
  "quiet (handle_session_init d request r) d r" "quiet (handle_session_deinit d request r) d r"
  "quiet (handle_session_get_count d request r) d r" "quiet (handle_session_query_data_size d request r) d r"
  "quiet (handle_session_get_state d request r) d r"
  "quiet (handle_session_update_multicast_list d request r) d r"
  "quiet (handle_session_data_transfer_phase_config d request r) d r"
  "quiet (handle_session_update_dt_rounds b d request r) d r"
  "quiet (handle_session_set_get_config b d request r) d r"
  "quiet (handle_logical_link_create i sid d request r) d r" "quiet (handle_logical_link_close i sid d request r) d r"
  "quiet (handle_logical_link_get_param i d request r) d r" "quiet (apply_transition i sid t d request r) d r"
  by (auto simp: handle_qorvo_ext2_def handle_qorvo_mac_def handle_core_set_get_config_def
      handle_session_init_def handle_session_deinit_def handle_session_get_count_def
      handle_session_query_data_size_def handle_session_get_state_def
      handle_session_update_multicast_list_def handle_session_data_transfer_phase_config_def
      handle_session_update_dt_rounds_def handle_session_set_get_config_def
      handle_logical_link_create_def handle_logical_link_close_def handle_logical_link_get_param_def
      apply_transition_def Let_def split_def split: option.splits)

lemma dispatch_quiet: "quiet (dispatch_command d request r) d r"
proof -
  have "quiet (handle_core d request r) d r"
    by (simp add: handle_core_def Let_def handlers_quiet split: option.splits)
  moreover have "quiet (handle_session_config d request r) d r"
    by (simp add: handle_session_config_def handlers_quiet)
  moreover have "quiet (handle_session_transition i sid d request r) d r" for i sid
    by (simp add: handle_session_transition_def handlers_quiet split: option.splits sum.splits)
  then have "quiet (handle_session_control d request r) d r"
    by (simp add: handle_session_control_def Let_def handlers_quiet split: option.splits)
  ultimately show ?thesis by (simp add: dispatch_command_def handlers_quiet)
qed

lemma init_result_ok [simp]: "result_ok init_result" "notification init_result = None"
  by (simp_all add: result_ok_def init_result_def)

lemma deliver_notification_quiet:
  assumes "notification r = None" and "\<not> uci_sim_scenario_should_defer_notification (dev_scenario d)"
  shows "deliver d g o' bs r = (d, r\<lparr>notification := Some
    \<lparr>mt = UCI_MT_NOTIFICATION, pbf = UCI_PBF_COMPLETE, gid = g, oid = o', payload = bs\<rparr>\<rparr>)"
  using assms by (simp add: deliver_def uci_sim_device_deliver_notification_def)

text \<open>The error notification that carries a refused command's status.\<close>

definition generic_error :: "u8 \<Rightarrow> uci_sim_packet" where
  "generic_error status =
     \<lparr>mt = UCI_MT_NOTIFICATION, pbf = UCI_PBF_COMPLETE, gid = UCI_GID_CORE, oid = UCI_CORE_GENERIC_ERROR,
      payload = [status]\<rparr>"

lemma handle_command:
  assumes inv: "device_inv d" and mt: "mt request = UCI_MT_COMMAND"
    and out: "uci_sim_device_handle_packet d request = (c, d', r')"
  shows "device_inv d' \<and> result_ok r' \<and> answers request c r'"
proof -
  obtain d1 r1 where disp: "dispatch_command d request init_result = (c, d1, r1)"
    using out mt by (auto simp: uci_sim_device_handle_packet_def Let_def split: prod.splits option.splits)
  have ok1: "step_ok request (c, d1, r1)"
    using dispatch_command_ok [OF inv, of init_result request] disp by simp
  then obtain a where a: "response r1 = Some a" by (auto simp: step_ok_def answers_def)
  define e where "e = (if c \<noteq> RC_OK \<and> payload_len a \<ge> 1
    then emit_core_generic_error_ntf d1 (payload a ! 0) r1 else (d1, r1))"
  obtain d2 r2 where e2: "e = (d2, r2)" by (cases e)
  have ok2: "step_ok request (c, d2, r2)"
    using ok1 e2 deliver_ok [OF ok1, of UCI_GID_CORE UCI_CORE_GENERIC_ERROR "[payload a ! 0]"]
    by (auto simp: e_def emit_core_generic_error_ntf_def split: if_splits)
  have fin: "uci_sim_device_finalize_result d2 r2 (length (pending_notifications d)) = (d', r')"
    using out mt disp a e2 unfolding uci_sim_device_handle_packet_def e_def
    by (simp add: Let_def split: if_splits)
  from finalize_result_inv [OF fin] ok2 show ?thesis
    by (auto simp: step_ok_def answers_def)
qed

lemma handle_packet_inv:
  assumes inv: "device_inv d" and out: "uci_sim_device_handle_packet d request = (c, d', r')"
  shows "device_inv d' \<and> result_ok r'"
proof -
  consider "mt request = UCI_MT_COMMAND" | "mt request = UCI_MT_DATA"
    | "mt request \<noteq> UCI_MT_COMMAND" "mt request \<noteq> UCI_MT_DATA" by blast
  then show ?thesis
  proof cases
    case 1
    with handle_command [OF inv _ out] show ?thesis by simp
  next
    case 2
    obtain c1 d1 r1 where data: "handle_data_message_send d request init_result = (c1, d1, r1)"
      by (cases "handle_data_message_send d request init_result")
    with 2 out have "uci_sim_device_finalize_result d1 r1 (length (pending_notifications d)) = (d', r')"
      by (simp add: uci_sim_device_handle_packet_def Let_def)
    with finalize_result_inv handle_data_inv [OF inv, of init_result request] data show ?thesis by fastforce
  next
    case 3
    with out inv show ?thesis by (simp add: uci_sim_device_handle_packet_def)
  qed
qed

text \<open>
  Outside the deferring scenario a refused command gets its error notification in the same
  result, carrying the status of its response.
\<close>

lemma refused_command_error:
  assumes inv: "device_inv d" and mt: "mt request = UCI_MT_COMMAND"
    and direct: "\<not> uci_sim_scenario_should_defer_notification (dev_scenario d)"
    and out: "uci_sim_device_handle_packet d request = (RC_FAIL, d', r')"
  shows "\<exists>a. response r' = Some a \<and> notification r' = Some (generic_error (payload a ! 0))"
proof -
  obtain d1 r1 where disp: "dispatch_command d request init_result = (RC_FAIL, d1, r1)"
    using out mt by (auto simp: uci_sim_device_handle_packet_def Let_def split: prod.splits option.splits)
  have "step_ok request (RC_FAIL, d1, r1)"
    using dispatch_command_ok [OF inv, of init_result request] disp by simp
  then obtain a where a: "response r1 = Some a" "payload a \<noteq> []" by (auto simp: step_ok_def answers_def)
  have calm: "dev_scenario d1 = dev_scenario d" "notification r1 = None"
    using dispatch_quiet [of d request init_result] disp by (simp_all add: quiet_def)
  have "uci_sim_device_finalize_result d1 (r1\<lparr>notification := Some (generic_error (payload a ! 0))\<rparr>)
      (length (pending_notifications d)) = (d', r')"
  proof -
    have "emit_core_generic_error_ntf d1 (payload a ! 0) r1 =
        (d1, r1\<lparr>notification := Some (generic_error (payload a ! 0))\<rparr>)"
      using calm direct by (simp add: emit_core_generic_error_ntf_def deliver_notification_quiet generic_error_def)
    moreover have "1 \<le> payload_len a" using a by (simp add: payload_len_def Suc_le_eq)
    ultimately show ?thesis
      using out mt disp a unfolding uci_sim_device_handle_packet_def by (simp add: Let_def)
  qed
  then show ?thesis
    using a by (auto simp: uci_sim_device_finalize_result_def split: if_splits)
qed

subsection \<open>Properties\<close>

text \<open>
  C10. Whatever packet arrives, the device stays well formed and every notification returned or
  kept fits one control packet; a COMMAND always gets exactly one response, with its group and
  opcode, at most 1024 bytes and a first byte that is OK exactly when the command succeeded. A
  response may be longer than the 255 bytes one control packet carries.
\<close>

theorem handle_packet_safe:
  assumes "device_inv d"
  shows "case uci_sim_device_handle_packet d request of (c, d', r) \<Rightarrow>
    device_inv d' \<and> result_ok r \<and> (mt request \<noteq> UCI_MT_COMMAND \<or> answers request c r)"
proof -
  obtain c d' r where out: "uci_sim_device_handle_packet d request = (c, d', r)"
    by (cases "uci_sim_device_handle_packet d request") auto
  with handle_packet_inv [OF assms out] handle_command [OF assms _ out] show ?thesis by auto
qed

lemma handle_packet_safe_witness:
  "case uci_sim_device_handle_packet uci_sim_device_init
      \<lparr>mt = UCI_MT_COMMAND, pbf = 0, gid = UCI_GID_CORE, oid = UCI_CORE_DEVICE_RESET, payload = [1]\<rparr> of (c, d', r) \<Rightarrow>
    device_inv d' \<and> answers \<lparr>mt = UCI_MT_COMMAND, pbf = 0, gid = UCI_GID_CORE, oid = UCI_CORE_DEVICE_RESET, payload = [1]\<rparr> c r"
  using handle_packet_safe [OF start_up_inv, of "\<lparr>mt = UCI_MT_COMMAND, pbf = 0, gid = UCI_GID_CORE,
      oid = UCI_CORE_DEVICE_RESET, payload = [1]\<rparr>"]
  by (simp add: split_def)

text \<open>
  C11. Outside the deferring scenario a refused command comes with a CORE_GENERIC_ERROR
  notification that carries the status of its response.
\<close>

theorem refused_command_reported:
  assumes "device_inv d" and "mt request = UCI_MT_COMMAND"
    and "\<not> uci_sim_scenario_should_defer_notification (dev_scenario d)"
    and "fst (uci_sim_device_handle_packet d request) = RC_FAIL"
  shows "case uci_sim_device_handle_packet d request of (c, d', r) \<Rightarrow>
    \<exists>a. response r = Some a \<and> payload a ! 0 \<noteq> UCI_STATUS_OK \<and> notification r = Some (generic_error (payload a ! 0))"
proof -
  obtain d' r where out: "uci_sim_device_handle_packet d request = (RC_FAIL, d', r)"
    using assms(4) by (cases "uci_sim_device_handle_packet d request") auto
  from refused_command_error [OF assms(1-3) out] handle_command [OF assms(1,2) out] out show ?thesis
    by (auto simp: answers_def)
qed

lemma refused_command_reported_witness:
  "case uci_sim_device_handle_packet uci_sim_device_init
      \<lparr>mt = UCI_MT_COMMAND, pbf = 0, gid = 9, oid = 1, payload = []\<rparr> of (c, d', r) \<Rightarrow>
    \<exists>a. response r = Some a \<and> payload a ! 0 \<noteq> UCI_STATUS_OK \<and> notification r = Some (generic_error (payload a ! 0))"
proof -
  have sc: "dev_scenario uci_sim_device_init = UCI_SIM_SCENARIO_DEFAULT"
    by (simp add: uci_sim_device_init_def uci_sim_device_init_with_scenario_def uci_sim_device_init_with_profile_def
        apply_profile_defaults_def zero_device_def)
  show ?thesis
    by (rule refused_command_reported [OF start_up_inv])
      (simp_all add: sc uci_sim_scenario_should_defer_notification_def uci_sim_device_handle_packet_def
        dispatch_command_def refuse_def make_status_response_def respond_def payload_len_def Let_def split_def)
qed

text \<open>
  C37. LOGICAL_LINK_CREATE on every branch. An id that is already open is refused with
  INVALID_PARAM and a ninth link with MULTICAST_LIST_FULL, nothing changed. Otherwise the session
  gets one more link, whose id is not 0xFF and not open: the id asked for, or for 0xFF the
  smallest free one, below 8. Its mode and credit are those of the request, by default 0 and 1;
  the response and the notification carry its id and credit.
\<close>

theorem link_create_outcome:
  assumes "device_inv d" and "i < length (sessions d)" and "allocated (sessions d ! i)"
    and "5 \<le> payload_len request"
  shows "let asked = payload request ! 4; s = sessions d ! i;
      used = ll_link_id ` set (logical_links s);
      mode = (if payload_len request \<ge> 6 then payload request ! 5 else 0);
      credit = (if payload_len request \<ge> 7 then payload request ! 6 else 1);
      answer = respond r UCI_GID_SESSION_CONTROL UCI_SESSION_LOGICAL_LINK_CREATE
    in if asked \<noteq> 0xFF \<and> asked \<in> used then
         handle_logical_link_create i sid d request r = (RC_FAIL, d, answer [UCI_STATUS_INVALID_PARAM, 0xFF, 0])
       else if length (logical_links s) = UCI_SIM_MAX_LOGICAL_LINKS then
         handle_logical_link_create i sid d request r = (RC_FAIL, d, answer [UCI_STATUS_MULTICAST_LIST_FULL, 0xFF, 0])
       else \<exists>c. c \<notin> used \<and> c \<noteq> 0xFF
         \<and> (if asked = 0xFF then c < 8 \<and> (\<forall>j<c. j \<in> used) else c = asked)
         \<and> handle_logical_link_create i sid d request r =
             (RC_OK, emit_logical_link_notification
                (set_session d i (s\<lparr>logical_links := logical_links s
                   @ [\<lparr>ll_link_id = c, ll_mode = mode, ll_credit = credit, ll_in_use = True\<rparr>]\<rparr>))
                (answer [UCI_STATUS_OK, c, credit]) sid UCI_SESSION_LOGICAL_LINK_UWBS_CREATE c credit)"
proof -
  let ?s = "sessions d ! i" and ?asked = "payload request ! 4"
  have ok: "links_ok (logical_links ?s)"
    using device_invD(6,7) [OF assms(1)] assms(2) session_okD(3) by simp
  then have le: "length (logical_links ?s) \<le> UCI_SIM_MAX_LOGICAL_LINKS" by (simp add: links_ok_def)
  note found = find_logical_link_None_iff [OF ok]
  note create = handle_logical_link_create_def [of i sid d request r]
  show ?thesis
  proof (cases "?asked \<noteq> 0xFF \<and> ?asked \<in> ll_link_id ` set (logical_links ?s)")
    case True
    with assms(4) found [of ?asked] show ?thesis by (simp add: create Let_def)
  next
    case False
    then have fresh: "?asked \<noteq> 0xFF \<Longrightarrow> uci_sim_session_find_logical_link ?s ?asked = None"
      by (simp add: found)
    note spec = allocate_link_spec [OF ok fresh]
    show ?thesis
    proof (cases "length (logical_links ?s) = UCI_SIM_MAX_LOGICAL_LINKS")
      case True
      with assms(4) False fresh show ?thesis by (auto simp: create Let_def)
    next
      case room: False
      define c where "c = (if ?asked = 0xFF then next_free_link ?s 0 else ?asked)"
      have lt: "length (logical_links ?s) < UCI_SIM_MAX_LOGICAL_LINKS" using room le by simp
      obtain s1 k where alloc: "uci_sim_session_allocate_logical_link ?s ?asked = Some (s1, k, c)"
        using spec(1) lt by (simp add: Let_def c_def)
      have fresh': "?asked \<noteq> 0xFF \<longrightarrow> uci_sim_session_find_logical_link ?s ?asked = None" using fresh by blast
      note link = link_created [OF ok fresh' alloc]
      have "unat (next_free_link ?s 0) < 8" using next_free_link_free(1) [OF ok lt] lt by simp
      then have "next_free_link ?s 0 < 8" by (simp add: word_less_nat_alt)
      then have small: "if ?asked = 0xFF then c < 8 \<and> (\<forall>j<c. j \<in> ll_link_id ` set (logical_links ?s)) else c = ?asked"
        using next_free_link_run [of 0 ?s] found by (auto simp: c_def)
      show ?thesis
        using assms(4) False room lt link small alloc fresh'
        by (auto simp: create Let_def not_le intro!: exI [of _ c])
    qed
  qed
qed

lemma link_create_outcome_witness:
  "\<exists>c. c \<noteq> 0xFF \<and> c < 8 \<and>
     handle_logical_link_create 0 3 one_session_device
       \<lparr>mt = UCI_MT_COMMAND, pbf = 0, gid = UCI_GID_SESSION_CONTROL, oid = UCI_SESSION_LOGICAL_LINK_CREATE,
        payload = [3, 0, 0, 0, 0xFF, 1, 5]\<rparr> init_result =
     (RC_OK, emit_logical_link_notification
        (set_session one_session_device 0 (one_session\<lparr>logical_links :=
           [\<lparr>ll_link_id = c, ll_mode = 1, ll_credit = 5, ll_in_use = True\<rparr>]\<rparr>))
        (respond init_result UCI_GID_SESSION_CONTROL UCI_SESSION_LOGICAL_LINK_CREATE [UCI_STATUS_OK, c, 5])
        3 UCI_SESSION_LOGICAL_LINK_UWBS_CREATE c 5)"
proof -
  have "0 < length (sessions one_session_device)" by (simp add: device_invD(6) [OF one_session_facts(1)])
  moreover have "allocated one_session" "logical_links one_session = []"
    by (simp_all add: one_session_def zero_session_def)
  ultimately show ?thesis
    using link_create_outcome [OF one_session_facts(1), of 0 "\<lparr>mt = UCI_MT_COMMAND, pbf = 0, gid = UCI_GID_SESSION_CONTROL,
        oid = UCI_SESSION_LOGICAL_LINK_CREATE, payload = [3, 0, 0, 0, 0xFF, 1, 5]\<rparr>" init_result 3]
    by (auto simp: one_session_facts payload_len_def)
qed

end
