(* ===== verification/Engine.thy ===== *)
theory Engine
  imports Handlers_Control
begin

text \<open>
  The engine of \<open>src/core/uci_sim_engine.c\<close>: a device with a bounded queue of outbound packets.
  A transport submits packets, lets time pass with \<open>uci_sim_engine_tick\<close> and takes outbound
  packets one at a time. The pointer to a session that \<open>process_ready_event\<close> searches for is an
  index into \<open>sessions\<close>, read again after each call as the pointer is.
\<close>

abbreviation UCI_SIM_MAX_OUTBOUND_PACKETS :: nat where
  "UCI_SIM_MAX_OUTBOUND_PACKETS \<equiv> 16"

record uci_sim_engine =
  device :: uci_sim_device
  outbound_packets :: "uci_sim_packet list"

definition queue_outbound_packet :: "uci_sim_engine \<Rightarrow> uci_sim_packet \<Rightarrow> rc \<times> uci_sim_engine" where
  "queue_outbound_packet e packet =
     (if length (outbound_packets e) \<ge> UCI_SIM_MAX_OUTBOUND_PACKETS then (RC_FAIL, e)
      else (RC_OK, e\<lparr>outbound_packets := outbound_packets e @ [packet]\<rparr>))"

text \<open>
  The loop of \<open>flush_device_notifications\<close>. The notification it holds when the outbound queue is
  full has left the device's queue and reaches neither.
\<close>

function flush_loop :: "uci_sim_engine \<Rightarrow> uci_sim_engine" where
  "flush_loop e =
     (case uci_sim_device_dequeue_notification (device e) of
        None \<Rightarrow> e
      | Some (packet, d) \<Rightarrow>
          (case queue_outbound_packet (e\<lparr>device := d\<rparr>) packet of
             (RC_FAIL, e') \<Rightarrow> e'
           | (RC_OK, e') \<Rightarrow> flush_loop e'))"
  by pat_completeness auto
termination
  by (relation "measure (\<lambda>e. length (pending_notifications (device e)))")
    (auto simp: uci_sim_device_dequeue_notification_def queue_outbound_packet_def
      split: list.splits if_splits)

declare flush_loop.simps [simp del]

definition flush_device_notifications :: "uci_sim_engine \<Rightarrow> uci_sim_engine" where
  "flush_device_notifications e =
     (if uci_sim_scenario_should_defer_notification (dev_scenario (device e)) then e else flush_loop e)"

text \<open>The two cases of \<open>process_ready_event\<close>, for the session the event names.\<close>

definition process_range_data :: "uci_sim_engine \<Rightarrow> nat \<Rightarrow> rc \<times> uci_sim_engine" where
  "process_range_data e i =
     (let (c, d) = uci_sim_device_emit_ranging_stream (device e) i
      in if c \<noteq> RC_OK then (RC_FAIL, e\<lparr>device := d\<rparr>)
         else
           let e1 = flush_device_notifications (e\<lparr>device := d\<rparr>);
               s = sessions (device e1) ! i
           in if ranging_stream_remaining s > 0 \<and> state s = UCI_SESSION_STATE_ACTIVE then
                let (c', d') = uci_sim_device_schedule_event (device e1) UCI_SIM_EVENT_RANGE_DATA (session_id s)
                      (uci_sim_session_get_ranging_interval_ms s (Some (effective_profile (device e1))))
                in (c', e1\<lparr>device := d'\<rparr>)
              else (RC_OK, e1))"

definition process_data_transfer :: "uci_sim_engine \<Rightarrow> nat \<Rightarrow> rc \<times> uci_sim_engine" where
  "process_data_transfer e i =
     (let s = sessions (device e) ! i in
      if state s \<noteq> UCI_SESSION_STATE_ACTIVE \<or> \<not> data_transfer_in_progress s then (RC_OK, e)
      else
        let (c, d) = uci_sim_device_progress_data_transfer (device e) i
        in if c \<noteq> RC_OK then (RC_FAIL, e\<lparr>device := d\<rparr>)
           else
             let e1 = flush_device_notifications (e\<lparr>device := d\<rparr>);
                 s1 = sessions (device e1) ! i
             in if data_transfer_in_progress s1 then
                  let (c', d') = uci_sim_device_schedule_event (device e1) UCI_SIM_EVENT_DATA_TRANSFER
                        (session_id s1)
                        (uci_sim_session_get_ranging_interval_ms s1 (Some (effective_profile (device e1))))
                  in (c', e1\<lparr>device := d'\<rparr>)
                else (RC_OK, e1))"

definition process_ready_event :: "uci_sim_engine \<Rightarrow> uci_sim_scheduled_event \<Rightarrow> rc \<times> uci_sim_engine" where
  "process_ready_event e event =
     (case ev_type event of
        UCI_SIM_EVENT_RANGE_DATA \<Rightarrow>
          (case find_session_by_id (device e) (ev_session_id event) of
             None \<Rightarrow> (RC_OK, e) | Some i \<Rightarrow> process_range_data e i)
      | UCI_SIM_EVENT_DATA_TRANSFER \<Rightarrow>
          (case find_session_by_id (device e) (ev_session_id event) of
             None \<Rightarrow> (RC_OK, e) | Some i \<Rightarrow> process_data_transfer e i)
      | UCI_SIM_EVENT_NONE \<Rightarrow> (RC_OK, e))"

definition uci_sim_engine_init_with_profile ::
    "uci_sim_profile option \<Rightarrow> uci_sim_scenario_kind \<Rightarrow> uci_sim_engine" where
  "uci_sim_engine_init_with_profile profile scenario =
     \<lparr>device = uci_sim_device_init_with_profile profile scenario, outbound_packets = []\<rparr>"

definition uci_sim_engine_init_with_scenario :: "uci_sim_scenario_kind \<Rightarrow> uci_sim_engine" where
  "uci_sim_engine_init_with_scenario scenario =
     uci_sim_engine_init_with_profile (Some uci_sim_default_profile) scenario"

definition uci_sim_engine_init :: uci_sim_engine where
  "uci_sim_engine_init = uci_sim_engine_init_with_scenario UCI_SIM_SCENARIO_DEFAULT"

definition uci_sim_engine_tick :: "uci_sim_engine \<Rightarrow> u32 \<Rightarrow> rc \<times> uci_sim_engine" where
  "uci_sim_engine_tick e elapsed_ms =
     (let e1 = e\<lparr>device := uci_sim_device_tick_events (device e) elapsed_ms\<rparr>
      in case uci_sim_device_dequeue_ready_event (device e1) of
           None \<Rightarrow> (RC_OK, e1)
         | Some (event, d) \<Rightarrow> process_ready_event (e1\<lparr>device := d\<rparr>) event)"

text \<open>The packet of a result is queued when it is there; a full queue ends the submission.\<close>

definition queue_present :: "uci_sim_engine \<Rightarrow> uci_sim_packet option \<Rightarrow> rc \<times> uci_sim_engine" where
  "queue_present e packet = (case packet of None \<Rightarrow> (RC_OK, e) | Some p \<Rightarrow> queue_outbound_packet e p)"

definition uci_sim_engine_submit_packet :: "uci_sim_engine \<Rightarrow> uci_sim_packet \<Rightarrow> rc \<times> uci_sim_engine" where
  "uci_sim_engine_submit_packet e request =
     (let (c, d, result) = uci_sim_device_handle_packet (device e) request;
          e1 = e\<lparr>device := d\<rparr>
      in if c \<noteq> RC_OK \<and> response result = None \<and> notification result = None then (RC_FAIL, e1)
         else
           let (c2, e2) = queue_present e1 (response result)
           in if c2 \<noteq> RC_OK then (RC_FAIL, e2)
              else
                let (c3, e3) = queue_present e2 (notification result)
                in if c3 \<noteq> RC_OK then (RC_FAIL, e3)
                   else uci_sim_engine_tick (flush_device_notifications e3) 0)"

definition uci_sim_engine_dequeue_outbound_packet ::
    "uci_sim_engine \<Rightarrow> (uci_sim_packet \<times> uci_sim_engine) option" where
  "uci_sim_engine_dequeue_outbound_packet e =
     (case outbound_packets e of [] \<Rightarrow> None
      | p # ps \<Rightarrow> Some (p, e\<lparr>outbound_packets := ps\<rparr>))"


subsection \<open>The outbound queue\<close>

interpretation outbound: bounded_fifo queue_outbound_packet uci_sim_engine_dequeue_outbound_packet
  outbound_packets UCI_SIM_MAX_OUTBOUND_PACKETS
  by unfold_locales (auto simp: queue_outbound_packet_def uci_sim_engine_dequeue_outbound_packet_def)

lemma dequeue_outbound_device:
  "uci_sim_engine_dequeue_outbound_packet e = Some (p, e') \<Longrightarrow> device e' = device e"
  by (auto simp: uci_sim_engine_dequeue_outbound_packet_def split: list.splits)

text \<open>
  Where the loop ends: the outbound queue takes what fits, one notification more is lost when
  not everything fits, and the rest stays with the device.
\<close>

definition flushed :: "uci_sim_engine \<Rightarrow> uci_sim_engine" where
  "flushed e =
     (let room = UCI_SIM_MAX_OUTBOUND_PACKETS - length (outbound_packets e);
          ns = pending_notifications (device e)
      in e\<lparr>device := (device e)\<lparr>pending_notifications := drop (room + 1) ns\<rparr>,
           outbound_packets := outbound_packets e @ take room ns\<rparr>)"

lemma engine_eta: "e\<lparr>device := (device e)\<lparr>pending_notifications := pending_notifications (device e)\<rparr>,
    outbound_packets := outbound_packets e\<rparr> = e"
  by simp

lemma flush_loop_eq: "flush_loop e = flushed e"
proof (induction e rule: flush_loop.induct)
  case (1 e)
  show ?case
  proof (cases "pending_notifications (device e)")
    case Nil
    then have "flush_loop e = e"
      by (simp add: flush_loop.simps [of e] uci_sim_device_dequeue_notification_def)
    moreover have "flushed e = e" using Nil engine_eta [of e] by (simp add: flushed_def Let_def)
    ultimately show ?thesis by simp
  next
    case (Cons n ns)
    let ?d = "(device e)\<lparr>pending_notifications := ns\<rparr>"
    have deq: "uci_sim_device_dequeue_notification (device e) = Some (n, ?d)"
      using Cons by (simp add: uci_sim_device_dequeue_notification_def)
    show ?thesis
    proof (cases "UCI_SIM_MAX_OUTBOUND_PACKETS \<le> length (outbound_packets e)")
      case True
      then have "flush_loop e = e\<lparr>device := ?d\<rparr>"
        by (simp add: flush_loop.simps [of e] deq queue_outbound_packet_def)
      with True Cons show ?thesis by (simp add: flushed_def Let_def)
    next
      case False
      let ?e = "e\<lparr>device := ?d, outbound_packets := outbound_packets e @ [n]\<rparr>"
      have put: "queue_outbound_packet (e\<lparr>device := ?d\<rparr>) n = (RC_OK, ?e)"
        using False by (simp add: queue_outbound_packet_def)
      have "flush_loop e = flush_loop ?e"
        by (simp add: flush_loop.simps [of e] deq put)
      also have "\<dots> = flushed ?e" using 1 deq put by fastforce
      also have "\<dots> = flushed e"
      proof -
        have "UCI_SIM_MAX_OUTBOUND_PACKETS - length (outbound_packets e)
            = Suc (UCI_SIM_MAX_OUTBOUND_PACKETS - length (outbound_packets e @ [n]))"
          using False by simp
        with Cons show ?thesis by (simp add: flushed_def Let_def)
      qed
      finally show ?thesis .
    qed
  qed
qed


subsection \<open>What every operation keeps\<close>

definition outbound_ok :: "uci_sim_packet \<Rightarrow> bool" where
  "outbound_ok p \<longleftrightarrow> payload_len p \<le> UCI_SIM_MAX_PAYLOAD \<and> (notification_ok p \<or> mt p = UCI_MT_RESPONSE)"

definition engine_inv :: "uci_sim_engine \<Rightarrow> bool" where
  "engine_inv e \<longleftrightarrow> device_inv (device e) \<and> length (outbound_packets e) \<le> UCI_SIM_MAX_OUTBOUND_PACKETS
     \<and> (\<forall>p\<in>set (outbound_packets e). outbound_ok p)"

text \<open>What is queued is not taken back by the engine.\<close>

definition appends :: "uci_sim_engine \<Rightarrow> uci_sim_engine \<Rightarrow> bool" where
  "appends e e' \<longleftrightarrow> (\<exists>ns. outbound_packets e' = outbound_packets e @ ns)"

lemma appends_refl [simp]: "appends e e" by (simp add: appends_def)

lemma appends_trans [trans]: "appends e e' \<Longrightarrow> appends e' e'' \<Longrightarrow> appends e e''"
  by (auto simp: appends_def)

lemma notification_outbound_ok: "notification_ok n \<Longrightarrow> outbound_ok n"
  by (simp add: outbound_ok_def notification_ok_def packet_ok_def)

lemma engine_inv_device:
  "engine_inv e \<Longrightarrow> device_inv d \<Longrightarrow> engine_inv (e\<lparr>device := d\<rparr>)"
  by (simp add: engine_inv_def)

lemma appends_device [simp]:
  "appends e (e'\<lparr>device := d\<rparr>) = appends e e'" "appends (e\<lparr>device := d\<rparr>) e' = appends e e'"
  by (simp_all add: appends_def)

lemma queue_outbound_inv:
  "engine_inv e \<Longrightarrow> outbound_ok p \<Longrightarrow> queue_outbound_packet e p = (c, e')
   \<Longrightarrow> engine_inv e' \<and> appends e e' \<and> device e' = device e"
  by (auto simp: queue_outbound_packet_def engine_inv_def appends_def split: if_splits)

lemma flush_inv:
  assumes "engine_inv e"
  shows "engine_inv (flush_device_notifications e) \<and> appends e (flush_device_notifications e)
    \<and> sessions (device (flush_device_notifications e)) = sessions (device e)
    \<and> scheduled_events (device (flush_device_notifications e)) = scheduled_events (device e)
    \<and> dev_profile (device (flush_device_notifications e)) = dev_profile (device e)
    \<and> dev_scenario (device (flush_device_notifications e)) = dev_scenario (device e)"
  using assms
  by (auto simp: flush_device_notifications_def flush_loop_eq flushed_def Let_def engine_inv_def
      device_inv_def pending_ok_def appends_def notification_outbound_ok
      dest: in_set_takeD in_set_dropD)

lemma schedule_event_inv':
  "uci_sim_device_schedule_event d ty sid t = (c, d') \<Longrightarrow> device_inv d \<Longrightarrow> device_inv d'"
  using schedule_event_inv [of d ty sid t] by simp

lemma process_range_data_inv:
  assumes e: "engine_inv e" and i: "i < length (sessions (device e))" "allocated (sessions (device e) ! i)"
    and out: "process_range_data e i = (c, e')"
  shows "engine_inv e' \<and> appends e e'"
proof -
  obtain c1 d where em: "uci_sim_device_emit_ranging_stream (device e) i = (c1, d)"
    by (cases "uci_sim_device_emit_ranging_stream (device e) i")
  have "device_inv d"
    using emit_ranging_stream_inv [OF _ i] e em by (simp add: engine_inv_def)
  with e have d: "engine_inv (e\<lparr>device := d\<rparr>)" by (rule engine_inv_device)
  from flush_inv [OF d] have fl: "engine_inv (flush_device_notifications (e\<lparr>device := d\<rparr>))"
      "appends e (flush_device_notifications (e\<lparr>device := d\<rparr>))" by simp_all
  have fd: "device_inv (device (flush_device_notifications (e\<lparr>device := d\<rparr>)))"
    using fl by (simp add: engine_inv_def)
  show ?thesis
    using out em d fl engine_inv_device [OF fl(1)] schedule_event_inv' [OF _ fd]
    by (auto simp: process_range_data_def Let_def split: if_splits prod.splits)
qed

lemma process_data_transfer_inv:
  assumes e: "engine_inv e" and i: "i < length (sessions (device e))"
    and out: "process_data_transfer e i = (c, e')"
  shows "engine_inv e' \<and> appends e e'"
proof -
  obtain c1 d where em: "uci_sim_device_progress_data_transfer (device e) i = (c1, d)"
    by (cases "uci_sim_device_progress_data_transfer (device e) i")
  have "device_inv d"
    using progress_data_transfer_inv [OF _ i] e em by (simp add: engine_inv_def)
  with e have d: "engine_inv (e\<lparr>device := d\<rparr>)" by (rule engine_inv_device)
  from flush_inv [OF d] have fl: "engine_inv (flush_device_notifications (e\<lparr>device := d\<rparr>))"
      "appends e (flush_device_notifications (e\<lparr>device := d\<rparr>))" by simp_all
  have fd: "device_inv (device (flush_device_notifications (e\<lparr>device := d\<rparr>)))"
    using fl by (simp add: engine_inv_def)
  show ?thesis
    using out e em d fl engine_inv_device [OF fl(1)] schedule_event_inv' [OF _ fd]
    by (auto simp: process_data_transfer_def Let_def split: if_splits prod.splits)
qed

lemma process_ready_event_inv:
  assumes "engine_inv e" and "process_ready_event e event = (c, e')"
  shows "engine_inv e' \<and> appends e e'"
proof -
  have "device_inv (device e)" using assms(1) by (simp add: engine_inv_def)
  note found = found_session(1,2) [OF _ this]
  show ?thesis
  proof (cases "find_session_by_id (device e) (ev_session_id event)")
    case None
    with assms show ?thesis
      by (simp add: process_ready_event_def split: uci_sim_event_type.splits)
  next
    case (Some i)
    note i = found [OF Some]
    from assms Some process_range_data_inv [OF assms(1) i, of c e']
      process_data_transfer_inv [OF assms(1) i(1), of c e']
    show ?thesis by (simp add: process_ready_event_def split: uci_sim_event_type.splits)
  qed
qed

lemma tick_inv:
  assumes e: "engine_inv e" and out: "uci_sim_engine_tick e t = (c, e')"
  shows "engine_inv e' \<and> appends e e'"
proof -
  let ?d = "uci_sim_device_tick_events (device e) t"
  let ?e = "e\<lparr>device := ?d\<rparr>"
  have d: "device_inv ?d" using e by (simp add: engine_inv_def tick_events_inv)
  with e have e1: "engine_inv ?e" by (rule engine_inv_device)
  show ?thesis
  proof (cases "uci_sim_device_dequeue_ready_event ?d")
    case None
    with out e1 show ?thesis by (auto simp: uci_sim_engine_tick_def)
  next
    case (Some r)
    obtain event d' where r: "r = (event, d')" by (cases r)
    have "engine_inv (?e\<lparr>device := d'\<rparr>)"
      using dequeue_ready_event_inv [OF Some [unfolded r] d] by (intro engine_inv_device [OF e1]) simp
    from process_ready_event_inv [OF this] out Some r show ?thesis
      by (simp add: uci_sim_engine_tick_def)
  qed
qed

lemma queue_present_inv:
  assumes "engine_inv e" and "\<And>p. packet = Some p \<Longrightarrow> outbound_ok p"
    and "queue_present e packet = (c, e')"
  shows "engine_inv e' \<and> appends e e'"
proof (cases packet)
  case None
  with assms show ?thesis by (simp add: queue_present_def)
next
  case (Some p)
  with assms(3) queue_outbound_inv [OF assms(1) assms(2) [OF Some], of c e'] show ?thesis
    by (simp add: queue_present_def)
qed

lemma data_no_response:
  "response (snd (snd (handle_data_message_send d request r))) = response r"
  by (simp add: handle_data_message_send_def reject_data_def Let_def split_def split: option.splits)

lemma finalize_response:
  "response (snd (uci_sim_device_finalize_result d r k)) = response r"
  by (simp add: uci_sim_device_finalize_result_def split: option.splits)

lemma no_command_no_response:
  assumes "mt request \<noteq> UCI_MT_COMMAND" and "uci_sim_device_handle_packet d request = (c, d', r')"
  shows "response r' = None"
proof -
  have "response r' = response (snd (snd (uci_sim_device_handle_packet d request)))"
    using assms(2) by simp
  also have "\<dots> = None"
    using assms(1) data_no_response [of d request init_result]
    by (simp add: uci_sim_device_handle_packet_def Let_def split_def finalize_response)
      (simp add: init_result_def)
  finally show ?thesis .
qed

lemma handle_packet_result:
  assumes "device_inv d" and "uci_sim_device_handle_packet d request = (c, d', r')"
  shows "device_inv d'" and "notification r' = Some n \<Longrightarrow> outbound_ok n"
    and "response r' = Some a \<Longrightarrow> outbound_ok a"
proof -
  have ok: "device_inv d'" "result_ok r'" using handle_packet_inv [OF assms] by simp_all
  then show "device_inv d'" by simp
  show "outbound_ok n" if "notification r' = Some n"
    using ok(2) that by (auto simp: result_ok_def intro: notification_outbound_ok)
  show "outbound_ok a" if a: "response r' = Some a"
  proof (cases "mt request = UCI_MT_COMMAND")
    case True
    with handle_command [OF assms(1) _ assms(2)] a show ?thesis
      by (auto simp: answers_def outbound_ok_def)
  next
    case False
    with no_command_no_response assms(2) a show ?thesis by fastforce
  qed
qed

lemma submit_inv:
  assumes e: "engine_inv e" and out: "uci_sim_engine_submit_packet e request = (c, e')"
  shows "engine_inv e' \<and> appends e e'"
proof -
  obtain c1 d r where hp: "uci_sim_device_handle_packet (device e) request = (c1, d, r)"
    by (cases "uci_sim_device_handle_packet (device e) request") auto
  have "device_inv (device e)" using e by (simp add: engine_inv_def)
  note hpr = handle_packet_result [OF this hp]
  have e1: "engine_inv (e\<lparr>device := d\<rparr>)" using e hpr(1) by (rule engine_inv_device)
  obtain c2 e2 where q2: "queue_present (e\<lparr>device := d\<rparr>) (response r) = (c2, e2)"
    by (cases "queue_present (e\<lparr>device := d\<rparr>) (response r)")
  have e2: "engine_inv e2" "appends e e2"
    using queue_present_inv [OF e1 _ q2] hpr(3) by simp_all
  obtain c3 e3 where q3: "queue_present e2 (notification r) = (c3, e3)"
    by (cases "queue_present e2 (notification r)")
  have e3: "engine_inv e3" "appends e e3"
    using queue_present_inv [OF e2(1) _ q3] hpr(2) e2(2) appends_trans by blast+
  from flush_inv [OF e3(1)] e3(2) have e4: "engine_inv (flush_device_notifications e3)"
      "appends e (flush_device_notifications e3)" using appends_trans by blast+
  have tick: "engine_inv (snd (uci_sim_engine_tick (flush_device_notifications e3) 0))
      \<and> appends e (snd (uci_sim_engine_tick (flush_device_notifications e3) 0))"
    using tick_inv [OF e4(1) surjective_pairing] e4(2) appends_trans by blast
  have "e' = snd (uci_sim_engine_submit_packet e request)" using out by simp
  with e1 e2 e3 tick show ?thesis
    by (simp add: uci_sim_engine_submit_packet_def hp q2 q3 Let_def)
qed

text \<open>The response to a command is the first packet its submission queues.\<close>

definition is_answer :: "uci_sim_packet \<Rightarrow> uci_sim_packet \<Rightarrow> bool" where
  "is_answer request a \<longleftrightarrow> mt a = UCI_MT_RESPONSE \<and> pbf a = UCI_PBF_COMPLETE
     \<and> gid a = gid request \<and> oid a = oid request \<and> payload a \<noteq> [] \<and> payload_len a \<le> UCI_SIM_MAX_PAYLOAD"

lemma submit_answers:
  assumes e: "engine_inv e" and mt: "mt request = UCI_MT_COMMAND"
    and room: "length (outbound_packets e) < UCI_SIM_MAX_OUTBOUND_PACKETS"
    and out: "uci_sim_engine_submit_packet e request = (c, e')"
  shows "\<exists>a ns. outbound_packets e' = outbound_packets e @ a # ns \<and> is_answer request a"
proof -
  obtain c1 d r where hp: "uci_sim_device_handle_packet (device e) request = (c1, d, r)"
    by (cases "uci_sim_device_handle_packet (device e) request") auto
  have inv: "device_inv (device e)" using e by (simp add: engine_inv_def)
  note hpr = handle_packet_result [OF inv hp]
  from handle_command [OF inv mt hp] obtain a where a: "response r = Some a" "is_answer request a"
    by (auto simp: answers_def is_answer_def)
  let ?e2 = "e\<lparr>device := d, outbound_packets := outbound_packets e @ [a]\<rparr>"
  have q2: "queue_present (e\<lparr>device := d\<rparr>) (Some a) = (RC_OK, ?e2)"
    using room by (simp add: queue_present_def queue_outbound_packet_def)
  have e2: "engine_inv ?e2"
    using e hpr(1) hpr(3) [OF a(1)] room by (simp add: engine_inv_def)
  obtain c3 e3 where q3: "queue_present ?e2 (notification r) = (c3, e3)"
    by (cases "queue_present ?e2 (notification r)")
  have e3: "engine_inv e3" "appends ?e2 e3"
    using queue_present_inv [OF e2 _ q3] hpr(2) by blast+
  from flush_inv [OF e3(1)] e3(2) have e4: "engine_inv (flush_device_notifications e3)"
      "appends ?e2 (flush_device_notifications e3)" using appends_trans by blast+
  have "appends ?e2 (snd (uci_sim_engine_tick (flush_device_notifications e3) 0))"
    using tick_inv [OF e4(1) surjective_pairing] e4(2) appends_trans by blast
  moreover have "e' = snd (uci_sim_engine_submit_packet e request)" using out by simp
  ultimately have "appends ?e2 e'"
    using a(1) e3(2) by (simp add: uci_sim_engine_submit_packet_def hp q2 q3 Let_def)
  with a(2) show ?thesis by (auto simp: appends_def)
qed

subsection \<open>The engine as its hosts use it\<close>

text \<open>
  Both transports use an engine through three operations. A host's calls, in any order, are a
  list; what it takes out comes first to last. The contract is a locale, so that what holds for
  every packet a host ever gets is proved once, from what each operation keeps.
\<close>

datatype host_call = Submit uci_sim_packet | Tick u32 | Take

fun host_run :: "('e \<Rightarrow> uci_sim_packet \<Rightarrow> rc \<times> 'e) \<Rightarrow> ('e \<Rightarrow> u32 \<Rightarrow> rc \<times> 'e)
    \<Rightarrow> ('e \<Rightarrow> (uci_sim_packet \<times> 'e) option) \<Rightarrow> 'e \<Rightarrow> host_call list \<Rightarrow> uci_sim_packet list \<times> 'e" where
  "host_run submit tick get e [] = ([], e)"
| "host_run submit tick get e (Submit p # calls) = host_run submit tick get (snd (submit e p)) calls"
| "host_run submit tick get e (Tick t # calls) = host_run submit tick get (snd (tick e t)) calls"
| "host_run submit tick get e (Take # calls) =
     (case get e of
        None \<Rightarrow> host_run submit tick get e calls
      | Some (p, e') \<Rightarrow> let (ps, e'') = host_run submit tick get e' calls in (p # ps, e''))"

locale engine_port =
  fixes submit :: "'e \<Rightarrow> uci_sim_packet \<Rightarrow> rc \<times> 'e"
    and tick :: "'e \<Rightarrow> u32 \<Rightarrow> rc \<times> 'e"
    and get :: "'e \<Rightarrow> (uci_sim_packet \<times> 'e) option"
    and ok :: "'e \<Rightarrow> bool"
    and good :: "uci_sim_packet \<Rightarrow> bool"
  assumes submit_keeps: "ok e \<Longrightarrow> ok (snd (submit e p))"
    and tick_keeps: "ok e \<Longrightarrow> ok (snd (tick e t))"
    and get_keeps: "ok e \<Longrightarrow> get e = Some (p, e') \<Longrightarrow> good p \<and> ok e'"
begin

lemma run_ok:
  "ok e \<Longrightarrow> ok (snd (host_run submit tick get e calls)) \<and> list_all good (fst (host_run submit tick get e calls))"
proof (induction calls arbitrary: e)
  case (Cons c calls)
  show ?case
  proof (cases c)
    case (Submit p)
    with Cons.IH [OF submit_keeps [OF Cons.prems]] show ?thesis by simp
  next
    case (Tick t)
    with Cons.IH [OF tick_keeps [OF Cons.prems]] show ?thesis by simp
  next
    case Take
    show ?thesis
    proof (cases "get e")
      case None
      with Cons.IH [OF Cons.prems] Take show ?thesis by simp
    next
      case (Some x)
      obtain p e' where x: "x = (p, e')" by (cases x)
      from get_keeps [OF Cons.prems Some [unfolded x]] have "good p" "ok e'" by simp_all
      with Cons.IH [OF this(2)] Take Some x show ?thesis by (simp add: split_def Let_def)
    qed
  qed
qed simp

end

lemma dequeue_outbound_inv:
  "engine_inv e \<Longrightarrow> uci_sim_engine_dequeue_outbound_packet e = Some (p, e') \<Longrightarrow> outbound_ok p \<and> engine_inv e'"
  by (auto simp: uci_sim_engine_dequeue_outbound_packet_def engine_inv_def split: list.splits)

interpretation port: engine_port uci_sim_engine_submit_packet uci_sim_engine_tick
  uci_sim_engine_dequeue_outbound_packet engine_inv outbound_ok
  by unfold_locales
    (use submit_inv [OF _ surjective_pairing] tick_inv [OF _ surjective_pairing] dequeue_outbound_inv in blast)+

lemma init_engine_inv:
  "profile_ok p \<Longrightarrow> engine_inv (uci_sim_engine_init_with_profile (Some p) scenario)"
  using init_device_inv [of "Some p"] by (simp add: engine_inv_def uci_sim_engine_init_with_profile_def)


subsection \<open>Properties\<close>

text \<open>
  C1. Whatever a host submits, however it lets time pass and whenever it takes packets, an
  engine started on a well-formed profile stays well formed, and every packet the host takes is
  a notification that fits the wire or a response of at most 1024 bytes.
\<close>

theorem engine_run_safe:
  assumes "profile_ok p"
  shows "case host_run uci_sim_engine_submit_packet uci_sim_engine_tick uci_sim_engine_dequeue_outbound_packet
      (uci_sim_engine_init_with_profile (Some p) scenario) calls of
    (ps, e) \<Rightarrow> engine_inv e \<and> list_all outbound_ok ps"
  using port.run_ok [OF init_engine_inv [OF assms]] by (simp add: split_def)

lemma engine_run_safe_witness:
  "case host_run uci_sim_engine_submit_packet uci_sim_engine_tick uci_sim_engine_dequeue_outbound_packet
      (uci_sim_engine_init_with_profile (Some uci_sim_default_profile) UCI_SIM_SCENARIO_RANGING_STREAM)
      [Submit \<lparr>mt = UCI_MT_COMMAND, pbf = 0, gid = UCI_GID_CORE, oid = UCI_CORE_DEVICE_INFO, payload = []\<rparr>,
       Tick 50, Take, Take] of
    (ps, e) \<Rightarrow> engine_inv e \<and> list_all outbound_ok ps"
  by (rule engine_run_safe [OF default_profile_ok])

text \<open>
  C2. When the outbound queue has room, submitting a command queues its response before anything
  else: a response packet with the group and opcode of the command and a status byte.
\<close>

theorem command_answered_first:
  assumes "engine_inv e" and "mt request = UCI_MT_COMMAND"
    and "length (outbound_packets e) < UCI_SIM_MAX_OUTBOUND_PACKETS"
  shows "\<exists>a ns. outbound_packets (snd (uci_sim_engine_submit_packet e request)) = outbound_packets e @ a # ns
    \<and> is_answer request a"
  by (rule submit_answers [OF assms surjective_pairing])

lemma command_answered_first_witness:
  "\<exists>a ns. outbound_packets (snd (uci_sim_engine_submit_packet
        (uci_sim_engine_init_with_profile (Some uci_sim_default_profile) UCI_SIM_SCENARIO_DEFAULT)
        \<lparr>mt = UCI_MT_COMMAND, pbf = 0, gid = 9, oid = 5, payload = [1, 2, 3]\<rparr>)) = [] @ a # ns
    \<and> is_answer \<lparr>mt = UCI_MT_COMMAND, pbf = 0, gid = 9, oid = 5, payload = [1, 2, 3]\<rparr> a"
  using command_answered_first [OF init_engine_inv [OF default_profile_ok],
      of "\<lparr>mt = UCI_MT_COMMAND, pbf = 0, gid = 9, oid = 5, payload = [1, 2, 3]\<rparr>" UCI_SIM_SCENARIO_DEFAULT]
  by (simp add: uci_sim_engine_init_with_profile_def)

text \<open>
  C31. A flush, in closed form: when the scenario defers notifications nothing happens; otherwise
  the pending notifications that fit the outbound queue are appended to it in order, all of them
  when there is room for all, and nothing stays pending then. When they do not all fit, the
  first one that does not is lost, and exactly the later ones stay with the device. Nothing else
  of the device changes.
\<close>

theorem flush_moves_pending:
  "flush_device_notifications e =
     (if uci_sim_scenario_should_defer_notification (dev_scenario (device e)) then e
      else
        let room = UCI_SIM_MAX_OUTBOUND_PACKETS - length (outbound_packets e);
            pending = pending_notifications (device e)
        in e\<lparr>device := (device e)\<lparr>pending_notifications := (if length pending \<le> room then [] else drop (room + 1) pending)\<rparr>,
             outbound_packets := outbound_packets e @ take room pending\<rparr>)"
  by (simp add: flush_device_notifications_def flush_loop_eq flushed_def Let_def)

end
