(* ===== verification/Lifecycle.thy ===== *)
theory Lifecycle
  imports Engine
begin

text \<open>
  The life of a session, as a state machine over what a host can see of it: its id and its
  state. \<open>session_move\<close> is the specification, with a rule per event; the theorem on
  \<open>uci_sim_device_handle_packet\<close> shows that a packet makes at most one such move, and the one on
  an emission that the stream's end is the only other one. Everything else a handler does
  leaves every session's id and state alone.
\<close>

definition skeleton_of :: "uci_sim_session \<Rightarrow> (u32 \<times> u8) option" where
  "skeleton_of s = (if allocated s then Some (session_id s, state s) else None)"

definition skeleton :: "uci_sim_device \<Rightarrow> (u32 \<times> u8) option list" where
  "skeleton d = map skeleton_of (sessions d)"

definition session_view :: "uci_sim_device \<Rightarrow> u32 \<Rightarrow> u8 option" where
  "session_view d sid = map_option (\<lambda>i. state (sessions d ! i)) (find_session_by_id d sid)"

subsection \<open>Handlers that leave the sessions' states alone\<close>

lemma skeleton_update:
  "skeleton_of s = skeleton_of (sessions d ! i) \<Longrightarrow> skeleton (set_session d i s) = skeleton d"
  by (cases "i < length (sessions d)")
    (simp_all add: skeleton_def map_update list_update_same_conv list_update_beyond)

lemma skeleton_set: "skeleton (set_session d i s) = (skeleton d)[i := skeleton_of s]"
  by (simp add: skeleton_def map_update)

lemma deliver_sessions [simp]: "sessions (fst (deliver d g o' bs r)) = sessions d"
  by (simp add: deliver_def uci_sim_device_deliver_notification_def uci_sim_device_queue_notification_def)

lemma skeleton_deliver [simp]: "skeleton (fst (deliver d g o' bs r)) = skeleton d"
  by (simp add: skeleton_def)

lemma skeleton_emit [simp]:
  "skeleton (fst (emit_session_status_ntf_with_reason d sid st reason r)) = skeleton d"
  "skeleton (fst (emit_session_status_ntf d sid st r)) = skeleton d"
  "skeleton (fst (emit_device_status_ntf d st r)) = skeleton d"
  "skeleton (fst (emit_core_generic_error_ntf d st r)) = skeleton d"
  "skeleton (fst (emit_logical_link_notification d r sid o' x y)) = skeleton d"
  by (simp_all add: emit_defs)

definition unmoved :: "uci_sim_device \<Rightarrow> rc \<times> uci_sim_device \<times> uci_sim_result \<Rightarrow> bool" where
  "unmoved d out \<longleftrightarrow> skeleton (fst (snd out)) = skeleton d"

lemma unmoved_intros [simp]:
  "unmoved d (refuse st d request r)" "unmoved d (accept g o' bs d r)" "unmoved d (c, d, r')"
  by (simp_all add: unmoved_def refuse_def accept_def)

lemma skeleton_store_config:
  "uci_sim_device_store_config d k v = Some d' \<Longrightarrow> skeleton d' = skeleton d"
  by (auto simp: uci_sim_device_store_config_def skeleton_def split: if_splits)

lemma skeleton_core_set_loop [simp]: "skeleton (fst (core_set_loop n rest d acc b)) = skeleton d"
  by (induction n rest d acc b rule: core_set_loop.induct)
    (auto simp: Let_def skeleton_store_config split: list.splits option.splits)

lemma skeleton_of_configs [simp]:
  "skeleton_of (s\<lparr>configs := es\<rparr>) = skeleton_of s"
  "skeleton_of (s\<lparr>has_last_proximity_state := b\<rparr>) = skeleton_of s"
  "skeleton_of (s\<lparr>last_in_proximity_range := b\<rparr>) = skeleton_of s"
  "skeleton_of (s\<lparr>multicast_entries := ms\<rparr>) = skeleton_of s"
  "skeleton_of (s\<lparr>logical_links := ls\<rparr>) = skeleton_of s"
  by (simp_all add: skeleton_of_def)

lemma skeleton_reschedule [simp]:
  "skeleton (snd (uci_sim_device_reschedule_session_event d ty sid t)) = skeleton d"
  by (simp add: uci_sim_device_reschedule_session_event_def uci_sim_device_schedule_event_def skeleton_def Let_def)

lemma skeleton_store_session:
  "uci_sim_session_store_config (sessions d ! i) k v = Some s \<Longrightarrow> skeleton (set_session d i s) = skeleton d"
  by (rule skeleton_update) (auto simp: uci_sim_session_store_config_def)

lemma skeleton_set_app_config: "skeleton (fst (set_app_config d i k v)) = skeleton d"
proof (cases "uci_sim_session_store_config (sessions d ! i) k v")
  case None
  then show ?thesis by (simp add: set_app_config_def split: option.splits)
next
  case (Some s)
  then obtain es where s: "s = (sessions d ! i)\<lparr>configs := es\<rparr>"
    by (auto simp: uci_sim_session_store_config_def)
  then have upd: "skeleton (set_session d i s) = skeleton d"
      "skeleton (set_session d i (s\<lparr>has_last_proximity_state := False, last_in_proximity_range := False\<rparr>)) = skeleton d"
    by (simp_all add: skeleton_update)
  have resch: "uci_sim_device_reschedule_session_event d1 ty sid t = (c, d2) \<Longrightarrow> skeleton d2 = skeleton d1"
    for d1 ty sid t c d2 using skeleton_reschedule [of d1 ty sid t] by simp
  show ?thesis
    using Some upd
    by (auto simp: set_app_config_def Let_def split: option.splits prod.splits rc.splits dest!: resch)
qed

lemma skeleton_app_set_loop [simp]: "skeleton (fst (app_set_loop n rest d i)) = skeleton d"
proof (induction n rest d i rule: app_set_loop.induct)
  case (2 n rest d i)
  have step: "set_app_config d i k v = (d', st) \<Longrightarrow> skeleton d' = skeleton d" for k v d' st
    using skeleton_set_app_config [of d i k v] by simp
  show ?case using 2 by (auto split: list.splits option.splits prod.splits dest: step)
qed simp

lemma skeleton_multicast_change [simp]: "skeleton_of (snd (multicast_change a s x y key)) = skeleton_of s"
  by (simp add: multicast_change_def uci_sim_session_add_multicast_entry_def
      uci_sim_session_remove_multicast_entry_def split: option.splits)

lemma skeleton_multicast_loop: "skeleton_of (fst (multicast_loop n a rest s acc ov k)) = skeleton_of s"
proof (induction n arbitrary: rest s acc ov k)
  case (Suc n)
  have "skeleton_of s' = skeleton_of s" if "multicast_entry a rest s = Some (rest', s', an, st)" for rest' s' an st
    using that by (auto simp: multicast_entry_def Let_def split: if_splits)
  with Suc show ?case by (auto split: option.splits)
qed simp

lemma unmoved_config:
  "unmoved d (handle_core_set_get_config b d request r)"
  "unmoved d (handle_session_set_get_config b d request r)"
  "unmoved d (handle_session_get_count d request r)" "unmoved d (handle_session_query_data_size d request r)"
  "unmoved d (handle_session_get_state d request r)"
  "unmoved d (handle_qorvo_ext2 d request r)" "unmoved d (handle_qorvo_mac d request r)"
  by (auto simp: unmoved_def handle_core_set_get_config_def handle_session_set_get_config_def
      handle_session_get_count_def handle_session_query_data_size_def handle_session_get_state_def
      handle_qorvo_ext2_def handle_qorvo_mac_def refuse_def accept_def Let_def split_def split: option.splits)

lemma unmoved_multicast: "unmoved d (handle_session_update_multicast_list d request r)"
  by (auto simp: unmoved_def handle_session_update_multicast_list_def refuse_def Let_def split_def
      skeleton_update [OF skeleton_multicast_loop] split: option.splits)

lemma unmoved_phase: "unmoved d (handle_session_data_transfer_phase_config d request r)"
  by (auto simp: unmoved_def handle_session_data_transfer_phase_config_def refuse_def Let_def skeleton_of_def
      intro!: skeleton_update split: option.splits)

lemma unmoved_rounds: "unmoved d (handle_session_update_dt_rounds b d request r)"
  by (auto simp: unmoved_def handle_session_update_dt_rounds_def refuse_def Let_def skeleton_of_def
      intro!: skeleton_update split: option.splits)

lemma allocate_link_frame:
  "uci_sim_session_allocate_logical_link s c = Some (s', k, c') \<Longrightarrow> \<exists>ls. s' = s\<lparr>logical_links := ls\<rparr>"
  by (auto simp: uci_sim_session_allocate_logical_link_def Let_def split: if_splits)

lemma remove_link_frame:
  "uci_sim_session_remove_logical_link s c = Some s' \<Longrightarrow> \<exists>ls. s' = s\<lparr>logical_links := ls\<rparr>"
  by (auto simp: uci_sim_session_remove_logical_link_def split: option.splits)

lemma unmoved_links:
  "unmoved d (handle_logical_link_create i sid d request r)"
  "unmoved d (handle_logical_link_close i sid d request r)"
  "unmoved d (handle_logical_link_get_param i d request r)"
proof -
  have create: "skeleton (set_session d i (s\<lparr>logical_links := ls\<rparr>)) = skeleton d"
    if "uci_sim_session_allocate_logical_link (sessions d ! i) c = Some (s, k, c')" for s k c c' ls
    using allocate_link_frame [OF that] by (auto intro!: skeleton_update)
  have close: "skeleton (set_session d i s) = skeleton d"
    if "uci_sim_session_remove_logical_link (sessions d ! i) c = Some s" for s c
    using remove_link_frame [OF that] by (auto intro!: skeleton_update)
  show "unmoved d (handle_logical_link_create i sid d request r)"
    using create by (auto simp: unmoved_def handle_logical_link_create_def refuse_def Let_def split: option.splits)
  show "unmoved d (handle_logical_link_close i sid d request r)"
    using close by (auto simp: unmoved_def handle_logical_link_close_def refuse_def Let_def split: option.splits)
  show "unmoved d (handle_logical_link_get_param i d request r)"
    by (auto simp: unmoved_def handle_logical_link_get_param_def refuse_def Let_def split: option.splits)
qed

subsection \<open>The view of the host\<close>

text \<open>The view depends on the skeleton only.\<close>

lemma session_view_skeleton:
  "session_view d sid = map_option snd (find (\<lambda>x. fst x = sid) (map the (filter (\<lambda>x. x \<noteq> None) (skeleton d))))"
proof -
  have "map_option (\<lambda>i. state (ss ! i)) (find_index (\<lambda>s. allocated s \<and> session_id s = sid) ss) =
      map_option snd (find (\<lambda>x. fst x = sid) (map the (filter (\<lambda>x. x \<noteq> None) (map skeleton_of ss))))"
    for ss :: "uci_sim_session list"
    by (induction ss) (auto simp: skeleton_of_def option.map_comp comp_def)
  then show ?thesis by (simp add: session_view_def find_session_by_id_def skeleton_def)
qed

lemma session_view_cong: "skeleton d' = skeleton d \<Longrightarrow> session_view d' = session_view d"
  by (rule ext) (simp add: session_view_skeleton)

lemma session_view_eq_Some:
  "device_inv d \<Longrightarrow> session_view d sid = Some st \<longleftrightarrow>
   (\<exists>i<length (sessions d). allocated (sessions d ! i) \<and> session_id (sessions d ! i) = sid \<and> state (sessions d ! i) = st)"
  by (auto simp: session_view_def find_session_eq_Some)

lemma session_view_set:
  assumes inv: "device_inv d" and i: "i < length (sessions d)" "allocated (sessions d ! i)"
    and s: "allocated s" "session_id s = session_id (sessions d ! i)"
  shows "session_view (set_session d i s) = (session_view d)(session_id s \<mapsto> state s)"
proof (rule ext)
  fix sid
  have same: "find_session_by_id (set_session d i s) sid = find_session_by_id d sid"
    unfolding find_session_by_id_def set_session_simps
    by (rule find_index_cong) (use s i in \<open>auto simp: nth_list_update\<close>)
  show "session_view (set_session d i s) sid = ((session_view d)(session_id s \<mapsto> state s)) sid"
  proof (cases "sid = session_id s")
    case True
    then have "find_session_by_id d sid = Some i" using i s by (simp add: find_session_eq_Some [OF inv])
    with True same i show ?thesis by (simp add: session_view_def)
  next
    case False
    have "j \<noteq> i" if "find_session_by_id d sid = Some j" for j
      using find_session_SomeD(3) [OF that inv] s(2) False by auto
    then have "map_option (\<lambda>j. state ((sessions d)[i := s] ! j)) (find_session_by_id d sid) =
        map_option (\<lambda>j. state (sessions d ! j)) (find_session_by_id d sid)"
      by (cases "find_session_by_id d sid") simp_all
    with False same show ?thesis by (simp add: session_view_def)
  qed
qed

text \<open>A slot that is filled with a fresh session, and one that is freed.\<close>

lemma session_view_fill:
  assumes inv: "device_inv d" and i: "i < length (sessions d)" "\<not> allocated (sessions d ! i)"
    and inv': "device_inv (set_session d i s)" and s: "allocated s"
  shows "session_view (set_session d i s) = (session_view d)(session_id s \<mapsto> state s) \<and> session_view d (session_id s) = None"
proof
  have find: "find_session_by_id (set_session d i s) sid = Some j \<longleftrightarrow>
      (if sid = session_id s then j = i else find_session_by_id d sid = Some j)" for sid j
  proof -
    have "find_session_by_id (set_session d i s) (session_id s) = Some i"
      using i s by (simp add: find_session_eq_Some [OF inv'])
    moreover have "find_session_by_id (set_session d i s) sid = Some j \<longleftrightarrow> find_session_by_id d sid = Some j"
      if "sid \<noteq> session_id s"
      using i that by (cases "j = i") (auto simp: find_session_eq_Some [OF inv'] find_session_eq_Some [OF inv])
    ultimately show ?thesis by auto
  qed
  show "session_view (set_session d i s) = (session_view d)(session_id s \<mapsto> state s)"
  proof (rule ext)
    fix sid
    show "session_view (set_session d i s) sid = ((session_view d)(session_id s \<mapsto> state s)) sid"
    proof (cases "sid = session_id s")
      case True
      with find [of sid i] i show ?thesis by (simp add: session_view_def)
    next
      case False
      then have eq: "find_session_by_id (set_session d i s) sid = find_session_by_id d sid"
        using find [of sid] by (cases "find_session_by_id d sid"; cases "find_session_by_id (set_session d i s) sid") auto
      have "j \<noteq> i" if "find_session_by_id d sid = Some j" for j
        using find_session_SomeD(2) [OF that inv] i(2) by blast
      then have "map_option (\<lambda>j. state ((sessions d)[i := s] ! j)) (find_session_by_id d sid) =
          map_option (\<lambda>j. state (sessions d ! j)) (find_session_by_id d sid)"
        by (cases "find_session_by_id d sid") simp_all
      with False eq show ?thesis by (simp add: session_view_def)
    qed
  qed
  have "find_session_by_id d (session_id s) = None"
  proof (rule ccontr)
    assume "find_session_by_id d (session_id s) \<noteq> None"
    then obtain j where j: "find_session_by_id d (session_id s) = Some j" by blast
    then have "j < length (sessions d)" "allocated (sessions d ! j)" "session_id (sessions d ! j) = session_id s"
      using find_session_SomeD [OF j inv] by simp_all
    moreover then have "j \<noteq> i" using i(2) by blast
    ultimately have "find_session_by_id (set_session d i s) (session_id s) = Some j"
      by (simp add: find_session_eq_Some [OF inv'])
    with find [of "session_id s" j] \<open>j \<noteq> i\<close> show False by simp
  qed
  then show "session_view d (session_id s) = None" by (simp add: session_view_def)
qed

lemma session_view_free:
  assumes inv: "device_inv d" and i: "i < length (sessions d)" "allocated (sessions d ! i)"
    and inv': "device_inv (set_session d i zero_session)"
  shows "session_view (set_session d i zero_session) = (session_view d)(session_id (sessions d ! i) := None)"
proof -
  have "(session_view d)(session_id (sessions d ! i) := None) = session_view (set_session d i zero_session)"
  proof (rule ext)
    fix sid
    have find: "find_session_by_id (set_session d i zero_session) sid = Some j \<longleftrightarrow>
        j \<noteq> i \<and> find_session_by_id d sid = Some j" for j
      by (cases "j = i") (auto simp: find_session_eq_Some [OF inv'] find_session_eq_Some [OF inv])
    have self: "find_session_by_id d (session_id (sessions d ! i)) = Some i"
      using i by (simp add: find_session_eq_Some [OF inv])
    show "((session_view d)(session_id (sessions d ! i) := None)) sid = session_view (set_session d i zero_session) sid"
    proof (cases "find_session_by_id (set_session d i zero_session) sid")
      case None
      then have "find_session_by_id d sid = None \<or> sid = session_id (sessions d ! i)"
        using find find_session_SomeD(3) [OF _ inv] by (cases "find_session_by_id d sid") fastforce+
      with None show ?thesis by (auto simp: session_view_def)
    next
      case (Some j)
      then have j: "j \<noteq> i" "find_session_by_id d sid = Some j" using find by simp_all
      then have "sid \<noteq> session_id (sessions d ! i)" using self by auto
      with Some j show ?thesis by (simp add: session_view_def)
    qed
  qed
  then show ?thesis ..
qed

subsection \<open>The state machine\<close>

inductive session_move :: "(u32 \<Rightarrow> u8 option) \<Rightarrow> (u32 \<Rightarrow> u8 option) \<Rightarrow> bool" where
  created: "v sid = None \<Longrightarrow> session_move v (v(sid \<mapsto> UCI_SESSION_STATE_INIT))"
| started: "v sid = Some st \<Longrightarrow> st = UCI_SESSION_STATE_INIT \<or> st = UCI_SESSION_STATE_IDLE
    \<Longrightarrow> session_move v (v(sid \<mapsto> UCI_SESSION_STATE_ACTIVE))"
| stopped: "v sid = Some UCI_SESSION_STATE_ACTIVE \<Longrightarrow> session_move v (v(sid \<mapsto> UCI_SESSION_STATE_IDLE))"
| removed: "v sid = Some st \<Longrightarrow> session_move v (v(sid := None))"
| emptied: "session_move v Map.empty"

inductive_cases session_moveE: "session_move v v'"

text \<open>
  The machine with its labels. A command moves the session it names, and only as its group and
  opcode say; time alone can only stop a session.
\<close>

type_synonym session_states = "u32 \<Rightarrow> u8 option"

definition commands :: "uci_sim_packet \<Rightarrow> u8 \<Rightarrow> u8 \<Rightarrow> bool" where
  "commands p g o' \<longleftrightarrow> mt p = UCI_MT_COMMAND \<and> gid p = g \<and> oid p = o'"

inductive command_move :: "uci_sim_packet \<Rightarrow> session_states \<Rightarrow> session_states \<Rightarrow> bool" where
  init: "commands p UCI_GID_SESSION_CONFIG UCI_SESSION_INIT \<Longrightarrow> v (read_u32_le (payload p)) = None
    \<Longrightarrow> command_move p v (v(read_u32_le (payload p) \<mapsto> UCI_SESSION_STATE_INIT))"
| start: "commands p UCI_GID_SESSION_CONTROL UCI_SESSION_START \<Longrightarrow> v (read_u32_le (payload p)) = Some st
    \<Longrightarrow> st = UCI_SESSION_STATE_INIT \<or> st = UCI_SESSION_STATE_IDLE
    \<Longrightarrow> command_move p v (v(read_u32_le (payload p) \<mapsto> UCI_SESSION_STATE_ACTIVE))"
| stop: "commands p UCI_GID_SESSION_CONTROL UCI_SESSION_STOP
    \<Longrightarrow> v (read_u32_le (payload p)) = Some UCI_SESSION_STATE_ACTIVE
    \<Longrightarrow> command_move p v (v(read_u32_le (payload p) \<mapsto> UCI_SESSION_STATE_IDLE))"
| deinit: "commands p UCI_GID_SESSION_CONFIG UCI_SESSION_DEINIT \<Longrightarrow> v (read_u32_le (payload p)) = Some st
    \<Longrightarrow> command_move p v (v(read_u32_le (payload p) := None))"
| reset: "commands p UCI_GID_CORE UCI_CORE_DEVICE_RESET \<Longrightarrow> command_move p v Map.empty"

inductive timer_move :: "session_states \<Rightarrow> session_states \<Rightarrow> bool" where
  timer_move: "v sid = Some UCI_SESSION_STATE_ACTIVE \<Longrightarrow> timer_move v (v(sid \<mapsto> UCI_SESSION_STATE_IDLE))"

lemma command_move_session_move: "command_move p v v' \<Longrightarrow> session_move v v'"
  by (induction rule: command_move.induct) (blast intro: session_move.intros)+

text \<open>What one call of a host may do: submitting a packet ends with a tick of no time.\<close>

inductive call_step :: "host_call \<Rightarrow> session_states \<Rightarrow> session_states \<Rightarrow> bool" where
  submit: "(command_move p)\<^sup>=\<^sup>= v v' \<Longrightarrow> timer_move\<^sup>=\<^sup>= v' v'' \<Longrightarrow> call_step (Submit p) v v''"
| tick: "timer_move\<^sup>=\<^sup>= v v' \<Longrightarrow> call_step (Tick t) v v'"
| take: "call_step Take v v"

inductive call_steps :: "host_call list \<Rightarrow> session_states \<Rightarrow> session_states \<Rightarrow> bool" where
  no_call: "call_steps [] v v"
| a_call: "call_step c v v' \<Longrightarrow> call_steps cs v' v'' \<Longrightarrow> call_steps (c # cs) v v''"


text \<open>What the labels rule out: without a START no session becomes active.\<close>

lemma active_needs_start:
  "call_steps cs v v' \<Longrightarrow> v' sid = Some UCI_SESSION_STATE_ACTIVE \<Longrightarrow>
   v sid = Some UCI_SESSION_STATE_ACTIVE
   \<or> (\<exists>p. Submit p \<in> set cs \<and> commands p UCI_GID_SESSION_CONTROL UCI_SESSION_START \<and> read_u32_le (payload p) = sid)"
proof (induction rule: call_steps.induct)
  case (a_call c v v' cs v'')
  have timer: "v sid = Some UCI_SESSION_STATE_ACTIVE" if "timer_move\<^sup>=\<^sup>= v v'" "v' sid = Some UCI_SESSION_STATE_ACTIVE" for v v'
    using that by (auto elim!: timer_move.cases split: if_splits)
  have cmd: "v sid = Some UCI_SESSION_STATE_ACTIVE
      \<or> commands p UCI_GID_SESSION_CONTROL UCI_SESSION_START \<and> read_u32_le (payload p) = sid"
    if "(command_move p)\<^sup>=\<^sup>= v v'" "v' sid = Some UCI_SESSION_STATE_ACTIVE" for p v v'
    using that by (auto elim!: command_move.cases split: if_splits)
  from a_call.IH [OF a_call.prems] show ?case
  proof
    assume "v' sid = Some UCI_SESSION_STATE_ACTIVE"
    with a_call.hyps(1) show ?thesis
      by (cases rule: call_step.cases) (use timer cmd in \<open>fastforce+\<close>)
  qed auto
qed simp

text \<open>What the machine rules out: a session goes from INIT or IDLE to ACTIVE and from ACTIVE to IDLE.\<close>

lemma session_move_states:
  assumes "session_move v v'" and "v sid = Some st" and "v' sid = Some st'" and "st \<noteq> st'"
  shows "st' = UCI_SESSION_STATE_ACTIVE \<and> (st = UCI_SESSION_STATE_INIT \<or> st = UCI_SESSION_STATE_IDLE)
    \<or> st' = UCI_SESSION_STATE_IDLE \<and> st = UCI_SESSION_STATE_ACTIVE"
  using assms by (elim session_moveE) (auto split: if_splits)

definition moves :: "(session_states \<Rightarrow> session_states \<Rightarrow> bool) \<Rightarrow> uci_sim_device \<Rightarrow> uci_sim_device \<Rightarrow> bool" where
  "moves R d d' \<longleftrightarrow> R\<^sup>=\<^sup>= (session_view d) (session_view d')"

lemma moves_skeleton: "moves R d d' \<Longrightarrow> skeleton d'' = skeleton d' \<Longrightarrow> moves R d d''"
  by (drule session_view_cong) (simp add: moves_def)

lemma moves_refl [simp]: "moves R d d" by (simp add: moves_def)

lemma moves_unmoved: "unmoved d out \<Longrightarrow> moves R d (fst (snd out))"
  unfolding unmoved_def by (rule moves_skeleton [OF moves_refl])

subsection \<open>INIT, DEINIT, START, STOP and reset\<close>

lemma moves_init:
  assumes inv: "device_inv d" and cmd: "commands request UCI_GID_SESSION_CONFIG UCI_SESSION_INIT"
  shows "moves (command_move request) d (fst (snd (handle_session_init d request r)))"
proof -
  let ?sid = "read_u32_le (payload request)"
  have fill: "moves (command_move request) d d'"
    if a: "alloc_session d ?sid = Some (d', i)" and new: "find_session_by_id d ?sid = None" for d' i
  proof -
    let ?s = "fresh_session d zero_session ?sid"
    note fresh = fresh_session_facts [OF inv, of ?sid]
    have i: "i < length (sessions d)" "\<not> allocated (sessions d ! i)" and d': "d' = set_session d i ?s"
      using alloc_session_SomeD [OF a inv] by simp_all
    have "device_inv (set_session d i ?s)" using alloc_session_inv [OF a inv new] d' by simp
    from session_view_fill [OF inv i this fresh(2)] fresh(3,4)
    have "session_view d' = (session_view d)(?sid \<mapsto> UCI_SESSION_STATE_INIT)" "session_view d ?sid = None"
      by (simp_all add: d')
    with command_move.init [OF cmd, of "session_view d"] show ?thesis by (simp add: moves_def)
  qed
  have "moves (command_move request) d (fst (emit_session_status_ntf d' sid st r'))"
    if "moves (command_move request) d d'" for d' sid st r'
    using that by (rule moves_skeleton) simp
  with fill show ?thesis
    by (auto simp: handle_session_init_def refuse_def Let_def split: option.splits)
qed

lemma moves_deinit:
  assumes inv: "device_inv d" and cmd: "commands request UCI_GID_SESSION_CONFIG UCI_SESSION_DEINIT"
  shows "moves (command_move request) d (fst (snd (handle_session_deinit d request r)))"
proof -
  have free: "moves (command_move request) d (set_session d' i zero_session)"
    if f: "find_session_by_id d (read_u32_le (payload request)) = Some i" and same: "sessions d' = sessions d" for i d'
  proof -
    note i = found_session(1,2) [OF f inv]
    have id: "session_id (sessions d ! i) = read_u32_le (payload request)" by (rule find_session_SomeD(3) [OF f inv])
    have "session_view (set_session d i zero_session) = (session_view d)(session_id (sessions d ! i) := None)"
      using inv i free_session_inv [OF inv] by (rule session_view_free)
    moreover have "session_view d (session_id (sessions d ! i)) = Some (state (sessions d ! i))"
      using i inv by (auto simp: session_view_eq_Some)
    moreover have "session_view (set_session d' i zero_session) = session_view (set_session d i zero_session)"
      using same by (intro session_view_cong) (simp add: skeleton_def)
    ultimately have "session_view (set_session d' i zero_session) = (session_view d)(read_u32_le (payload request) := None)"
      "session_view d (read_u32_le (payload request)) = Some (state (sessions d ! i))"
      using id by simp_all
    with command_move.deinit [OF cmd, of "session_view d"] show ?thesis by (simp add: moves_def)
  qed
  show ?thesis
    using free deliver_sessions
    by (auto simp: handle_session_deinit_def refuse_def Let_def split_def emit_defs split: option.splits)
qed

lemma skeleton_of_remaining [simp]: "skeleton_of (s\<lparr>ranging_stream_remaining := n\<rparr>) = skeleton_of s"
  "skeleton_of (s\<lparr>state := st\<rparr>) = (if allocated s then Some (session_id s, st) else None)"
  by (simp_all add: skeleton_of_def)

lemma skeleton_schedule [simp]: "skeleton (snd (uci_sim_device_schedule_event d ty sid t)) = skeleton d"
  by (simp add: skeleton_def schedule_event_snd)

lemma skeleton_cancel [simp]: "skeleton (uci_sim_device_cancel_session_events d sid) = skeleton d"
  by (simp add: skeleton_def uci_sim_device_cancel_session_events_def)

lemma skeleton_started [simp]: "skeleton (snd (uci_sim_scenario_on_session_started d i)) = skeleton d"
  by (simp add: uci_sim_scenario_on_session_started_def Let_def skeleton_update)

lemma skeleton_stopped [simp]: "skeleton (uci_sim_scenario_on_session_stopped d i) = skeleton d"
  by (simp add: uci_sim_scenario_on_session_stopped_def Let_def skeleton_update skeleton_of_def)

lemma allowed_states:
  assumes "transition_ok t" and "state_allowed t st" and "protocol_state st"
  shows "tr_next_state t = UCI_SESSION_STATE_ACTIVE \<and> (st = UCI_SESSION_STATE_INIT \<or> st = UCI_SESSION_STATE_IDLE)
    \<or> tr_next_state t = UCI_SESSION_STATE_IDLE \<and> st = UCI_SESSION_STATE_ACTIVE"
  using assms by (auto simp: transition_ok_def state_allowed_def protocol_state_def)

lemma moves_apply:
  assumes inv: "device_inv d" and i: "i < length (sessions d)" "allocated (sessions d ! i)"
    and t: "transition_ok t" "tr_oid t = oid request" and allowed: "state_allowed t (state (sessions d ! i))"
    and cmd: "mt request = UCI_MT_COMMAND" "gid request = UCI_GID_SESSION_CONTROL"
    and id: "session_id (sessions d ! i) = read_u32_le (payload request)"
  shows "moves (command_move request) d (fst (snd (apply_transition i sid t d request r)))"
proof -
  let ?s = "sessions d ! i"
  let ?s2 = "?s\<lparr>state := tr_next_state t\<rparr>"
  have ok: "session_ok ?s" using device_invD(6,7) [OF inv] i by simp
  then have "protocol_state (state ?s)" using i by (simp add: session_ok_def)
  note st = allowed_states [OF t(1) allowed this]
  have oid: "oid request = (if tr_next_state t = UCI_SESSION_STATE_ACTIVE then UCI_SESSION_START else UCI_SESSION_STOP)"
    using t by (auto simp: transition_ok_def)
  from session_view_set [OF inv i, of ?s2] i
  have view: "session_view (set_session d i ?s2) = (session_view d)(session_id ?s \<mapsto> tr_next_state t)" by simp
  have now: "session_view d (session_id ?s) = Some (state ?s)"
    using i inv by (auto simp: session_view_eq_Some)
  have "command_move request (session_view d) ((session_view d)(session_id ?s \<mapsto> tr_next_state t))"
    using st
  proof
    assume a: "tr_next_state t = UCI_SESSION_STATE_ACTIVE \<and> (state ?s = UCI_SESSION_STATE_INIT \<or> state ?s = UCI_SESSION_STATE_IDLE)"
    with oid cmd have "commands request UCI_GID_SESSION_CONTROL UCI_SESSION_START" by (simp add: commands_def)
    from command_move.start [OF this, of "session_view d" "state ?s"] a now id show ?thesis by simp
  next
    assume a: "tr_next_state t = UCI_SESSION_STATE_IDLE \<and> state ?s = UCI_SESSION_STATE_ACTIVE"
    with oid cmd have "commands request UCI_GID_SESSION_CONTROL UCI_SESSION_STOP" by (simp add: commands_def)
    from command_move.stop [OF this, of "session_view d"] a now id show ?thesis by simp
  qed
  then have "moves (command_move request) d (set_session d i ?s2)" unfolding moves_def view by simp
  moreover have "skeleton (fst (snd (apply_transition i sid t d request r))) = skeleton (set_session d i ?s2)"
    using i by (simp add: apply_transition_def Let_def split_def skeleton_set skeleton_of_def)
  ultimately show ?thesis by (rule moves_skeleton)
qed

lemma moves_control:
  assumes inv: "device_inv d" and cmd: "mt request = UCI_MT_COMMAND" "gid request = UCI_GID_SESSION_CONTROL"
  shows "moves (command_move request) d (fst (snd (handle_session_control d request r)))"
proof (cases "\<not> uci_sim_profile_supports_command (dev_profile d) (gid request) (oid request)
    \<or> payload_len request < 4 \<or> find_session_by_id d (read_u32_le (payload request)) = None")
  case True
  then show ?thesis by (auto simp: handle_session_control_def refuse_def Let_def)
next
  case False
  then obtain i where i: "find_session_by_id d (read_u32_le (payload request)) = Some i" by blast
  note found = found_session(1,2) [OF i inv]
  let ?sid = "read_u32_le (payload request)"
  have id: "session_id (sessions d ! i) = ?sid" by (rule find_session_SomeD(3) [OF i inv])
  have "moves (command_move request) d (fst (snd (handle_session_transition i ?sid d request r)))"
  proof (cases "uci_sim_profile_get_session_transition (dev_profile d) (oid request)")
    case None
    then show ?thesis by (simp add: handle_session_transition_def refuse_def)
  next
    case (Some t)
    from transition_found [OF Some inv] have t: "transition_ok t" "tr_oid t = oid request" by simp_all
    have quiet: "moves (command_move request) d (fst (emit_session_status_ntf_with_reason d ?sid st reason r'))" for st reason r'
      by (rule moves_skeleton [OF moves_refl]) simp
    show ?thesis
      using Some moves_apply [OF inv found t _ cmd id] quiet
      by (simp add: handle_session_transition_def refuse_def split: sum.splits)
  qed
  then show ?thesis
    using False i moves_unmoved [OF unmoved_links(1)] moves_unmoved [OF unmoved_links(2)]
      moves_unmoved [OF unmoved_links(3)]
    by (simp add: handle_session_control_def accept_def Let_def)
qed

lemma moves_core:
  assumes cmd: "mt request = UCI_MT_COMMAND" "gid request = UCI_GID_CORE"
  shows "moves (command_move request) d (fst (snd (handle_core d request r)))"
proof -
  have reset: "moves (command_move request) d (fst (emit_device_status_ntf (uci_sim_device_reset_runtime_state d) st r'))"
    if "oid request = UCI_CORE_DEVICE_RESET" for st r'
  proof (rule moves_skeleton)
    have "session_view (uci_sim_device_reset_runtime_state d) = Map.empty"
      by (rule ext) (simp add: session_view_def find_session_by_id_def reset_is_init
          uci_sim_device_init_with_profile_def apply_profile_defaults_def zero_device_def find_index_replicate)
    then show "moves (command_move request) d (uci_sim_device_reset_runtime_state d)"
      using that cmd by (simp add: moves_def commands_def command_move.reset)
  qed simp
  have stamp: "moves (command_move request) d (d\<lparr>next_uwbs_timestamp := x\<rparr>)" for x
    by (rule moves_skeleton [OF moves_refl]) (simp add: skeleton_def)
  show ?thesis
    using reset stamp moves_unmoved [OF unmoved_config(1)]
    by (simp add: handle_core_def refuse_def accept_def Let_def split: option.splits)
qed

lemma moves_session_config:
  "device_inv d \<Longrightarrow> mt request = UCI_MT_COMMAND \<Longrightarrow> gid request = UCI_GID_SESSION_CONFIG \<Longrightarrow>
   moves (command_move request) d (fst (snd (handle_session_config d request r)))"
  using moves_init [of d request r] moves_deinit [of d request r] moves_unmoved [OF unmoved_config(2)] moves_unmoved [OF unmoved_config(3)]
    moves_unmoved [OF unmoved_config(4)] moves_unmoved [OF unmoved_config(5)]
    moves_unmoved [OF unmoved_multicast] moves_unmoved [OF unmoved_phase] moves_unmoved [OF unmoved_rounds]
  by (simp add: handle_session_config_def refuse_def commands_def)

lemma moves_dispatch:
  "device_inv d \<Longrightarrow> mt request = UCI_MT_COMMAND \<Longrightarrow>
   moves (command_move request) d (fst (snd (dispatch_command d request r)))"
  using moves_core moves_session_config moves_control moves_unmoved [OF unmoved_config(6)]
    moves_unmoved [OF unmoved_config(7)]
  by (simp add: dispatch_command_def refuse_def)

lemma sessions_queue [simp]:
  "sessions (snd (uci_sim_device_queue_notification d n)) = sessions d"
  "sessions (snd (uci_sim_device_queue_data_credit_notification d sid a)) = sessions d"
  "sessions (snd (uci_sim_device_queue_data_transfer_status_notification d sid q st tx)) = sessions d"
  "sessions (snd (uci_sim_device_queue_session_status_notification d sid st tx)) = sessions d"
  by (simp_all add: queue_notification_snd uci_sim_device_queue_data_credit_notification_def
      uci_sim_device_queue_data_transfer_status_notification_def
      uci_sim_device_queue_session_status_notification_def)

lemma sessions_finalize [simp]: "sessions (fst (uci_sim_device_finalize_result d r k)) = sessions d"
  by (simp add: uci_sim_device_finalize_result_def uci_sim_device_dequeue_notification_def
      split: option.splits list.splits)

lemma moves_data: "moves R d (fst (snd (handle_data_message_send d request r)))"
proof -
  have fin: "sessions (snd (queue_data_done d1 sid q st)) = sessions d1" for d1 sid q st
    by (simp add: queue_data_done_def Let_def split_def)
  have start: "skeleton (snd (start_data_transfer d1 i sid q n)) = skeleton d1" for d1 i sid q n
  proof -
    have keep: "skeleton_of (s\<lparr>data_transfer_in_progress := b, data_transfer_repetitions_remaining := n,
        data_transfer_tx_count := x\<rparr>) = skeleton_of s" for s b n x
      by (simp add: skeleton_of_def)
    have keep': "skeleton_of (s\<lparr>data_transfer_in_progress := b, data_transfer_repetitions_remaining := n,
        data_transfer_tx_count := x, data_transfer_sequence := y\<rparr>) = skeleton_of s" for s b n x y
      by (simp add: skeleton_of_def)
    show ?thesis
      by (simp add: start_data_transfer_def Let_def split_def skeleton_update keep keep')
  qed
  have store: "skeleton (set_session d i ((sessions d ! i)\<lparr>last_data_sequence := q, last_data_length := l,
      has_last_data_message := True\<rparr>)) = skeleton d" for i q l
    by (rule skeleton_update) (simp add: skeleton_of_def)
  have "skeleton (fst (snd (handle_data_message_send d request r))) = skeleton d"
    using start store fin
    by (simp add: handle_data_message_send_def reject_data_def Let_def split_def skeleton_def split: option.splits)
  then show ?thesis by (rule moves_skeleton [OF moves_refl])
qed

text \<open>A packet makes at most one move.\<close>

lemma packet_moves:
  assumes inv: "device_inv d"
  shows "moves (command_move request) d (fst (snd (uci_sim_device_handle_packet d request)))"
proof -
  let ?R = "command_move request"
  have fin: "moves ?R d (fst (uci_sim_device_finalize_result d' r' k))" if "moves ?R d d'" for d' r' k
    using that by (rule moves_skeleton) (simp add: skeleton_def)
  have err: "moves ?R d (fst (emit_core_generic_error_ntf d' x r'))" if "moves ?R d d'" for d' x r'
    using that by (rule moves_skeleton) simp
  show ?thesis
    using moves_data moves_dispatch [OF inv] fin err
    by (simp add: uci_sim_device_handle_packet_def Let_def split_def split: option.splits)
qed

subsection \<open>Ticks\<close>

lemma emit_sample_sessions: "emit_sample d m q = (c, d') \<Longrightarrow> sessions d' = sessions d"
  by (auto simp: emit_sample_def Let_def uci_sim_device_queue_notification_def split: option.splits if_splits)

lemma skeleton_stop_at_maximum:
  "i < length (sessions d) \<Longrightarrow> allocated (sessions d ! i) \<Longrightarrow>
   skeleton (snd (stop_at_maximum d i)) = (skeleton d)[i := Some (session_id (sessions d ! i), UCI_SESSION_STATE_IDLE)]"
  by (simp add: stop_at_maximum_def Let_def skeleton_def map_update uci_sim_device_cancel_session_events_def
      skeleton_of_def)

lemma moves_emit:
  assumes inv: "device_inv d" and i: "i < length (sessions d)" "allocated (sessions d ! i)"
  shows "moves timer_move d (snd (uci_sim_device_emit_ranging_stream d i))"
proof (cases "dev_scenario d \<noteq> UCI_SIM_SCENARIO_RANGING_STREAM \<or> ranging_stream_remaining (sessions d ! i) = 0
    \<or> state (sessions d ! i) \<noteq> UCI_SESSION_STATE_ACTIVE")
  case True
  then have "uci_sim_device_emit_ranging_stream d i = (RC_OK, d)" by (intro emit_stream_idle) auto
  then show ?thesis by simp
next
  case live: False
  let ?s = "sessions d ! i"
  have now: "session_view d (session_id ?s) = Some UCI_SESSION_STATE_ACTIVE"
    using i live inv by (auto simp: session_view_eq_Some)
  have "session_view (set_session d i (?s\<lparr>state := UCI_SESSION_STATE_IDLE\<rparr>)) =
      (session_view d)(session_id ?s \<mapsto> UCI_SESSION_STATE_IDLE)"
    using session_view_set [OF inv i, of "?s\<lparr>state := UCI_SESSION_STATE_IDLE\<rparr>"] i by simp
  then have idle: "moves timer_move d (set_session d i (?s\<lparr>state := UCI_SESSION_STATE_IDLE\<rparr>))"
    using now by (simp add: moves_def timer_move.intros)
  have stop: "moves timer_move d (snd (stop_at_maximum d1 i))" if "skeleton d1 = skeleton d" for d1
  proof -
    have "length (sessions d1) = length (sessions d)" using that unfolding skeleton_def by (metis length_map)
    moreover have "skeleton_of (sessions d1 ! i) = skeleton_of ?s"
      using that i calculation unfolding skeleton_def by (metis nth_map)
    ultimately have "i < length (sessions d1)" "allocated (sessions d1 ! i)" "session_id (sessions d1 ! i) = session_id ?s"
      using i by (auto simp: skeleton_of_def split: if_splits)
    then have "skeleton (snd (stop_at_maximum d1 i)) = skeleton (set_session d i (?s\<lparr>state := UCI_SESSION_STATE_IDLE\<rparr>))"
      using i that by (simp add: skeleton_stop_at_maximum skeleton_set)
    with idle show ?thesis by (rule moves_skeleton)
  qed
  let ?m = "uci_sim_measurement_init_ranging_sample (effective_profile d) ?s"
  let ?q = "uci_sim_measurement_evaluate_range_notification_policy ?s ?m"
  obtain c d1 where step: "(if should_emit_notification ?q then emit_sample d ?m ?q else (RC_OK, d)) = (c, d1)"
    by (cases "if should_emit_notification ?q then emit_sample d ?m ?q else (RC_OK, d)")
  have same: "sessions d1 = sessions d" using step emit_sample_sessions by (auto split: if_splits)
  have d1: "skeleton d1 = skeleton d" using same by (simp add: skeleton_def)
  have d2: "skeleton (set_session d1 i (?s\<lparr>has_last_proximity_state := b, last_in_proximity_range := b',
      ranging_count := n, ranging_stream_remaining := k\<rparr>)) = skeleton d" for b b' n k
    using d1 same by (subst skeleton_update) (simp_all add: skeleton_of_def)
  show ?thesis
    using live step stop [OF refl] stop [OF d2] moves_skeleton [OF moves_refl d1]
      moves_skeleton [OF moves_refl d2]
    by (simp add: uci_sim_device_emit_ranging_stream_def Let_def)
qed

lemma skeleton_progress:
  "skeleton (snd (uci_sim_device_progress_data_transfer d i)) = skeleton d"
proof -
  have keep: "skeleton (set_session d i ((sessions d ! i)\<lparr>data_transfer_tx_count := x,
      data_transfer_repetitions_remaining := y\<rparr>)) = skeleton d"
    "skeleton (set_session d i ((sessions d ! i)\<lparr>data_transfer_tx_count := x,
      data_transfer_in_progress := b\<rparr>)) = skeleton d" for x y b
    by (rule skeleton_update; simp add: skeleton_of_def)+
  have "skeleton d1 = skeleton d2" if "sessions d1 = sessions d2" for d1 d2
    using that by (simp add: skeleton_def)
  from this [OF sessions_queue(2)] this [OF sessions_queue(3)] keep show ?thesis
    by (simp add: uci_sim_device_progress_data_transfer_def Let_def split_def)
qed

lemma flush_sessions [simp]: "sessions (device (flush_device_notifications e)) = sessions (device e)"
  by (simp add: flush_device_notifications_def flush_loop_eq flushed_def Let_def)

lemma skeleton_flush [simp]: "skeleton (device (flush_device_notifications e)) = skeleton (device e)"
  by (simp add: skeleton_def)

lemma tick_moves:
  assumes inv: "engine_inv e"
  shows "moves timer_move (device e) (device (snd (uci_sim_engine_tick e t)))"
proof -
  let ?d = "uci_sim_device_tick_events (device e) t"
  have d: "device_inv ?d" using inv by (simp add: engine_inv_def tick_events_inv)
  have sk: "skeleton ?d = skeleton (device e)" by (simp add: skeleton_def uci_sim_device_tick_events_def)
  show ?thesis
  proof (cases "uci_sim_device_dequeue_ready_event ?d")
    case None
    then show ?thesis using moves_skeleton [OF moves_refl sk] by (simp add: uci_sim_engine_tick_def Let_def)
  next
    case (Some x)
    obtain ev d' where x: "x = (ev, d')" by (cases x)
    have d': "device_inv d'" using dequeue_ready_event_inv [OF Some [unfolded x] d] by simp
    obtain pre post where "d' = ?d\<lparr>scheduled_events := pre @ post\<rparr>"
      using dequeue_ready_event_SomeD [OF Some [unfolded x]] by metis
    then have sk': "skeleton d' = skeleton (device e)" using sk by (simp add: skeleton_def)
    have range: "moves timer_move d' (device (snd (process_range_data e1 i)))"
      if "device e1 = d'" "find_session_by_id d' sid = Some i" for e1 i sid
    proof -
      have "moves timer_move d' (snd (uci_sim_device_emit_ranging_stream d' i))"
        using moves_emit [OF d' found_session(1,2) [OF that(2) d']] .
      then have "moves timer_move d' d2" if "skeleton d2 = skeleton (snd (uci_sim_device_emit_ranging_stream d' i))" for d2
        using that by (rule moves_skeleton)
      with that(1) show ?thesis by (simp add: process_range_data_def Let_def split_def)
    qed
    have data: "skeleton (device (snd (process_data_transfer e1 i))) = skeleton d'" if "device e1 = d'" for e1 i
      using that skeleton_progress [of d' i] by (simp add: process_data_transfer_def Let_def split_def)
    have "moves timer_move d' (device (snd (uci_sim_engine_tick e t)))"
      using Some x range moves_skeleton [OF moves_refl data]
      by (simp add: uci_sim_engine_tick_def Let_def process_ready_event_def split: uci_sim_event_type.splits option.splits)
    moreover have "session_view d' = session_view (device e)" using sk' by (rule session_view_cong)
    ultimately show ?thesis by (simp add: moves_def)
  qed
qed

subsection \<open>Runs\<close>

text \<open>What a host does to an engine, as steps of the machine.\<close>

lemma submit_moves:
  assumes inv: "engine_inv e"
  shows "call_step (Submit request) (session_view (device e))
    (session_view (device (snd (uci_sim_engine_submit_packet e request))))"
proof -
  obtain c1 d r where hp: "uci_sim_device_handle_packet (device e) request = (c1, d, r)"
    by (cases "uci_sim_device_handle_packet (device e) request") auto
  have dinv: "device_inv (device e)" using inv by (simp add: engine_inv_def)
  have m1: "(command_move request)\<^sup>=\<^sup>= (session_view (device e)) (session_view d)"
    using packet_moves [OF dinv, of request] hp by (simp add: moves_def)
  note hpr = handle_packet_result [OF dinv hp]
  have e1: "engine_inv (e\<lparr>device := d\<rparr>)" using inv hpr(1) by (rule engine_inv_device)
  obtain c2 e2 where q2: "queue_present (e\<lparr>device := d\<rparr>) (response r) = (c2, e2)"
    by (cases "queue_present (e\<lparr>device := d\<rparr>) (response r)")
  have e2: "engine_inv e2" using queue_present_inv [OF e1 _ q2] hpr(3) by simp
  obtain c3 e3 where q3: "queue_present e2 (notification r) = (c3, e3)"
    by (cases "queue_present e2 (notification r)")
  have e3: "engine_inv e3" using queue_present_inv [OF e2 _ q3] hpr(2) by blast
  have same: "device e' = device e''" if "queue_present e'' p = (c, e')" for p c e' e''
    using that by (auto simp: queue_present_def queue_outbound_packet_def split: option.splits if_splits)
  have dev: "device e2 = d" "device e3 = d" using same [OF q2] same [OF q3] by simp_all
  let ?f = "flush_device_notifications e3"
  have "session_view (device ?f) = session_view d"
    using dev by (intro session_view_cong) simp
  moreover have "engine_inv ?f" using flush_inv [OF e3] by simp
  ultimately have m2: "timer_move\<^sup>=\<^sup>= (session_view d) (session_view (device (snd (uci_sim_engine_tick ?f 0))))"
    using tick_moves [of ?f 0] by (simp add: moves_def)
  show ?thesis
    using call_step.submit [OF m1 m2] call_step.submit [OF m1, of "session_view d"] dev
    by (simp add: uci_sim_engine_submit_packet_def hp q2 q3 Let_def)
qed

lemma run_moves:
  "engine_inv e \<Longrightarrow> call_steps calls (session_view (device e))
    (session_view (device (snd (host_run uci_sim_engine_submit_packet uci_sim_engine_tick
      uci_sim_engine_dequeue_outbound_packet e calls))))"
proof (induction calls arbitrary: e)
  case (Cons c calls)
  show ?case
  proof (cases c)
    case (Submit p)
    have "engine_inv (snd (uci_sim_engine_submit_packet e p))" by (rule port.submit_keeps [OF Cons.prems])
    from call_steps.a_call [OF submit_moves [OF Cons.prems] Cons.IH [OF this]] Submit show ?thesis by simp
  next
    case (Tick t)
    have "engine_inv (snd (uci_sim_engine_tick e t))" by (rule port.tick_keeps [OF Cons.prems])
    moreover have "call_step (Tick t) (session_view (device e)) (session_view (device (snd (uci_sim_engine_tick e t))))"
      using tick_moves [OF Cons.prems] by (simp add: moves_def call_step.tick)
    ultimately show ?thesis using call_steps.a_call [OF _ Cons.IH] Tick by simp
  next
    case Take
    show ?thesis
    proof (cases "uci_sim_engine_dequeue_outbound_packet e")
      case None
      with call_steps.a_call [OF call_step.take Cons.IH [OF Cons.prems]] Take show ?thesis by simp
    next
      case (Some x)
      obtain p e' where x: "x = (p, e')" by (cases x)
      have "engine_inv e'" "device e' = device e"
        using port.get_keeps [OF Cons.prems Some [unfolded x]] dequeue_outbound_device [OF Some [unfolded x]] by simp_all
      with call_steps.a_call [OF call_step.take Cons.IH, of e'] Take Some x show ?thesis by (simp add: split_def Let_def)
    qed
  qed
qed (simp add: call_steps.no_call)


subsection \<open>Properties\<close>

text \<open>
  C3. A packet refines the session state machine: seen by id and state, the sessions either stay
  as they are or one session is created in INIT, started from INIT or IDLE, stopped from ACTIVE
  or removed, or a reset removes them all.
\<close>

theorem packet_refines_machine:
  assumes "device_inv d"
  shows "case uci_sim_device_handle_packet d request of (c, d', r) \<Rightarrow>
    session_view d' = session_view d \<or> session_move (session_view d) (session_view d')"
  using packet_moves [OF assms, of request] command_move_session_move by (auto simp: moves_def split_def)

lemma packet_refines_machine_witness:
  "case uci_sim_device_handle_packet (uci_sim_device_init_with_profile (Some uci_sim_default_profile) UCI_SIM_SCENARIO_DEFAULT)
      \<lparr>mt = UCI_MT_COMMAND, pbf = 0, gid = UCI_GID_SESSION_CONFIG, oid = UCI_SESSION_INIT, payload = [1, 0, 0, 0, 0]\<rparr> of
    (c, d', r) \<Rightarrow> session_view d' = session_view (uci_sim_device_init_with_profile (Some uci_sim_default_profile) UCI_SIM_SCENARIO_DEFAULT)
      \<or> session_move (session_view (uci_sim_device_init_with_profile (Some uci_sim_default_profile) UCI_SIM_SCENARIO_DEFAULT))
          (session_view d')"
  by (rule packet_refines_machine [OF init_device_inv]) (simp add: default_profile_ok)



end
