(* ===== verification/Engine_Runs.thy ===== *)
theory Engine_Runs
  imports Engine
begin

text \<open>
  What the engine does over many ticks: a host that lets the session's interval pass again and
  again sees a data transfer through to its last notification, and a ranging stream through to
  its last sample. Each run is an induction over one tick; the bound on the outbound queue is
  the room the run needs when the host takes no packet out in between.
\<close>

fun ticks :: "nat \<Rightarrow> u32 \<Rightarrow> uci_sim_engine \<Rightarrow> uci_sim_engine" where
  "ticks 0 t e = e"
| "ticks (Suc n) t e = ticks n t (snd (uci_sim_engine_tick e t))"

lemma ticks_Suc': "ticks (Suc n) t e = snd (uci_sim_engine_tick (ticks n t e) t)"
  by (induction n arbitrary: e) simp_all

text \<open>The one event of a device is taken out when its delay has passed.\<close>

lemma tick_single_event:
  assumes "scheduled_events (device e) = [ev]" and "ev_delay_ms ev \<le> t"
  shows "uci_sim_engine_tick e t =
    process_ready_event (e\<lparr>device := (device e)\<lparr>scheduled_events := []\<rparr>\<rparr>) (ev\<lparr>ev_delay_ms := 0\<rparr>)"
proof -
  have "tick_event t ev = ev\<lparr>ev_delay_ms := 0\<rparr>"
    using assms(2) by (simp add: tick_event_def not_less)
  with assms(1) show ?thesis
    by (simp add: uci_sim_engine_tick_def uci_sim_device_tick_events_def
        uci_sim_device_dequeue_ready_event_def Let_def)
qed

lemma tick_waits:
  assumes "\<forall>ev\<in>set (scheduled_events (device e)). t < ev_delay_ms ev"
  shows "uci_sim_engine_tick e t = (RC_OK, e\<lparr>device := uci_sim_device_tick_events (device e) t\<rparr>)"
proof -
  have "\<forall>ev\<in>set (scheduled_events (uci_sim_device_tick_events (device e) t)). ev_delay_ms ev \<noteq> 0"
    using assms by (auto simp: uci_sim_device_tick_events_def tick_event_def)
  then have "uci_sim_device_dequeue_ready_event (uci_sim_device_tick_events (device e) t) = None"
    by (simp only: dequeue_ready_event_None_iff)
  then show ?thesis by (simp add: uci_sim_engine_tick_def Let_def)
qed

lemma device_inv_events:
  "device_inv d \<Longrightarrow> events_ok es \<Longrightarrow> device_inv (d\<lparr>scheduled_events := es\<rparr>)"
  by (simp add: device_inv_def)

lemma device_inv_no_pending: "device_inv d \<Longrightarrow> device_inv (d\<lparr>pending_notifications := []\<rparr>)"
  by (simp add: device_inv_def pending_ok_def)

lemma events_ok_simps [simp]: "events_ok []" "events_ok [ev] \<longleftrightarrow> ev_type ev \<noteq> UCI_SIM_EVENT_NONE"
  by (simp_all add: events_ok_def)

lemma flush_room:
  assumes "\<not> uci_sim_scenario_should_defer_notification (dev_scenario (device e))"
    and "length (outbound_packets e) + length (pending_notifications (device e)) \<le> UCI_SIM_MAX_OUTBOUND_PACKETS"
  shows "flush_device_notifications e =
    e\<lparr>device := (device e)\<lparr>pending_notifications := []\<rparr>,
      outbound_packets := outbound_packets e @ pending_notifications (device e)\<rparr>"
  using assms by (simp add: flush_device_notifications_def flush_loop_eq flushed_def Let_def)


lemma flush_nothing: "pending_notifications (device e) = [] \<Longrightarrow> flush_device_notifications e = e"
  by (simp add: flush_device_notifications_def flush_loop.simps [of e] uci_sim_device_dequeue_notification_def)


subsection \<open>Data transfers\<close>

definition data_credit_packet :: "u32 \<Rightarrow> uci_sim_packet" where
  "data_credit_packet sid =
     \<lparr>mt = UCI_MT_NOTIFICATION, pbf = UCI_PBF_COMPLETE, gid = UCI_GID_SESSION_CONTROL,
      oid = UCI_SESSION_DATA_CREDIT_NTF, payload = write_u32_le sid @ [1]\<rparr>"

definition transfer_status_packet :: "u32 \<Rightarrow> u16 \<Rightarrow> u8 \<Rightarrow> u8 \<Rightarrow> uci_sim_packet" where
  "transfer_status_packet sid sequence_number status tx_count =
     \<lparr>mt = UCI_MT_NOTIFICATION, pbf = UCI_PBF_COMPLETE, gid = UCI_GID_SESSION_CONTROL,
      oid = UCI_SESSION_DATA_TRANSFER_STATUS_NTF,
      payload = write_u32_le sid @ write_u16_le sequence_number @ [status, tx_count]\<rparr>"

text \<open>
  A transfer under way with \<open>n\<close> repetitions to go after \<open>c\<close> transmissions, its event the only
  one scheduled and due within the session's interval.
\<close>

definition transfer_live :: "uci_sim_engine \<Rightarrow> nat \<Rightarrow> u8 \<Rightarrow> u8 \<Rightarrow> bool" where
  "transfer_live e i n c \<longleftrightarrow>
     (let d = device e; s = sessions d ! i in
      device_inv d \<and> \<not> uci_sim_scenario_should_defer_notification (dev_scenario d)
      \<and> i < length (sessions d) \<and> allocated s \<and> state s = UCI_SESSION_STATE_ACTIVE
      \<and> data_transfer_in_progress s \<and> data_transfer_repetitions_remaining s = n
      \<and> data_transfer_tx_count s = c \<and> pending_notifications d = []
      \<and> (\<exists>t. t \<le> uci_sim_session_get_ranging_interval_ms s (Some (effective_profile d))
          \<and> scheduled_events d =
              [\<lparr>ev_type = UCI_SIM_EVENT_DATA_TRANSFER, ev_session_id = session_id s, ev_delay_ms = t\<rparr>]))"

lemma interval_frame:
  "configs s' = configs s \<Longrightarrow> uci_sim_session_get_ranging_interval_ms s' p = uci_sim_session_get_ranging_interval_ms s p"
  by (simp add: uci_sim_session_get_ranging_interval_ms_def uci_sim_session_get_config_def)

lemma effective_profile_frame [simp]:
  "effective_profile (set_session d i s) = effective_profile d"
  "effective_profile (d\<lparr>pending_notifications := ns\<rparr>) = effective_profile d"
  "effective_profile (d\<lparr>scheduled_events := es\<rparr>) = effective_profile d"
  "effective_profile (d\<lparr>sessions := ss\<rparr>) = effective_profile d"
  by (simp_all add: effective_profile_def)

lemma tick_transfer:
  assumes live: "transfer_live e i n c"
    and t: "t = uci_sim_session_get_ranging_interval_ms (sessions (device e) ! i) (Some (effective_profile (device e)))"
  shows "uci_sim_engine_tick e t =
    process_data_transfer (e\<lparr>device := (device e)\<lparr>scheduled_events := []\<rparr>\<rparr>) i"
proof -
  let ?d = "device e" and ?s = "sessions (device e) ! i"
  obtain t' where ev: "t' \<le> t" "scheduled_events ?d =
      [\<lparr>ev_type = UCI_SIM_EVENT_DATA_TRANSFER, ev_session_id = session_id ?s, ev_delay_ms = t'\<rparr>]"
    using live t by (auto simp: transfer_live_def Let_def)
  have "device_inv (?d\<lparr>scheduled_events := []\<rparr>)"
    using live by (intro device_inv_events) (simp_all add: transfer_live_def Let_def)
  then have "find_session_by_id (?d\<lparr>scheduled_events := []\<rparr>) (session_id ?s) = Some i"
    using live by (subst find_session_eq_Some) (simp_all add: transfer_live_def Let_def)
  with tick_single_event [OF ev(2)] ev(1) show ?thesis
    by (simp add: process_ready_event_def)
qed

lemma transfer_step:
  assumes live: "transfer_live e i n c" and n: "n \<noteq> 0"
    and room: "length (outbound_packets e) < UCI_SIM_MAX_OUTBOUND_PACKETS"
    and t: "t = uci_sim_session_get_ranging_interval_ms (sessions (device e) ! i) (Some (effective_profile (device e)))"
  defines "s \<equiv> sessions (device e) ! i"
  defines "s' \<equiv> s\<lparr>data_transfer_tx_count := c + 1, data_transfer_repetitions_remaining := n - 1\<rparr>"
  defines "e' \<equiv> e\<lparr>device := (set_session (device e) i s')\<lparr>pending_notifications := [], scheduled_events :=
        [\<lparr>ev_type = UCI_SIM_EVENT_DATA_TRANSFER, ev_session_id = session_id s, ev_delay_ms = t\<rparr>]\<rparr>,
      outbound_packets := outbound_packets e @
        [transfer_status_packet (session_id s) (data_transfer_sequence s)
           UCI_DATA_TRANSFER_STATUS_REPETITION_OK (c + 1)]\<rparr>"
  shows "uci_sim_engine_tick e t = (RC_OK, e') \<and> transfer_live e' i (n - 1) (c + 1)"
proof -
  note l = live [unfolded transfer_live_def Let_def, folded s_def]
  let ?d = "(device e)\<lparr>scheduled_events := []\<rparr>"
  let ?n = "transfer_status_packet (session_id s) (data_transfer_sequence s)
    UCI_DATA_TRANSFER_STATUS_REPETITION_OK (c + 1)"
  have prog: "uci_sim_device_progress_data_transfer ?d i =
      (RC_OK, (set_session ?d i s')\<lparr>pending_notifications := [?n]\<rparr>)"
    using l n by (simp add: uci_sim_device_progress_data_transfer_def s_def [symmetric] Let_def s'_def
        uci_sim_device_queue_data_transfer_status_notification_def uci_sim_device_queue_notification_def
        transfer_status_packet_def word_neq_0_conv)
  have int: "uci_sim_session_get_ranging_interval_ms s' (Some (effective_profile (device e))) = t"
    unfolding t s_def [symmetric] by (rule interval_frame) (simp add: s'_def)
  have fl: "flush_device_notifications (e\<lparr>device := (set_session ?d i s')\<lparr>pending_notifications := [?n]\<rparr>\<rparr>) =
      e\<lparr>device := (set_session ?d i s')\<lparr>pending_notifications := []\<rparr>,
        outbound_packets := outbound_packets e @ [?n]\<rparr>"
    using l room by (subst flush_room) simp_all
  have tick: "uci_sim_engine_tick e t = (RC_OK, e')"
    unfolding tick_transfer [OF live t] process_data_transfer_def Let_def
    using l prog fl int
    by (simp add: s_def [symmetric] s'_def e'_def uci_sim_device_schedule_event_def set_session_def)
  have "device_inv (set_session (device e) i s')"
    using l by (intro set_session_inv') (simp_all add: s_def s'_def session_ok_def)
  then have "device_inv (device e')"
    unfolding e'_def by (simp add: device_inv_events device_inv_no_pending)
  with l int show ?thesis
    using tick by (simp add: transfer_live_def Let_def e'_def s'_def)
qed

lemma transfer_step':
  assumes live: "transfer_live e i n c" and n: "n \<noteq> 0"
    and room: "length (outbound_packets e) < UCI_SIM_MAX_OUTBOUND_PACKETS"
    and t: "t = uci_sim_session_get_ranging_interval_ms (sessions (device e) ! i) (Some (effective_profile (device e)))"
  obtains e' where "uci_sim_engine_tick e t = (RC_OK, e')" and "transfer_live e' i (n - 1) (c + 1)"
    and "outbound_packets e' = outbound_packets e @ [transfer_status_packet (session_id (sessions (device e) ! i))
        (data_transfer_sequence (sessions (device e) ! i)) UCI_DATA_TRANSFER_STATUS_REPETITION_OK (c + 1)]"
    and "sessions (device e') ! i = (sessions (device e) ! i)
        \<lparr>data_transfer_tx_count := c + 1, data_transfer_repetitions_remaining := n - 1\<rparr>"
    and "effective_profile (device e') = effective_profile (device e)"
proof -
  have i: "i < length (sessions (device e))" using live by (simp add: transfer_live_def Let_def)
  note st = transfer_step [OF live n room t]
  show thesis by (rule that [OF conjunct1 [OF st] conjunct2 [OF st]]) (simp_all add: i)
qed

text \<open>The last transmission: a credit, then the status OK, and no event is left.\<close>

lemma transfer_last:
  assumes live: "transfer_live e i 0 c"
    and room: "length (outbound_packets e) + 2 \<le> UCI_SIM_MAX_OUTBOUND_PACKETS"
    and t: "t = uci_sim_session_get_ranging_interval_ms (sessions (device e) ! i) (Some (effective_profile (device e)))"
  defines "s \<equiv> sessions (device e) ! i"
  shows "\<exists>e'. uci_sim_engine_tick e t = (RC_OK, e')
    \<and> \<not> data_transfer_in_progress (sessions (device e') ! i) \<and> scheduled_events (device e') = []
    \<and> outbound_packets e' = outbound_packets e @ [data_credit_packet (session_id s),
        transfer_status_packet (session_id s) (data_transfer_sequence s) UCI_DATA_TRANSFER_STATUS_OK (c + 1)]"
proof -
  note l = live [unfolded transfer_live_def Let_def, folded s_def]
  let ?d = "(device e)\<lparr>scheduled_events := []\<rparr>"
  let ?s = "s\<lparr>data_transfer_tx_count := c + 1, data_transfer_in_progress := False\<rparr>"
  let ?ns = "[data_credit_packet (session_id s),
    transfer_status_packet (session_id s) (data_transfer_sequence s) UCI_DATA_TRANSFER_STATUS_OK (c + 1)]"
  let ?e = "e\<lparr>device := (set_session ?d i ?s)\<lparr>pending_notifications := []\<rparr>,
    outbound_packets := outbound_packets e @ ?ns\<rparr>"
  have prog: "uci_sim_device_progress_data_transfer ?d i =
      (RC_OK, (set_session ?d i ?s)\<lparr>pending_notifications := ?ns\<rparr>)"
    using l by (simp add: uci_sim_device_progress_data_transfer_def s_def [symmetric] Let_def
        uci_sim_device_queue_data_transfer_status_notification_def
        uci_sim_device_queue_data_credit_notification_def uci_sim_device_queue_notification_def
        transfer_status_packet_def data_credit_packet_def)
  have fl: "flush_device_notifications (e\<lparr>device := (set_session ?d i ?s)\<lparr>pending_notifications := ?ns\<rparr>\<rparr>) = ?e"
    using l room by (subst flush_room) simp_all
  have "uci_sim_engine_tick e t = (RC_OK, ?e)"
    unfolding tick_transfer [OF live t] process_data_transfer_def Let_def
    using l prog fl by (simp add: s_def [symmetric])
  with l show ?thesis by simp
qed

text \<open>The notifications of a transfer with \<open>n\<close> repetitions after \<open>c\<close> transmissions.\<close>

fun transfer_notifications :: "u32 \<Rightarrow> u16 \<Rightarrow> nat \<Rightarrow> u8 \<Rightarrow> uci_sim_packet list" where
  "transfer_notifications sid q 0 c =
     [data_credit_packet sid, transfer_status_packet sid q UCI_DATA_TRANSFER_STATUS_OK (c + 1)]"
| "transfer_notifications sid q (Suc n) c =
     transfer_status_packet sid q UCI_DATA_TRANSFER_STATUS_REPETITION_OK (c + 1)
     # transfer_notifications sid q n (c + 1)"

lemma length_transfer_notifications [simp]: "length (transfer_notifications sid q n c) = n + 2"
  by (induction n arbitrary: c) simp_all

lemma transfer_run:
  assumes "transfer_live e i n c"
    and "length (outbound_packets e) + unat n + 2 \<le> UCI_SIM_MAX_OUTBOUND_PACKETS"
    and "t = uci_sim_session_get_ranging_interval_ms (sessions (device e) ! i) (Some (effective_profile (device e)))"
  shows "outbound_packets (ticks (Suc (unat n)) t e) = outbound_packets e
      @ transfer_notifications (session_id (sessions (device e) ! i))
          (data_transfer_sequence (sessions (device e) ! i)) (unat n) c
    \<and> \<not> data_transfer_in_progress (sessions (device (ticks (Suc (unat n)) t e)) ! i)
    \<and> scheduled_events (device (ticks (Suc (unat n)) t e)) = []"
  using assms
proof (induction "unat n" arbitrary: n c e)
  case 0
  then have n: "n = 0" by (simp add: unat_eq_0)
  with 0 transfer_last [of e i c t] show ?case by auto
next
  case (Suc k)
  let ?s = "sessions (device e) ! i"
  have n: "n \<noteq> 0" using Suc.hyps(2) by auto
  have k: "k = unat (n - 1)" using Suc.hyps(2) n by (simp add: unat_minus_one)
  have room: "length (outbound_packets e) < UCI_SIM_MAX_OUTBOUND_PACKETS" using Suc.prems(2) by simp
  from transfer_step' [OF Suc.prems(1) n room Suc.prems(3)] obtain e' where
    e': "uci_sim_engine_tick e t = (RC_OK, e')" "transfer_live e' i (n - 1) (c + 1)"
      "outbound_packets e' = outbound_packets e @ [transfer_status_packet (session_id ?s) (data_transfer_sequence ?s)
         UCI_DATA_TRANSFER_STATUS_REPETITION_OK (c + 1)]"
      "sessions (device e') ! i = ?s\<lparr>data_transfer_tx_count := c + 1, data_transfer_repetitions_remaining := n - 1\<rparr>"
      "effective_profile (device e') = effective_profile (device e)" .
  have t: "t = uci_sim_session_get_ranging_interval_ms (sessions (device e') ! i) (Some (effective_profile (device e')))"
    unfolding e'(4,5) Suc.prems(3) by (rule interval_frame [symmetric]) simp
  have len: "length (outbound_packets e') + unat (n - 1) + 2 \<le> UCI_SIM_MAX_OUTBOUND_PACKETS"
    using Suc.prems(2) Suc.hyps(2) e'(3) k by simp
  note run = Suc.hyps(1) [OF k e'(2) len t]
  have "ticks (Suc (unat n)) t e = ticks (Suc (unat (n - 1))) t e'"
    using e'(1) Suc.hyps(2) k by simp
  with run e'(3,4) Suc.hyps(2) k show ?case by (simp flip: Suc.hyps(2))
qed

text \<open>
  A DATA message that an active, idle session takes: a well-formed send for a session whose
  last message was another one, with a repetition count and an interval that are not zero.
\<close>

definition data_message :: "uci_sim_packet \<Rightarrow> bool" where
  "data_message request \<longleftrightarrow>
     mt request = UCI_MT_DATA \<and> gid request = UCI_DATA_PACKET_FORMAT_SEND \<and> oid request = 0
     \<and> 16 \<le> payload_len request
     \<and> 16 + unat (read_u16_le (drop 14 (payload request))) \<le> payload_len request"

definition takes_data :: "uci_sim_device \<Rightarrow> nat \<Rightarrow> uci_sim_packet \<Rightarrow> bool" where
  "takes_data d i request \<longleftrightarrow>
     (let s = sessions d ! i in
      i < length (sessions d) \<and> allocated s \<and> session_id s = read_u32_le (payload request)
      \<and> state s = UCI_SESSION_STATE_ACTIVE \<and> \<not> data_transfer_in_progress s
      \<and> \<not> (has_last_data_message s \<and> last_data_sequence s = read_u16_le (drop 12 (payload request))
            \<and> last_data_length s = read_u16_le (drop 14 (payload request)))
      \<and> uci_sim_session_get_data_repetition_count s \<noteq> 0
      \<and> uci_sim_session_get_ranging_interval_ms s (Some (effective_profile d)) \<noteq> 0)"

definition engine_idle :: "uci_sim_engine \<Rightarrow> bool" where
  "engine_idle e \<longleftrightarrow> device_inv (device e)
     \<and> \<not> uci_sim_scenario_should_defer_notification (dev_scenario (device e))
     \<and> scheduled_events (device e) = [] \<and> pending_notifications (device e) = []"

definition begun :: "uci_sim_session \<Rightarrow> uci_sim_packet \<Rightarrow> uci_sim_session" where
  "begun s request = s\<lparr>last_data_sequence := read_u16_le (drop 12 (payload request)),
     last_data_length := read_u16_le (drop 14 (payload request)), has_last_data_message := True,
     data_transfer_in_progress := True,
     data_transfer_repetitions_remaining := uci_sim_session_get_data_repetition_count s,
     data_transfer_tx_count := 0, data_transfer_sequence := read_u16_le (drop 12 (payload request))\<rparr>"

lemma submit_data:
  assumes idle: "engine_idle e" and msg: "data_message request" and s: "takes_data (device e) i request"
  defines "d \<equiv> device e"
  defines "t \<equiv> uci_sim_session_get_ranging_interval_ms (sessions d ! i) (Some (effective_profile d))"
  defines "e' \<equiv> e\<lparr>device := (set_session d i (begun (sessions d ! i) request))\<lparr>scheduled_events :=
     [\<lparr>ev_type = UCI_SIM_EVENT_DATA_TRANSFER, ev_session_id = session_id (sessions d ! i), ev_delay_ms = t\<rparr>]\<rparr>\<rparr>"
  shows "uci_sim_engine_submit_packet e request = (RC_OK, e')"
proof -
  let ?s = "begun (sessions d ! i) request"
  note tk = s [unfolded takes_data_def Let_def, folded d_def t_def]
  note id = idle [unfolded engine_idle_def, folded d_def]
  have found: "find_session_by_id d (read_u32_le (payload request)) = Some i"
    using id tk by (subst find_session_eq_Some) simp_all
  have int: "uci_sim_session_get_ranging_interval_ms ?s p = uci_sim_session_get_ranging_interval_ms (sessions d ! i) p" for p
    by (rule interval_frame) (simp add: begun_def)
  have start: "start_data_transfer (set_session d i ((sessions d ! i)\<lparr>last_data_sequence := read_u16_le (drop 12 (payload request)),
      last_data_length := read_u16_le (drop 14 (payload request)), has_last_data_message := True\<rparr>)) i
      (read_u32_le (payload request)) (read_u16_le (drop 12 (payload request)))
      (uci_sim_session_get_data_repetition_count (sessions d ! i)) = (RC_OK, device e')"
    using tk id int [unfolded begun_def]
    by (simp add: start_data_transfer_def Let_def uci_sim_device_schedule_event_def e'_def begun_def
        set_session_def t_def)
  have "handle_data_message_send d request init_result = (RC_OK, device e', init_result)"
    using msg tk found start by (auto simp: handle_data_message_send_def data_message_def Let_def)
  then have hp: "uci_sim_device_handle_packet d request = (RC_OK, device e', init_result)"
    using msg id
    by (simp add: uci_sim_device_handle_packet_def data_message_def Let_def
        uci_sim_device_finalize_result_def uci_sim_device_dequeue_notification_def e'_def)
  have e': "e\<lparr>device := device e'\<rparr> = e'" by (simp add: e'_def)
  have fl: "flush_device_notifications e' = e'"
    using id flush_nothing [of e'] by (simp add: e'_def)
  have "0 < t" using tk by (simp add: t_def word_neq_0_conv)
  then have "uci_sim_engine_tick e' 0 = (RC_OK, e')"
    by (subst tick_waits) (simp_all add: e'_def uci_sim_device_tick_events_def tick_event_def)
  with hp e' fl show ?thesis
    by (simp add: uci_sim_engine_submit_packet_def d_def [symmetric] queue_present_def init_result_def)
qed

lemma transfer_live_begun:
  assumes idle: "engine_idle e" and s: "takes_data (device e) i request"
    and out: "uci_sim_engine_submit_packet e request = (RC_OK, e')" and msg: "data_message request"
  shows "transfer_live e' i (uci_sim_session_get_data_repetition_count (sessions (device e) ! i)) 0
    \<and> outbound_packets e' = outbound_packets e
    \<and> sessions (device e') ! i = begun (sessions (device e) ! i) request
    \<and> effective_profile (device e') = effective_profile (device e)"
proof -
  let ?d = "device e"
  let ?s = "begun (sessions ?d ! i) request"
  note tk = s [unfolded takes_data_def Let_def]
  note id = idle [unfolded engine_idle_def]
  have int: "uci_sim_session_get_ranging_interval_ms ?s p = uci_sim_session_get_ranging_interval_ms (sessions ?d ! i) p" for p
    by (rule interval_frame) (simp add: begun_def)
  have b: "session_id ?s = session_id (sessions ?d ! i)" "allocated ?s = allocated (sessions ?d ! i)"
      "state ?s = state (sessions ?d ! i)" "data_transfer_in_progress ?s" "data_transfer_tx_count ?s = 0"
      "data_transfer_repetitions_remaining ?s = uci_sim_session_get_data_repetition_count (sessions ?d ! i)"
    by (simp_all add: begun_def)
  have "device_inv (set_session ?d i ?s)"
    using id tk by (intro set_session_inv') (simp_all add: begun_def session_ok_def)
  moreover have "e' = e\<lparr>device := (set_session ?d i ?s)\<lparr>scheduled_events :=
     [\<lparr>ev_type = UCI_SIM_EVENT_DATA_TRANSFER, ev_session_id = session_id (sessions ?d ! i), ev_delay_ms =
       uci_sim_session_get_ranging_interval_ms (sessions ?d ! i) (Some (effective_profile ?d))\<rparr>]\<rparr>\<rparr>"
    using submit_data [OF idle msg s] out by simp
  ultimately show ?thesis
    using id tk b int by (simp add: transfer_live_def Let_def device_inv_events)
qed

subsection \<open>Ranging streams\<close>

text \<open>
  The session's maximum is \<open>n\<close> samples away, and the burst has at least as many left.
\<close>

definition samples_left :: "uci_sim_session \<Rightarrow> nat \<Rightarrow> bool" where
  "samples_left s n \<longleftrightarrow>
     0 < n \<and> unat (ranging_count s) + n = unat (uci_sim_session_get_max_number_of_measurements s)
     \<and> n \<le> unat (ranging_stream_remaining s)"

lemma start_valid_frame:
  assumes "configs s' = configs s"
  shows "start_valid p s' = start_valid p s"
proof -
  have "uci_sim_session_get_config s' = uci_sim_session_get_config s"
    using assms by (simp add: fun_eq_iff uci_sim_session_get_config_def)
  then show ?thesis
    by (simp add: start_valid_def uci_sim_session_get_ranging_interval_ms_def
        uci_sim_session_get_result_report_config_def uci_sim_session_get_aoa_result_req_def
        uci_sim_session_get_rssi_reporting_def uci_sim_session_get_ranging_round_usage_def)
qed

lemma max_measurements_frame:
  "configs s' = configs s \<Longrightarrow> uci_sim_session_get_max_number_of_measurements s' = uci_sim_session_get_max_number_of_measurements s"
  by (simp add: uci_sim_session_get_max_number_of_measurements_def uci_sim_session_get_config_def)

lemma maximum_value: "unat (ucast (m :: u16) :: u32) = unat m" "unat m < 2 ^ 16"
  using unsigned_less [of m, where 'a = nat] by (simp_all add: unsigned_ucast_eq take_bit_nat_eq_self)

lemma count_up:
  assumes "unat (ranging_count s) < unat (m :: u16)"
  shows "unat (ranging_count s + 1) = Suc (unat (ranging_count s))"
proof -
  have "unat (ranging_count s) + 1 < 2 ^ 32" using assms maximum_value(2) [of m] by simp
  then show ?thesis by (subst unat_add_lem [THEN iffD1]) simp_all
qed

lemma samples_left_last:
  assumes "samples_left s 1"
  shows "uci_sim_session_get_max_number_of_measurements s \<noteq> 0"
    and "ranging_count s + 1 = ucast (uci_sim_session_get_max_number_of_measurements s)"
proof -
  let ?m = "uci_sim_session_get_max_number_of_measurements s"
  have lt: "unat (ranging_count s) < unat ?m" using assms by (simp add: samples_left_def)
  then show "?m \<noteq> 0" by auto
  show "ranging_count s + 1 = ucast ?m"
    using assms count_up [OF lt] by (simp add: samples_left_def word_unat_eq_iff maximum_value)
qed

lemma samples_left_step:
  assumes "samples_left s (Suc n)" and "0 < n"
  shows "limit_allows s" and "samples_left (counted p s) n" and "0 < ranging_stream_remaining (counted p s)"
proof -
  let ?m = "uci_sim_session_get_max_number_of_measurements s"
  have lt: "unat (ranging_count s) < unat ?m" using assms by (simp add: samples_left_def)
  note up = count_up [OF lt]
  show "limit_allows s"
    using assms up by (simp add: limit_allows_def Let_def word_less_nat_alt maximum_value samples_left_def)
  have rem: "unat (ranging_stream_remaining s - 1) = unat (ranging_stream_remaining s) - 1"
    using assms by (intro unat_minus_one) (auto simp: samples_left_def)
  with assms up show "samples_left (counted p s) n"
    by (auto simp: samples_left_def max_measurements_frame [of "counted p s" s])
  show "0 < ranging_stream_remaining (counted p s)"
    using assms rem by (auto simp: word_less_nat_alt samples_left_def)
qed

text \<open>
  A stream \<open>n\<close> samples before its maximum, its event the only one scheduled and due within the
  session's interval.
\<close>

definition stream_due :: "uci_sim_engine \<Rightarrow> nat \<Rightarrow> nat \<Rightarrow> bool" where
  "stream_due e i n \<longleftrightarrow>
     (let d = device e; s = sessions d ! i in
      device_inv d \<and> dev_scenario d = UCI_SIM_SCENARIO_RANGING_STREAM
      \<and> i < length (sessions d) \<and> allocated s \<and> state s = UCI_SESSION_STATE_ACTIVE
      \<and> samples_left s n \<and> pending_notifications d = []
      \<and> (\<exists>t. t \<le> uci_sim_session_get_ranging_interval_ms s (Some (effective_profile d))
          \<and> scheduled_events d =
              [\<lparr>ev_type = UCI_SIM_EVENT_RANGE_DATA, ev_session_id = session_id s, ev_delay_ms = t\<rparr>]))"

lemma tick_stream:
  assumes due: "stream_due e i n"
    and t: "t = uci_sim_session_get_ranging_interval_ms (sessions (device e) ! i) (Some (effective_profile (device e)))"
  shows "uci_sim_engine_tick e t =
    process_range_data (e\<lparr>device := (device e)\<lparr>scheduled_events := []\<rparr>\<rparr>) i"
proof -
  let ?d = "device e" and ?s = "sessions (device e) ! i"
  obtain t' where ev: "t' \<le> t" "scheduled_events ?d =
      [\<lparr>ev_type = UCI_SIM_EVENT_RANGE_DATA, ev_session_id = session_id ?s, ev_delay_ms = t'\<rparr>]"
    using due t by (auto simp: stream_due_def Let_def)
  have "device_inv (?d\<lparr>scheduled_events := []\<rparr>)"
    using due by (intro device_inv_events) (simp_all add: stream_due_def Let_def)
  then have "find_session_by_id (?d\<lparr>scheduled_events := []\<rparr>) (session_id ?s) = Some i"
    using due by (subst find_session_eq_Some) (simp_all add: stream_due_def Let_def)
  with tick_single_event [OF ev(2)] ev(1) show ?thesis
    by (simp add: process_ready_event_def)
qed

lemma process_range_data_step:
  assumes "uci_sim_device_emit_ranging_stream d i = (RC_OK, d1)"
    and "flush_device_notifications (e\<lparr>device := d1\<rparr>) = e1"
  shows "process_range_data (e\<lparr>device := d\<rparr>) i =
    (let s = sessions (device e1) ! i
     in if ranging_stream_remaining s > 0 \<and> state s = UCI_SESSION_STATE_ACTIVE then
          let (c', d') = uci_sim_device_schedule_event (device e1) UCI_SIM_EVENT_RANGE_DATA (session_id s)
                (uci_sim_session_get_ranging_interval_ms s (Some (effective_profile (device e1))))
          in (c', e1\<lparr>device := d'\<rparr>)
        else (RC_OK, e1))"
  using assms by (simp add: process_range_data_def Let_def)

lemma stream_due_live:
  assumes "stream_due e i n"
  shows "device_inv ((device e)\<lparr>scheduled_events := []\<rparr>)" "stream_live ((device e)\<lparr>scheduled_events := []\<rparr>) i"
  using assms by (auto simp: stream_due_def Let_def device_inv_events stream_live_def samples_left_def)

text \<open>
  One sample before the maximum: it is counted, its notification (if any) leaves through the
  outbound queue, and the next event is scheduled.
\<close>

lemma stream_tick:
  assumes due: "stream_due e i (Suc n)" and n: "0 < n"
    and room: "length (outbound_packets e) < UCI_SIM_MAX_OUTBOUND_PACKETS"
    and t: "t = uci_sim_session_get_ranging_interval_ms (sessions (device e) ! i) (Some (effective_profile (device e)))"
  defines "s \<equiv> sessions (device e) ! i" and "p \<equiv> effective_profile (device e)"
    and "q \<equiv> next_ranging_sequence (device e)"
  obtains e' where "uci_sim_engine_tick e t = (RC_OK, e')" and "stream_due e' i n"
    and "outbound_packets e' = outbound_packets e @ sample_ntf p q s"
    and "sessions (device e') ! i = counted p s"
    and "next_ranging_sequence (device e') = q + of_nat (length (sample_ntf p q s))"
    and "effective_profile (device e') = p"
proof -
  note u = due [unfolded stream_due_def Let_def, folded s_def]
  let ?d = "(device e)\<lparr>scheduled_events := []\<rparr>"
  let ?d1 = "set_session (reported_device ?d s) i (counted p s)"
  have p: "effective_profile ?d = p" by (simp add: p_def)
  note live = stream_due_live [OF due]
  have left: "samples_left s (Suc n)" using u by simp
  have emit: "uci_sim_device_emit_ranging_stream ?d i = (RC_OK, ?d1)"
    using emit_stream_step [OF live] samples_left_step(1) [OF left n] u by (simp add: s_def p [symmetric])
  have inv: "device_inv ?d1"
    using emit_ranging_stream_inv [OF live(1), of i] u emit by (simp add: s_def)
  have len: "length (sample_ntf p q s) \<le> 1"
    using u by (simp add: length_sample_ntf p_def effective_profile_ok)
  let ?e1 = "e\<lparr>device := ?d1\<lparr>pending_notifications := []\<rparr>, outbound_packets := outbound_packets e @ sample_ntf p q s\<rparr>"
  have fl: "flush_device_notifications (e\<lparr>device := ?d1\<rparr>) = ?e1"
    using room len u by (subst flush_room) (simp_all add: uci_sim_scenario_should_defer_notification_def p_def q_def)
  have int: "uci_sim_session_get_ranging_interval_ms (counted p s) (Some p) = t"
    unfolding t s_def [symmetric] p_def [symmetric] by (rule interval_frame) simp
  let ?e2 = "?e1\<lparr>device := ?d1\<lparr>pending_notifications := [], scheduled_events :=
      [\<lparr>ev_type = UCI_SIM_EVENT_RANGE_DATA, ev_session_id = session_id s, ev_delay_ms = t\<rparr>]\<rparr>\<rparr>"
  have i: "i < length (sessions (device e))" "state s = UCI_SESSION_STATE_ACTIVE" using u by simp_all
  have eff: "effective_profile (?d1\<lparr>pending_notifications := []\<rparr>) = p" by (simp add: p_def)
  have tick: "uci_sim_engine_tick e t = (RC_OK, ?e2)"
    unfolding tick_stream [OF due t] process_range_data_step [OF emit fl] Let_def
    using i samples_left_step(3) [OF left n, of p] int eff
    by (simp add: uci_sim_device_schedule_event_def)
  have "stream_due ?e2 i n"
    using u inv int samples_left_step(2) [OF left n, of p] eff
    by (simp add: stream_due_def Let_def device_inv_events device_inv_no_pending p_def)
  with tick i show thesis by (intro that [of ?e2]) (simp_all add: p_def q_def set_session_def)
qed

text \<open>The sample that reaches it: the status IDLE follows, and no event is left.\<close>

lemma stream_last:
  assumes due: "stream_due e i 1"
    and room: "length (outbound_packets e) + 2 \<le> UCI_SIM_MAX_OUTBOUND_PACKETS"
    and t: "t = uci_sim_session_get_ranging_interval_ms (sessions (device e) ! i) (Some (effective_profile (device e)))"
  defines "s \<equiv> sessions (device e) ! i" and "p \<equiv> effective_profile (device e)"
    and "q \<equiv> next_ranging_sequence (device e)"
  obtains e' where "uci_sim_engine_tick e t = (RC_OK, e')"
    and "outbound_packets e' = outbound_packets e @ sample_ntf p q s @ [maximum_reached_ntf (session_id s)]"
    and "sessions (device e') ! i = (counted p s)\<lparr>state := UCI_SESSION_STATE_IDLE, ranging_stream_remaining := 0\<rparr>"
    and "scheduled_events (device e') = []"
proof -
  note u = due [unfolded stream_due_def Let_def, folded s_def]
  let ?d = "(device e)\<lparr>scheduled_events := []\<rparr>"
  let ?ns = "sample_ntf p q s @ [maximum_reached_ntf (session_id s)]"
  let ?d1 = "(set_session (reported_device ?d s) i ((counted p s)\<lparr>state := UCI_SESSION_STATE_IDLE,
      ranging_stream_remaining := 0\<rparr>))\<lparr>scheduled_events := [], pending_notifications := ?ns\<rparr>"
  note live = stream_due_live [OF due]
  have left: "samples_left s 1" using u by simp
  have emit: "uci_sim_device_emit_ranging_stream ?d i = (RC_OK, ?d1)"
    using emit_stream_last [OF live refl] samples_left_last [OF left] u by (simp add: s_def p_def q_def)
  have len: "length (sample_ntf p q s) \<le> 1"
    using u by (simp add: length_sample_ntf p_def effective_profile_ok)
  let ?e1 = "e\<lparr>device := ?d1\<lparr>pending_notifications := []\<rparr>, outbound_packets := outbound_packets e @ ?ns\<rparr>"
  have fl: "flush_device_notifications (e\<lparr>device := ?d1\<rparr>) = ?e1"
    using room len u by (subst flush_room) (simp_all add: uci_sim_scenario_should_defer_notification_def)
  have i: "i < length (sessions (device e))" using u by simp
  have "uci_sim_engine_tick e t = (RC_OK, ?e1)"
    unfolding tick_stream [OF due t] process_range_data_step [OF emit fl] Let_def
    using i by simp
  with i show thesis by (intro that [of ?e1]) simp_all
qed

lemma stream_run:
  assumes "stream_due e i n" and "length (outbound_packets e) + n + 1 \<le> UCI_SIM_MAX_OUTBOUND_PACKETS"
    and "t = uci_sim_session_get_ranging_interval_ms (sessions (device e) ! i) (Some (effective_profile (device e)))"
  shows "outbound_packets (ticks n t e) = outbound_packets e
      @ sample_ntfs (effective_profile (device e)) (next_ranging_sequence (device e)) (sessions (device e) ! i) n
      @ [maximum_reached_ntf (session_id (sessions (device e) ! i))]
    \<and> state (sessions (device (ticks n t e)) ! i) = UCI_SESSION_STATE_IDLE
    \<and> ranging_count (sessions (device (ticks n t e)) ! i)
        = ucast (uci_sim_session_get_max_number_of_measurements (sessions (device e) ! i))
    \<and> scheduled_events (device (ticks n t e)) = []"
  using assms
proof (induction n arbitrary: e)
  case 0
  then show ?case by (simp add: stream_due_def Let_def samples_left_def)
next
  case (Suc n)
  let ?s = "sessions (device e) ! i" and ?p = "effective_profile (device e)"
  show ?case
  proof (cases "n = 0")
    case True
    then have due: "stream_due e i 1" and room: "length (outbound_packets e) + 2 \<le> UCI_SIM_MAX_OUTBOUND_PACKETS"
      using Suc.prems by simp_all
    have "samples_left ?s 1" using due by (simp add: stream_due_def Let_def)
    with stream_last [OF due room Suc.prems(3)] samples_left_last(2) True show ?thesis by fastforce
  next
    case False
    have room: "length (outbound_packets e) < UCI_SIM_MAX_OUTBOUND_PACKETS" and n: "0 < n"
      using Suc.prems(2) False by simp_all
    from stream_tick [OF Suc.prems(1) n room Suc.prems(3)] obtain e' where e':
      "uci_sim_engine_tick e t = (RC_OK, e')" "stream_due e' i n"
      "outbound_packets e' = outbound_packets e @ sample_ntf ?p (next_ranging_sequence (device e)) ?s"
      "sessions (device e') ! i = counted ?p ?s"
      "next_ranging_sequence (device e') = next_ranging_sequence (device e)
         + of_nat (length (sample_ntf ?p (next_ranging_sequence (device e)) ?s))"
      "effective_profile (device e') = ?p" .
    have "device_inv (device e)" using Suc.prems(1) by (simp add: stream_due_def Let_def)
    then have "length (sample_ntf ?p (next_ranging_sequence (device e)) ?s) \<le> 1"
      by (simp add: length_sample_ntf effective_profile_ok)
    then have room': "length (outbound_packets e') + n + 1 \<le> UCI_SIM_MAX_OUTBOUND_PACKETS"
      using Suc.prems(2) e'(3) by simp
    have t: "t = uci_sim_session_get_ranging_interval_ms (sessions (device e') ! i) (Some (effective_profile (device e')))"
      unfolding e'(4,6) Suc.prems(3) by (rule interval_frame [symmetric]) simp
    from Suc.IH [OF e'(2) room' t] show ?thesis
      unfolding e'(3-6) by (simp add: e'(1) Let_def max_measurements_frame [of "counted ?p ?s" ?s])
  qed
qed

subsection \<open>From START to the last sample\<close>

text \<open>
  A START that is accepted in the streaming scenario: a session in INIT or IDLE whose
  parameters are valid, on an engine with nothing scheduled or pending.
\<close>

definition start_request :: "uci_sim_packet \<Rightarrow> bool" where
  "start_request request \<longleftrightarrow>
     mt request = UCI_MT_COMMAND \<and> gid request = UCI_GID_SESSION_CONTROL
     \<and> oid request = UCI_SESSION_START \<and> 4 \<le> payload_len request"

definition startable :: "uci_sim_device \<Rightarrow> nat \<Rightarrow> uci_sim_packet \<Rightarrow> bool" where
  "startable d i request \<longleftrightarrow>
     (let s = sessions d ! i; p = effective_profile d in
      i < length (sessions d) \<and> allocated s \<and> session_id s = read_u32_le (payload request)
      \<and> uci_sim_profile_supports_command (dev_profile d) UCI_GID_SESSION_CONTROL UCI_SESSION_START
      \<and> uci_sim_profile_get_session_transition (dev_profile d) UCI_SESSION_START \<noteq> None
      \<and> (state s = UCI_SESSION_STATE_INIT \<or> state s = UCI_SESSION_STATE_IDLE) \<and> start_valid p s
      \<and> uci_sim_session_get_ranging_interval_ms s (Some p) \<noteq> 0)"

text \<open>The session the START leaves, its burst ahead of it, and the two packets it is answered with.\<close>

definition started :: "uci_sim_profile \<Rightarrow> uci_sim_session \<Rightarrow> uci_sim_session" where
  "started p s = s\<lparr>has_last_proximity_state := False, last_in_proximity_range := False,
     state := UCI_SESSION_STATE_ACTIVE, ranging_stream_remaining := ranging_stream_burst_count p\<rparr>"

definition start_answers :: "uci_sim_profile \<Rightarrow> u32 \<Rightarrow> uci_sim_packet list" where
  "start_answers p sid =
     [\<lparr>mt = UCI_MT_RESPONSE, pbf = UCI_PBF_COMPLETE, gid = UCI_GID_SESSION_CONTROL, oid = UCI_SESSION_START,
       payload = [UCI_STATUS_OK]\<rparr>,
      \<lparr>mt = UCI_MT_NOTIFICATION, pbf = UCI_PBF_COMPLETE, gid = UCI_GID_SESSION_CONFIG, oid = UCI_SESSION_STATUS_NTF,
       payload = write_u32_le sid @ [UCI_SESSION_STATE_ACTIVE, session_status_reason_code p]\<rparr>]"

lemma submit_start:
  assumes idle: "engine_idle e" and sc: "dev_scenario (device e) = UCI_SIM_SCENARIO_RANGING_STREAM"
    and req: "start_request request" and startable: "startable (device e) i request"
    and room: "length (outbound_packets e) + 2 \<le> UCI_SIM_MAX_OUTBOUND_PACKETS"
    and left: "samples_left (started (effective_profile (device e)) (sessions (device e) ! i)) n"
  defines "s \<equiv> sessions (device e) ! i" and "p \<equiv> effective_profile (device e)"
  obtains e' where "uci_sim_engine_submit_packet e request = (RC_OK, e')" and "stream_due e' i n"
    and "outbound_packets e' = outbound_packets e @ start_answers p (session_id s)"
    and "sessions (device e') ! i = started p s" and "effective_profile (device e') = p"
    and "next_ranging_sequence (device e') = next_ranging_sequence (device e)"
proof -
  define k where "k = ranging_stream_burst_count (effective_profile (device e))"
  let ?d = "device e"
  let ?s = "sessions ?d ! i"
  let ?p = "effective_profile ?d"
  let ?sid = "read_u32_le (payload request)"
  note st = startable [unfolded startable_def Let_def]
  note id = idle [unfolded engine_idle_def]
  have found: "find_session_by_id ?d ?sid = Some i"
    using id st by (subst find_session_eq_Some) simp_all
  obtain t where t: "uci_sim_profile_get_session_transition (dev_profile ?d) UCI_SESSION_START = Some t" using st by blast
  from transition_found [OF t] id have tok: "tr_oid t = UCI_SESSION_START" "transition_ok t" by simp_all
  then have nxt: "tr_next_state t = UCI_SESSION_STATE_ACTIVE" and mask: "tr_allowed_states_mask t = 0x09"
    by (auto simp: transition_ok_def)
  have allowed: "state_allowed t (state ?s)" using st mask by (auto simp: state_allowed_def)
  obtain u where valid: "uci_sim_validate_session_start (Some ?p) ?s = Inr u"
    using st session_start_ok by blast
  let ?s2 = "?s\<lparr>has_last_proximity_state := False, last_in_proximity_range := False,
      state := UCI_SESSION_STATE_ACTIVE, ranging_stream_remaining := k\<rparr>"
  let ?t = "uci_sim_session_get_ranging_interval_ms ?s (Some ?p)"
  have int: "uci_sim_session_get_ranging_interval_ms ?s2 q = uci_sim_session_get_ranging_interval_ms ?s q" for q
    by (rule interval_frame) simp
  have s2: "?s2 = started ?p ?s" by (simp add: started_def k_def)
  have k: "k \<noteq> 0" using left by (auto simp: samples_left_def started_def k_def)
  let ?r = "make_status_response request init_result UCI_STATUS_OK"
  let ?n = "\<lparr>mt = UCI_MT_NOTIFICATION, pbf = UCI_PBF_COMPLETE, gid = UCI_GID_SESSION_CONFIG,
      oid = UCI_SESSION_STATUS_NTF,
      payload = write_u32_le ?sid @ [UCI_SESSION_STATE_ACTIVE, session_status_reason_code ?p]\<rparr>"
  let ?d' = "(set_session ?d i ?s2)\<lparr>scheduled_events :=
      [\<lparr>ev_type = UCI_SIM_EVENT_RANGE_DATA, ev_session_id = session_id ?s, ev_delay_ms = ?t\<rparr>]\<rparr>"
  let ?e' = "e\<lparr>device := ?d', outbound_packets := outbound_packets e
      @ [\<lparr>mt = UCI_MT_RESPONSE, pbf = UCI_PBF_COMPLETE, gid = gid request, oid = oid request,
          payload = [UCI_STATUS_OK]\<rparr>, ?n]\<rparr>"
  have emit: "emit_session_status_ntf d1 ?sid st' ?r = (d1, ?r\<lparr>notification := Some
      \<lparr>mt = UCI_MT_NOTIFICATION, pbf = UCI_PBF_COMPLETE, gid = UCI_GID_SESSION_CONFIG,
       oid = UCI_SESSION_STATUS_NTF,
       payload = write_u32_le ?sid @ [st', session_status_reason_code (effective_profile d1)]\<rparr>\<rparr>)"
    if "dev_scenario d1 = UCI_SIM_SCENARIO_RANGING_STREAM" for d1 st'
    using that unfolding emit_session_status_ntf_def emit_session_status_ntf_with_reason_def
    by (subst deliver_notification_quiet) (simp_all add: uci_sim_scenario_should_defer_notification_def)
  have started: "uci_sim_scenario_on_session_started (set_session ?d i (?s\<lparr>has_last_proximity_state := False,
      last_in_proximity_range := False, state := UCI_SESSION_STATE_ACTIVE\<rparr>)) i = (RC_OK, ?d')"
    using sc st id int k
    by (simp add: uci_sim_scenario_on_session_started_def Let_def k_def uci_sim_device_schedule_event_def)
  have applied: "apply_transition i ?sid t ?d request init_result = (RC_OK, ?d', ?r\<lparr>notification := Some ?n\<rparr>)"
    using req sc started by (simp add: apply_transition_def Let_def nxt emit start_request_def)
  have dispatch: "dispatch_command ?d request init_result = (RC_OK, ?d', ?r\<lparr>notification := Some ?n\<rparr>)"
    using req st found t allowed valid applied
    by (simp add: dispatch_command_def handle_session_control_def handle_session_transition_def start_request_def Let_def)
  have hp: "uci_sim_device_handle_packet ?d request = (RC_OK, ?d', ?r\<lparr>notification := Some ?n\<rparr>)"
    using req dispatch
    by (simp add: uci_sim_device_handle_packet_def start_request_def Let_def uci_sim_device_finalize_result_def
        make_status_response_def)
  have fl: "flush_device_notifications ?e' = ?e'" using id by (intro flush_nothing) simp
  have "0 < ?t" using st by (simp add: word_neq_0_conv)
  then have tick: "uci_sim_engine_tick ?e' 0 = (RC_OK, ?e')"
    by (subst tick_waits) (simp_all add: uci_sim_device_tick_events_def tick_event_def)
  have sub: "uci_sim_engine_submit_packet e request = (RC_OK, ?e')"
    using hp room fl tick
    by (simp add: uci_sim_engine_submit_packet_def queue_present_def queue_outbound_packet_def make_status_response_def
        respond_def)
  have "device_inv (set_session ?d i ?s2)"
    using id st by (intro set_session_inv') (simp_all add: session_ok_def protocol_state_def)
  then have due: "stream_due ?e' i n"
    using sc st id int left by (simp add: stream_due_def Let_def device_inv_events s2 [symmetric])
  show thesis
    by (rule that [OF sub due])
      (use st req in \<open>simp_all add: s_def p_def s2 start_answers_def start_request_def set_session_def\<close>)
qed

subsection \<open>A device to try things on\<close>

text \<open>The default device in a scenario, with one session of id 7 just initialised.\<close>

definition boot_device :: "uci_sim_scenario_kind \<Rightarrow> uci_sim_device" where
  "boot_device scenario = uci_sim_device_init_with_profile (Some uci_sim_default_profile) scenario"

definition demo_device :: "uci_sim_scenario_kind \<Rightarrow> uci_sim_device" where
  "demo_device scenario = set_session (boot_device scenario) 0 (fresh_session (boot_device scenario) zero_session 7)"

definition demo_engine :: "uci_sim_scenario_kind \<Rightarrow> uci_sim_engine" where
  "demo_engine scenario = \<lparr>device = demo_device scenario, outbound_packets = []\<rparr>"

lemma boot_device_inv: "device_inv (boot_device sc)"
  unfolding boot_device_def by (rule init_device_inv) (simp add: default_profile_ok)

lemma boot_device_facts [simp]:
  "dev_scenario (boot_device sc) = sc" "scheduled_events (boot_device sc) = []"
  "pending_notifications (boot_device sc) = []" "dev_profile (boot_device sc) = Some uci_sim_default_profile"
  "effective_profile (boot_device sc) = uci_sim_default_profile"
  "sessions (boot_device sc) = replicate UCI_SIM_MAX_SESSIONS zero_session"
  by (simp_all add: boot_device_def uci_sim_device_init_with_profile_def apply_profile_defaults_def
      zero_device_def effective_profile_def)

lemma demo_session: "sessions (demo_device sc) ! 0 = fresh_session (boot_device sc) zero_session 7"
  by (simp add: demo_device_def)

lemma demo_device_facts [simp]:
  "dev_scenario (demo_device sc) = sc" "scheduled_events (demo_device sc) = []"
  "pending_notifications (demo_device sc) = []" "dev_profile (demo_device sc) = Some uci_sim_default_profile"
  "length (sessions (demo_device sc)) = UCI_SIM_MAX_SESSIONS"
  "effective_profile (demo_device sc) = uci_sim_default_profile"
  by (simp_all add: demo_device_def)

lemma demo_device_inv [simp]: "device_inv (demo_device sc)"
proof (rule alloc_session_inv [OF _ boot_device_inv])
  show "alloc_session (boot_device sc) 7 = Some (demo_device sc, 0)"
    by (simp add: alloc_session_def find_index_replicate demo_device_def)
  show "find_session_by_id (boot_device sc) 7 = None"
    by (simp add: find_session_by_id_def find_index_replicate)
qed

lemma demo_engine_facts [simp]:
  "device (demo_engine sc) = demo_device sc" "outbound_packets (demo_engine sc) = []"
  by (simp_all add: demo_engine_def)

lemma demo_engine_idle:
  "\<not> uci_sim_scenario_should_defer_notification sc \<Longrightarrow> engine_idle (demo_engine sc)"
  by (simp add: engine_idle_def)

definition demo_start :: uci_sim_packet where
  "demo_start = \<lparr>mt = UCI_MT_COMMAND, pbf = 0, gid = UCI_GID_SESSION_CONTROL, oid = UCI_SESSION_START,
     payload = [7, 0, 0, 0]\<rparr>"

text \<open>Its parameters are the profile's defaults, here as a table that is cheap to evaluate.\<close>

definition default_table :: uci_sim_session where
  "default_table = zero_session\<lparr>configs :=
     map (\<lambda>(k, v). \<lparr>config_id = k, cfg_value = v, cfg_in_use = True\<rparr>) (default_app_configs uci_sim_default_profile)\<rparr>"

lemma default_table_config:
  "uci_sim_session_get_config default_table = map_of (default_app_configs uci_sim_default_profile)"
proof -
  have "lookup_entry (map (\<lambda>(k, v). \<lparr>config_id = k, cfg_value = v, cfg_in_use = True\<rparr>) kvs) k = map_of kvs k"
    for kvs k by (induction kvs) (auto simp: config_match_def)
  then show ?thesis by (intro ext) (simp add: default_table_def uci_sim_session_get_config_def)
qed

lemma default_app_configs_distinct: "distinct (map fst (default_app_configs uci_sim_default_profile))"
  by code_simp

lemma demo_config:
  "uci_sim_session_get_config (sessions (demo_device sc) ! 0) = map_of (default_app_configs uci_sim_default_profile)"
proof -
  have "length (default_app_configs uci_sim_default_profile) \<le> UCI_SIM_MAX_SESSION_CONFIGS" by code_simp
  then show ?thesis
    using fresh_session_defaults [OF boot_device_inv, of sc 7] map_of_rev_distinct [OF default_app_configs_distinct]
    by (simp add: demo_session)
qed

lemma fresh_session_count: "ranging_count (fresh_session d s sid) = 0"
proof -
  have "ranging_count (load_configs uci_sim_session_store_config bs s') = ranging_count s'" for bs s'
    using load_session_configs_frame [of bs s'] by auto
  then show ?thesis by (simp add: fresh_session_def Let_def)
qed

lemma demo_facts:
  "allocated (sessions (demo_device sc) ! 0)" "session_id (sessions (demo_device sc) ! 0) = 7"
  "state (sessions (demo_device sc) ! 0) = UCI_SESSION_STATE_INIT"
  "ranging_count (sessions (demo_device sc) ! 0) = 0"
  unfolding demo_session using fresh_session_facts [OF boot_device_inv, of sc 7] fresh_session_count by simp_all

text \<open>What reads a session through its parameters reads the same on the table.\<close>

lemma demo_reads:
  "uci_sim_session_get_config (sessions (demo_device sc) ! 0) = uci_sim_session_get_config default_table"
  by (simp only: demo_config default_table_config)

lemma demo_startable: "startable (demo_device UCI_SIM_SCENARIO_RANGING_STREAM) 0 demo_start"
proof -
  let ?s = "sessions (demo_device UCI_SIM_SCENARIO_RANGING_STREAM) ! 0"
  have "uci_sim_validate_session_start (Some uci_sim_default_profile) default_table = Inr ()"
    by code_simp
  then have "start_valid uci_sim_default_profile default_table" by (simp add: session_start_ok)
  then have "start_valid uci_sim_default_profile ?s"
    by (simp add: start_valid_def demo_reads uci_sim_session_get_ranging_interval_ms_def
        uci_sim_session_get_result_report_config_def uci_sim_session_get_aoa_result_req_def
        uci_sim_session_get_rssi_reporting_def uci_sim_session_get_ranging_round_usage_def)
  moreover have "uci_sim_session_get_ranging_interval_ms default_table (Some uci_sim_default_profile) = 2000"
    by code_simp
  then have "uci_sim_session_get_ranging_interval_ms ?s (Some uci_sim_default_profile) = 2000"
    by (simp add: demo_reads uci_sim_session_get_ranging_interval_ms_def)
  moreover have "uci_sim_profile_supports_command (Some uci_sim_default_profile) UCI_GID_SESSION_CONTROL UCI_SESSION_START
      \<and> uci_sim_profile_get_session_transition (Some uci_sim_default_profile) UCI_SESSION_START \<noteq> None
      \<and> read_u32_le (payload demo_start) = 7"
    by code_simp
  ultimately show ?thesis
    using demo_facts [of UCI_SIM_SCENARIO_RANGING_STREAM] by (simp add: startable_def Let_def)
qed

lemma demo_interval:
  "uci_sim_session_get_ranging_interval_ms (sessions (demo_device sc) ! 0) (Some uci_sim_default_profile) = 2000"
proof -
  have "uci_sim_session_get_ranging_interval_ms default_table (Some uci_sim_default_profile) = 2000" by code_simp
  then show ?thesis by (simp add: demo_reads uci_sim_session_get_ranging_interval_ms_def)
qed

lemma demo_burst: "ranging_stream_burst_count uci_sim_default_profile = 3"
  by code_simp

subsection \<open>Properties\<close>

text \<open>A session that was stopped three samples before its maximum of sixteen.\<close>

definition demo_late :: uci_sim_engine where
  "demo_late = \<lparr>device = set_session (demo_device UCI_SIM_SCENARIO_RANGING_STREAM) 0
     ((sessions (demo_device UCI_SIM_SCENARIO_RANGING_STREAM) ! 0)
        \<lparr>state := UCI_SESSION_STATE_IDLE, ranging_count := 13\<rparr>), outbound_packets = []\<rparr>"

text \<open>
  C8. Ranging up to the maximum, end to end. In the streaming scenario a START is accepted for a
  session with valid parameters whose MAX_NUMBER_OF_MEASUREMENTS is n samples away, within the
  profile's burst. Then the host sees, packet for packet: the response and the status ACTIVE, the
  notification of each of the n samples that its policy reports, in order and numbered without a
  gap, and the status IDLE with the reason MAX_NUMBER_OF_MEASUREMENTS_REACHED. After the n
  intervals the session is IDLE, its count is the maximum and no event is left. (A maximum of 0,
  which stands for none, never satisfies the hypothesis.)
\<close>

theorem ranging_stream_completes:
  assumes "engine_idle e" and "dev_scenario (device e) = UCI_SIM_SCENARIO_RANGING_STREAM"
    and "start_request request" and "startable (device e) i request"
    and "samples_left (started (effective_profile (device e)) (sessions (device e) ! i)) n"
    and "length (outbound_packets e) + n + 3 \<le> UCI_SIM_MAX_OUTBOUND_PACKETS"
  shows "let s = sessions (device e) ! i; p = effective_profile (device e);
      e' = ticks n (uci_sim_session_get_ranging_interval_ms s (Some p)) (snd (uci_sim_engine_submit_packet e request))
    in outbound_packets e' = outbound_packets e @ start_answers p (session_id s)
         @ sample_ntfs p (next_ranging_sequence (device e)) (started p s) n @ [maximum_reached_ntf (session_id s)]
      \<and> state (sessions (device e') ! i) = UCI_SESSION_STATE_IDLE
      \<and> ranging_count (sessions (device e') ! i) = ucast (uci_sim_session_get_max_number_of_measurements s)
      \<and> scheduled_events (device e') = []"
proof -
  let ?s = "sessions (device e) ! i" and ?p = "effective_profile (device e)"
  have "length (outbound_packets e) + 2 \<le> UCI_SIM_MAX_OUTBOUND_PACKETS" using assms(6) by simp
  from submit_start [OF assms(1-4) this assms(5)] obtain e1 where e1:
    "uci_sim_engine_submit_packet e request = (RC_OK, e1)" "stream_due e1 i n"
    "outbound_packets e1 = outbound_packets e @ start_answers ?p (session_id ?s)"
    "sessions (device e1) ! i = started ?p ?s" "effective_profile (device e1) = ?p"
    "next_ranging_sequence (device e1) = next_ranging_sequence (device e)" .
  have frame: "configs (started ?p ?s) = configs ?s" "session_id (started ?p ?s) = session_id ?s"
    by (simp_all add: started_def)
  have "length (outbound_packets e1) + n + 1 \<le> UCI_SIM_MAX_OUTBOUND_PACKETS"
    using assms(6) e1(3) by (simp add: start_answers_def)
  from stream_run [OF e1(2) this refl] show ?thesis
    unfolding e1(3-6) interval_frame [OF frame(1)] max_measurements_frame [OF frame(1)] frame(2)
    by (simp add: e1(1) Let_def)
qed

lemma ranging_stream_completes_witness:
  "let s = sessions (device demo_late) ! 0;
       e' = ticks 3 2000 (snd (uci_sim_engine_submit_packet demo_late demo_start))
   in outbound_packets e' = start_answers uci_sim_default_profile 7
        @ sample_ntfs uci_sim_default_profile (next_ranging_sequence (device demo_late))
            (started uci_sim_default_profile s) 3 @ [maximum_reached_ntf 7]
      \<and> ranging_count (sessions (device e') ! 0) = 16 \<and> state (sessions (device e') ! 0) = UCI_SESSION_STATE_IDLE"
proof -
  let ?d = "demo_device UCI_SIM_SCENARIO_RANGING_STREAM"
  let ?s = "(sessions ?d ! 0)\<lparr>state := UCI_SESSION_STATE_IDLE, ranging_count := 13\<rparr>"
  have s: "sessions (device demo_late) ! 0 = ?s" by (simp add: demo_late_def)
  have req: "start_request demo_start" by (simp add: start_request_def demo_start_def payload_len_def)
  have "device_inv (device demo_late)"
    unfolding demo_late_def uci_sim_engine.simps
    by (intro set_session_inv') (simp_all add: demo_facts session_ok_def protocol_state_def)
  then have idle: "engine_idle demo_late"
    by (simp add: engine_idle_def demo_late_def uci_sim_scenario_should_defer_notification_def)
  have prof: "effective_profile (device demo_late) = uci_sim_default_profile" by (simp add: demo_late_def)
  have "uci_sim_session_get_max_number_of_measurements default_table = 16" by code_simp
  then have "uci_sim_session_get_max_number_of_measurements (sessions ?d ! 0) = 16"
    by (simp add: demo_reads uci_sim_session_get_max_number_of_measurements_def)
  then have max: "uci_sim_session_get_max_number_of_measurements ?s = 16"
    by (simp add: max_measurements_frame [of ?s "sessions ?d ! 0"])
  have "uci_sim_session_get_max_number_of_measurements (started uci_sim_default_profile ?s)
      = uci_sim_session_get_max_number_of_measurements ?s"
    by (rule max_measurements_frame) (simp add: started_def)
  then have left: "samples_left (started uci_sim_default_profile ?s) 3"
    unfolding samples_left_def max by (simp add: started_def demo_burst)
  have int: "uci_sim_session_get_ranging_interval_ms ?s (Some uci_sim_default_profile) = 2000"
    using demo_interval [of UCI_SIM_SCENARIO_RANGING_STREAM] interval_frame [of ?s "sessions ?d ! 0"] by simp
  have valid: "start_valid p ?s = start_valid p (sessions ?d ! 0)" for p by (rule start_valid_frame) simp
  have "startable ?d 0 demo_start" by (rule demo_startable)
  then have "startable (device demo_late) 0 demo_start"
    unfolding startable_def Let_def s prof valid int by (simp add: demo_late_def)
  from ranging_stream_completes [OF idle _ req this, unfolded s prof, OF _ left] show ?thesis
    by (simp add: s Let_def int max demo_facts) (simp add: demo_late_def)
qed

text \<open>
  C9. A data transfer, end to end: a DATA message an active, idle session takes is answered over
  the following intervals with one REPETITION_OK status per repetition, numbered from 1, then a
  credit and the status OK, and the session is ready for the next message.
\<close>

theorem data_transfer_completes:
  assumes "engine_idle e" and "data_message request" and "takes_data (device e) i request"
    and "length (outbound_packets e) + unat (uci_sim_session_get_data_repetition_count (sessions (device e) ! i)) + 2
      \<le> UCI_SIM_MAX_OUTBOUND_PACKETS"
  shows "case ticks (Suc (unat (uci_sim_session_get_data_repetition_count (sessions (device e) ! i))))
      (uci_sim_session_get_ranging_interval_ms (sessions (device e) ! i) (Some (effective_profile (device e))))
      (snd (uci_sim_engine_submit_packet e request)) of
    e' \<Rightarrow> outbound_packets e' = outbound_packets e
        @ transfer_notifications (session_id (sessions (device e) ! i)) (read_u16_le (drop 12 (payload request)))
            (unat (uci_sim_session_get_data_repetition_count (sessions (device e) ! i))) 0
      \<and> \<not> data_transfer_in_progress (sessions (device e') ! i) \<and> scheduled_events (device e') = []"
proof -
  let ?s = "sessions (device e) ! i"
  obtain e1 where sub: "uci_sim_engine_submit_packet e request = (RC_OK, e1)"
    using submit_data [OF assms(1-3)] by blast
  from transfer_live_begun [OF assms(1,3) sub assms(2)]
  have e1: "transfer_live e1 i (uci_sim_session_get_data_repetition_count ?s) 0"
    "outbound_packets e1 = outbound_packets e" "sessions (device e1) ! i = begun ?s request"
    "effective_profile (device e1) = effective_profile (device e)" by simp_all
  have b: "uci_sim_session_get_ranging_interval_ms (begun ?s request) p = uci_sim_session_get_ranging_interval_ms ?s p"
      "session_id (begun ?s request) = session_id ?s"
      "data_transfer_sequence (begun ?s request) = read_u16_le (drop 12 (payload request))" for p
    by (rule interval_frame) (simp_all add: begun_def)
  show ?thesis
    using transfer_run [OF e1(1) _ refl] assms(4) sub b by (simp add: e1(2-4))
qed

definition demo_active :: uci_sim_engine where
  "demo_active =
     \<lparr>device = set_session (boot_device UCI_SIM_SCENARIO_DEFAULT) 0
        (zero_session\<lparr>allocated := True, session_id := 7, state := UCI_SESSION_STATE_ACTIVE,
           configs := \<lparr>config_id = UCI_APP_CONFIG_DATA_REPETITION_COUNT, cfg_value = [2], cfg_in_use = True\<rparr>
             # replicate 79 free_config\<rparr>),
      outbound_packets = []\<rparr>"

definition demo_data :: uci_sim_packet where
  "demo_data = \<lparr>mt = UCI_MT_DATA, pbf = 0, gid = UCI_DATA_PACKET_FORMAT_SEND, oid = 0,
     payload = [7, 0, 0, 0, 0, 0, 0, 0, 0, 0, 0, 0, 9, 0, 1, 0, 0xAB]\<rparr>"

lemma data_transfer_completes_witness:
  "case ticks 3 2000 (snd (uci_sim_engine_submit_packet demo_active demo_data)) of
    e' \<Rightarrow> outbound_packets e' = transfer_notifications 7 9 2 0
      \<and> \<not> data_transfer_in_progress (sessions (device e') ! 0) \<and> scheduled_events (device e') = []"
proof -
  let ?s = "sessions (device demo_active) ! 0"
  have s: "?s = zero_session\<lparr>allocated := True, session_id := 7, state := UCI_SESSION_STATE_ACTIVE,
       configs := \<lparr>config_id = UCI_APP_CONFIG_DATA_REPETITION_COUNT, cfg_value = [2], cfg_in_use = True\<rparr>
         # replicate 79 free_config\<rparr>"
    by (simp add: demo_active_def)
  have s_ok: "session_ok ?s"
    using zero_session_ok unfolding s
    by (simp add: session_ok_def protocol_state_def configs_ok_def entries_ok_def)
  have "sessions_ok ((sessions (boot_device UCI_SIM_SCENARIO_DEFAULT))[0 := ?s])"
    using s_ok s by (intro sessions_ok_update device_invD(1) [OF boot_device_inv]) (simp_all)
  then have "device_inv (set_session (boot_device UCI_SIM_SCENARIO_DEFAULT) 0 ?s)"
    using boot_device_inv [of UCI_SIM_SCENARIO_DEFAULT] by (simp add: device_inv_def)
  then have dinv: "device_inv (device demo_active)"
    unfolding s by (simp add: demo_active_def)
  have rep: "uci_sim_session_get_data_repetition_count ?s = 2" unfolding s by code_simp
  have prof: "effective_profile (device demo_active) = uci_sim_default_profile"
    by (simp add: demo_active_def)
  have int: "uci_sim_session_get_ranging_interval_ms ?s (Some uci_sim_default_profile) = 2000"
    unfolding s by code_simp
  have idle: "engine_idle demo_active"
    using dinv by (simp add: engine_idle_def demo_active_def uci_sim_scenario_should_defer_notification_def)
  have msg: "data_message demo_data"
    by (simp add: data_message_def demo_data_def payload_len_def read_u16_le_def)
  have reads: "read_u32_le (payload demo_data) = 7 \<and> read_u16_le (drop 12 (payload demo_data)) = 9" by code_simp
  have sid: "session_id ?s = 7" unfolding s by simp
  have empty: "outbound_packets demo_active = []" by (simp add: demo_active_def)
  have takes: "takes_data (device demo_active) 0 demo_data"
    using rep int prof reads by (simp add: takes_data_def Let_def s)
      (simp add: demo_active_def zero_session_def)
  show ?thesis
    using data_transfer_completes [OF idle msg takes]
    by (simp add: rep int prof reads sid empty del: ticks.simps)
qed

end
