(* ===== verification/Tcp_Server.thy ===== *)
theory Tcp_Server
  imports Engine
begin

text \<open>
  The TCP transport of \<open>src/transport/tcp/uci_sim_tcp_server.c\<close>. The socket is a parameter:
  what \<open>recv\<close>, \<open>send\<close>, \<open>poll\<close> and the clock return is a list of turns, one per call, in the
  order of the calls. A function that waits for a turn the list does not have gives \<open>None\<close>: it
  is blocked. A turn \<open>Interrupted b\<close> stands for \<open>EINTR\<close>, with \<open>b\<close> the value of \<open>g_shutdown\<close> the
  code reads next. The lemmas show that commands are read the same however the stream is cut
  into segments, that a flush puts exactly the frames of the outbound packets on the wire, and
  that fragments reassemble to the packet they were cut from.
\<close>

subsection \<open>Sending\<close>

datatype send_turn = Sent nat | Send_Interrupted bool | Send_Again | Send_Failed

text \<open>
  The result, the bytes the socket took and the turns left. The kernel takes at most what it is
  offered; \<open>Sent 0\<close> is an error of the code.
\<close>

fun send_all :: "bytes \<Rightarrow> send_turn list \<Rightarrow> (rc \<times> bytes \<times> send_turn list) option" where
  "send_all [] turns = Some (RC_OK, [], turns)"
| "send_all (b # wire) [] = None"
| "send_all (b # wire) (Sent n # turns) =
     (if n = 0 then Some (RC_FAIL, [], turns)
      else map_option (\<lambda>(c, out, rest). (c, take n (b # wire) @ out, rest))
             (send_all (drop n (b # wire)) turns))"
| "send_all (b # wire) (Send_Interrupted shutdown # turns) =
     (if shutdown then Some (RC_FAIL, [], turns) else send_all (b # wire) turns)"
| "send_all (b # wire) (Send_Again # turns) = send_all (b # wire) turns"
| "send_all (b # wire) (Send_Failed # turns) = Some (RC_FAIL, [], turns)"

text \<open>
  The fragments of a long control packet: 255 bytes each, the last one marked complete. \<open>rest\<close>
  is the payload from \<open>payload_offset\<close> on.
\<close>

function fragments :: "uci_sim_packet \<Rightarrow> bytes \<Rightarrow> uci_sim_packet list" where
  "fragments p rest =
     (if rest = [] then []
      else
        \<lparr>mt = mt p, pbf = (if length rest > 255 then UCI_PBF_NOT_COMPLETE else UCI_PBF_COMPLETE),
         gid = gid p, oid = oid p, payload = take 255 rest\<rparr>
        # fragments p (drop 255 rest))"
  by pat_completeness auto
termination by (relation "measure (\<lambda>(p, rest). length rest)") auto

declare fragments.simps [simp del]

definition frames :: "uci_sim_packet \<Rightarrow> uci_sim_packet list" where
  "frames p = (if mt p \<noteq> UCI_MT_DATA \<and> payload_len p > 255 then fragments p (payload p) else [p])"

text \<open>Each frame is serialized and sent before the next one is built.\<close>

fun send_frames :: "uci_sim_packet list \<Rightarrow> send_turn list \<Rightarrow> (rc \<times> bytes \<times> send_turn list) option" where
  "send_frames [] turns = Some (RC_OK, [], turns)"
| "send_frames (p # ps) turns =
     (case uci_sim_packet_serialize p UCI_SIM_MAX_PACKET of
        None \<Rightarrow> Some (RC_FAIL, [], turns)
      | Some wire \<Rightarrow>
          (case send_all wire turns of
             None \<Rightarrow> None
           | Some (RC_FAIL, out, rest) \<Rightarrow> Some (RC_FAIL, out, rest)
           | Some (RC_OK, out, rest) \<Rightarrow>
               map_option (\<lambda>(c, out', rest'). (c, out @ out', rest')) (send_frames ps rest)))"

definition send_to_client :: "uci_sim_packet \<Rightarrow> send_turn list \<Rightarrow> (rc \<times> bytes \<times> send_turn list) option" where
  "send_to_client p turns = send_frames (frames p) turns"

function flush_to_client ::
    "uci_sim_engine \<Rightarrow> send_turn list \<Rightarrow> (rc \<times> bytes \<times> uci_sim_engine \<times> send_turn list) option" where
  "flush_to_client e turns =
     (case uci_sim_engine_dequeue_outbound_packet e of
        None \<Rightarrow> Some (RC_OK, [], e, turns)
      | Some (p, e') \<Rightarrow>
          (case send_to_client p turns of
             None \<Rightarrow> None
           | Some (RC_FAIL, out, rest) \<Rightarrow> Some (RC_FAIL, out, e', rest)
           | Some (RC_OK, out, rest) \<Rightarrow>
               map_option (\<lambda>(c, out', e'', rest'). (c, out @ out', e'', rest')) (flush_to_client e' rest)))"
  by pat_completeness auto
termination
  by (relation "measure (\<lambda>(e, turns). length (outbound_packets e))")
    (auto simp: uci_sim_engine_dequeue_outbound_packet_def split: list.splits)

declare flush_to_client.simps [simp del]

subsection \<open>Receiving\<close>

text \<open>
  A segment is what has arrived when \<open>recv\<close> is called; the bytes the caller did not ask for stay
  for the next call. An empty segment is the end of the stream, as is \<open>Recv_Closed\<close>.
\<close>

datatype recv_turn = Segment bytes | Recv_Interrupted bool | Recv_Again | Recv_Closed | Recv_Failed

datatype 'a read_result = Ready 'a | Disconnected | Read_Failed

fun recv_exact :: "nat \<Rightarrow> bytes \<Rightarrow> recv_turn list \<Rightarrow> (bytes read_result \<times> recv_turn list) option" where
  "recv_exact 0 acc turns = Some (Ready acc, turns)"
| "recv_exact (Suc n) acc [] = None"
| "recv_exact (Suc n) acc (Segment bs # turns) =
     (if bs = [] then Some (Disconnected, turns)
      else if length bs > Suc n then Some (Ready (acc @ take (Suc n) bs), Segment (drop (Suc n) bs) # turns)
      else recv_exact (Suc n - length bs) (acc @ bs) turns)"
| "recv_exact (Suc n) acc (Recv_Interrupted shutdown # turns) =
     (if shutdown then Some (Read_Failed, turns) else recv_exact (Suc n) acc turns)"
| "recv_exact (Suc n) acc (Recv_Again # turns) = recv_exact (Suc n) acc turns"
| "recv_exact (Suc n) acc (Recv_Closed # turns) = Some (Disconnected, turns)"
| "recv_exact (Suc n) acc (Recv_Failed # turns) = Some (Read_Failed, turns)"

definition payload_length_of :: "bytes \<Rightarrow> nat" where
  "payload_length_of hdr =
     unat (if drop_bit 5 (hdr ! 0) AND 0x03 = UCI_MT_DATA
           then (ucast (hdr ! 2) :: u16) OR push_bit 8 (ucast (hdr ! 3)) else ucast (hdr ! 3))"

definition read_command :: "recv_turn list \<Rightarrow> (uci_sim_packet read_result \<times> recv_turn list) option" where
  "read_command turns =
     (case recv_exact 4 [] turns of
        None \<Rightarrow> None
      | Some (Disconnected, rest) \<Rightarrow> Some (Disconnected, rest)
      | Some (Read_Failed, rest) \<Rightarrow> Some (Read_Failed, rest)
      | Some (Ready hdr, rest) \<Rightarrow>
          if payload_length_of hdr > UCI_SIM_MAX_PAYLOAD then Some (Read_Failed, rest)
             else (case recv_exact (payload_length_of hdr) [] rest of
                     None \<Rightarrow> None
                   | Some (Disconnected, rest') \<Rightarrow> Some (Disconnected, rest')
                   | Some (Read_Failed, rest') \<Rightarrow> Some (Read_Failed, rest')
                   | Some (Ready body, rest') \<Rightarrow>
                       Some (Ready \<lparr>mt = drop_bit 5 (hdr ! 0) AND 0x03, pbf = drop_bit 4 (hdr ! 0) AND 0x01, gid = hdr ! 0 AND 0x0F,
                                    oid = hdr ! 1 AND 0x3F, payload = body\<rparr>, rest')))"

subsection \<open>The event loop\<close>

abbreviation ENGINE_TICK_MS :: u64 where "ENGINE_TICK_MS \<equiv> 50"

datatype poll_result = Poll_Ok | Poll_Interrupted | Poll_Failed

text \<open>What the world does in one turn of the loop; \<open>pt_now\<close> is the clock, if it can be read.\<close>

record poll_turn =
  pt_shutdown_before :: bool
  pt_poll :: poll_result
  pt_shutdown_after :: bool
  pt_readable :: bool
  pt_hangup :: bool
  pt_now :: "u64 option"

record tcp_connection =
  tcp_engine :: uci_sim_engine
  last_tick_ms :: u64
  tcp_in :: "recv_turn list"
  tcp_out :: "send_turn list"
  tcp_sent :: bytes

datatype turn_outcome = Continue | Break

text \<open>A command is read and submitted; what the engine makes of it is not looked at.\<close>

definition serve_readable :: "tcp_connection \<Rightarrow> (turn_outcome \<times> tcp_connection) option" where
  "serve_readable s =
     (case read_command (tcp_in s) of
        None \<Rightarrow> None
      | Some (Ready p, rest) \<Rightarrow>
          Some (Continue, s\<lparr>tcp_engine := snd (uci_sim_engine_submit_packet (tcp_engine s) p), tcp_in := rest\<rparr>)
      | Some (_, rest) \<Rightarrow> Some (Break, s\<lparr>tcp_in := rest\<rparr>))"

text \<open>The engine's clock follows the wall clock, by at most one period each turn.\<close>

definition serve_tick :: "u64 \<Rightarrow> tcp_connection \<Rightarrow> tcp_connection" where
  "serve_tick now s =
     (if now > last_tick_ms s then
        let elapsed_ms = now - last_tick_ms s;
            tick_ms = (if elapsed_ms > ENGINE_TICK_MS then ucast ENGINE_TICK_MS else ucast elapsed_ms)
        in s\<lparr>tcp_engine := snd (uci_sim_engine_tick (tcp_engine s) tick_ms), last_tick_ms := now\<rparr>
      else s)"

definition serve_flush :: "tcp_connection \<Rightarrow> (turn_outcome \<times> tcp_connection) option" where
  "serve_flush s =
     map_option (\<lambda>(c, out, e, rest). (if c = RC_OK then Continue else Break,
         s\<lparr>tcp_engine := e, tcp_out := rest, tcp_sent := tcp_sent s @ out\<rparr>))
       (flush_to_client (tcp_engine s) (tcp_out s))"

definition serve_turn :: "poll_turn \<Rightarrow> tcp_connection \<Rightarrow> (turn_outcome \<times> tcp_connection) option" where
  "serve_turn t s =
     (if pt_shutdown_before t then Some (Break, s)
      else case pt_poll t of
        Poll_Interrupted \<Rightarrow> Some (if pt_shutdown_after t then Break else Continue, s)
      | Poll_Failed \<Rightarrow> Some (Break, s)
      | Poll_Ok \<Rightarrow>
          if pt_shutdown_after t then Some (Break, s)
          else case (if pt_readable t then serve_readable s else Some (Continue, s)) of
            None \<Rightarrow> None
          | Some (Break, s1) \<Rightarrow> Some (Break, s1)
          | Some (Continue, s1) \<Rightarrow>
              if pt_hangup t then Some (Break, s1)
              else (case pt_now t of
                      None \<Rightarrow> Some (Break, s1)
                    | Some now \<Rightarrow> serve_flush (serve_tick now s1)))"

fun serve :: "poll_turn list \<Rightarrow> tcp_connection \<Rightarrow> (turn_outcome \<times> tcp_connection) option" where
  "serve [] s = Some (Continue, s)"
| "serve (t # ts) s =
     (case serve_turn t s of
        None \<Rightarrow> None
      | Some (Break, s') \<Rightarrow> Some (Break, s')
      | Some (Continue, s') \<Rightarrow> serve ts s')"


subsection \<open>What is sent\<close>

lemma send_all_spec:
  "send_all wire turns = Some (c, out, rest) \<Longrightarrow> \<exists>r. wire = out @ r \<and> (c = RC_OK \<longleftrightarrow> r = [])"
proof (induction wire turns arbitrary: c out rest rule: send_all.induct)
  case (3 b wire n turns)
  show ?case
  proof (cases "n = 0")
    case True
    with "3.prems" show ?thesis by auto
  next
    case False
    with "3.prems" obtain out' where o: "send_all (drop n (b # wire)) turns = Some (c, out', rest)"
        "out = take n (b # wire) @ out'" by auto
    from "3.IH" [OF False o(1)] obtain r where r: "drop n (b # wire) = out' @ r" "c = RC_OK \<longleftrightarrow> r = []" by blast
    have "b # wire = take n (b # wire) @ drop n (b # wire)" by simp
    also have "\<dots> = out @ r" by (simp add: r(1) o(2))
    finally show ?thesis using r(2) by blast
  qed
qed (auto split: if_splits)

lemma fragments_Nil [simp]: "fragments p [] = []"
  by (simp add: fragments.simps)

lemma fragments_payload: "concat (map payload (fragments p rest)) = rest"
proof (induction p rest rule: fragments.induct)
  case (1 p rest)
  then show ?case by (cases "rest = []") (simp_all add: fragments.simps [of p rest])
qed

definition fragment_of :: "uci_sim_packet \<Rightarrow> uci_sim_packet \<Rightarrow> bool" where
  "fragment_of p f \<longleftrightarrow> mt f = mt p \<and> gid f = gid p \<and> oid f = oid p \<and> payload_len f \<le> 255
     \<and> (pbf f = UCI_PBF_COMPLETE \<or> pbf f = UCI_PBF_NOT_COMPLETE)"

lemma fragments_all: "f \<in> set (fragments p rest) \<Longrightarrow> fragment_of p f"
proof (induction p rest rule: fragments.induct)
  case (1 p rest)
  then show ?case
    by (cases "rest = []")
      (auto simp: fragments.simps [of p rest] fragment_of_def payload_len_def split: if_splits)
qed

text \<open>How a host puts the fragments of one message together.\<close>

fun reassemble :: "bytes \<Rightarrow> uci_sim_packet list \<Rightarrow> uci_sim_packet option" where
  "reassemble acc [] = None"
| "reassemble acc (f # fs) =
     (if pbf f = UCI_PBF_NOT_COMPLETE then reassemble (acc @ payload f) fs
      else if fs = [] then Some (f\<lparr>payload := acc @ payload f\<rparr>) else None)"

lemma reassemble_fragments:
  "rest \<noteq> [] \<Longrightarrow> reassemble acc (fragments p rest) =
     Some \<lparr>mt = mt p, pbf = UCI_PBF_COMPLETE, gid = gid p, oid = oid p, payload = acc @ rest\<rparr>"
proof (induction p rest arbitrary: acc rule: fragments.induct)
  case (1 p rest)
  show ?case
  proof (cases "length rest > 255")
    case True
    then have "drop 255 rest \<noteq> []" by simp
    from 1(1) [OF \<open>rest \<noteq> []\<close> this, of "acc @ take 255 rest"] True show ?thesis
      by (simp add: fragments.simps [of p rest] "1.prems")
  next
    case False
    then show ?thesis
      by (simp add: fragments.simps [of p rest] "1.prems")
  qed
qed

text \<open>The bytes of a frame, of a packet and of a queue of packets.\<close>

definition wire_of :: "uci_sim_packet \<Rightarrow> bytes" where
  "wire_of p = (case uci_sim_packet_serialize p UCI_SIM_MAX_PACKET of None \<Rightarrow> [] | Some w \<Rightarrow> w)"

definition client_bytes :: "uci_sim_packet list \<Rightarrow> bytes" where
  "client_bytes ps = concat (map (\<lambda>p. concat (map wire_of (frames p))) ps)"

lemma send_frames_spec:
  "send_frames ps turns = Some (RC_OK, out, rest) \<Longrightarrow> out = concat (map wire_of ps)"
proof (induction ps arbitrary: turns out)
  case (Cons p ps)
  from Cons.prems obtain wire where w: "uci_sim_packet_serialize p UCI_SIM_MAX_PACKET = Some wire"
    by (auto split: option.splits)
  with Cons.prems obtain out1 rest1 out2 where
    "send_all wire turns = Some (RC_OK, out1, rest1)" "send_frames ps rest1 = Some (RC_OK, out2, rest)"
    "out = out1 @ out2"
    by (auto split: option.splits rc.splits)
  with send_all_spec [OF this(1)] Cons.IH [OF this(2)] w show ?case by (simp add: wire_of_def)
qed simp

lemma flush_to_client_step:
  "uci_sim_engine_dequeue_outbound_packet e = Some (p, e') \<Longrightarrow> flush_to_client e turns =
     (case send_to_client p turns of
        None \<Rightarrow> None
      | Some (RC_FAIL, out, rest) \<Rightarrow> Some (RC_FAIL, out, e', rest)
      | Some (RC_OK, out, rest) \<Rightarrow>
          map_option (\<lambda>(c, out', e'', rest'). (c, out @ out', e'', rest')) (flush_to_client e' rest))"
  by (subst flush_to_client.simps) simp

text \<open>
  A flush takes packets from the front of the queue and leaves the device alone; when it
  succeeds the queue is empty and the socket has taken exactly the frames of its packets.
\<close>

lemma flush_to_client_spec:
  "flush_to_client e turns = Some (c, out, e', rest) \<Longrightarrow>
   (\<exists>k. outbound_packets e' = drop k (outbound_packets e)) \<and> device e' = device e
   \<and> (c = RC_OK \<longrightarrow> outbound_packets e' = [] \<and> out = client_bytes (outbound_packets e))"
proof (induction e turns arbitrary: c out e' rest rule: flush_to_client.induct)
  case (1 e turns)
  show ?case
  proof (cases "uci_sim_engine_dequeue_outbound_packet e")
    case None
    then have "outbound_packets e = []" by (simp add: outbound.get_None_iff)
    with None "1.prems" show ?thesis by (simp add: flush_to_client.simps [of e turns] client_bytes_def)
  next
    case (Some x)
    obtain p e1 where x: "x = (p, e1)" by (cases x)
    note deq = Some [unfolded x]
    have e1: "outbound_packets e = p # outbound_packets e1" "device e1 = device e"
      using outbound.get_SomeD [OF deq] dequeue_outbound_device [OF deq] by simp_all
    note step = flush_to_client_step [OF deq, of turns]
    obtain c1 out1 rest1 where send: "send_to_client p turns = Some (c1, out1, rest1)"
      using "1.prems" unfolding step by (cases "send_to_client p turns") auto
    show ?thesis
    proof (cases c1)
      case RC_FAIL
      with "1.prems" step send have "e' = e1" "c = RC_FAIL" by simp_all
      with e1 show ?thesis by (auto intro: exI [of _ 1])
    next
      case RC_OK
      have "flush_to_client e turns =
          map_option (\<lambda>(c, out', e'', rest'). (c, out1 @ out', e'', rest')) (flush_to_client e1 rest1)"
        unfolding step using send RC_OK by simp
      with "1.prems" obtain out2 where
        flush: "flush_to_client e1 rest1 = Some (c, out2, e', rest)" "out = out1 @ out2" by auto
      from "1.IH" [OF deq refl send refl RC_OK refl flush(1)] have IH:
        "(\<exists>k. outbound_packets e' = drop k (outbound_packets e1)) \<and> device e' = device e1
         \<and> (c = RC_OK \<longrightarrow> outbound_packets e' = [] \<and> out2 = client_bytes (outbound_packets e1))" by simp
      then have "\<exists>k. outbound_packets e' = drop k (outbound_packets e)" using e1(1) by (metis drop_Suc_Cons)
      moreover have "out1 = concat (map wire_of (frames p))"
        using send RC_OK send_frames_spec by (simp add: send_to_client_def)
      ultimately show ?thesis using IH e1 flush(2) by (auto simp: client_bytes_def)
    qed
  qed
qed


subsection \<open>What is received\<close>

fun segment_bytes :: "recv_turn \<Rightarrow> bytes" where
  "segment_bytes (Segment bs) = bs"
| "segment_bytes t = []"

definition incoming :: "recv_turn list \<Rightarrow> bytes" where
  "incoming turns = concat (map segment_bytes turns)"

text \<open>A stream that neither ends nor fails nor is asked to shut down.\<close>

fun steady :: "recv_turn \<Rightarrow> bool" where
  "steady (Segment bs) = (bs \<noteq> [])"
| "steady (Recv_Interrupted shutdown) = (\<not> shutdown)"
| "steady Recv_Again = True"
| "steady Recv_Closed = False"
| "steady Recv_Failed = False"

lemma incoming_simps [simp]:
  "incoming [] = []" "incoming (t # ts) = segment_bytes t @ incoming ts"
  by (simp_all add: incoming_def)

lemma recv_exact_steady:
  "list_all steady turns \<Longrightarrow> n \<le> length (incoming turns) \<Longrightarrow>
   \<exists>rest. recv_exact n acc turns = Some (Ready (acc @ take n (incoming turns)), rest)
     \<and> incoming rest = drop n (incoming turns) \<and> list_all steady rest"
proof (induction n acc turns rule: recv_exact.induct)
  case (3 n acc bs turns)
  show ?case
  proof (cases "length bs > Suc n")
    case True
    with 3 show ?thesis by simp
  next
    case False
    with 3 show ?thesis by simp
  qed
qed auto

text \<open>
  However the stream is cut into segments and interrupted, a command is read as
  \<open>uci_sim_packet_parse\<close> reads the bytes, and the rest of the stream is left for the next one.
\<close>

lemma header_length_same:
  "payload_length_from_header m x y =
     (if m = UCI_MT_DATA then (ucast x :: u16) OR push_bit 8 (ucast y) else ucast y)"
  by (simp add: payload_length_from_header_def)

lemma read_command_steady:
  assumes st: "list_all steady turns" and p: "uci_sim_packet_parse (incoming turns) = Some p"
  shows "\<exists>rest. read_command turns = Some (Ready p, rest) \<and> list_all steady rest
    \<and> incoming rest = drop (UCI_SIM_HEADER_SIZE + payload_len p) (incoming turns)"
proof -
  let ?b = "incoming turns"
  note parsed = p [unfolded parse_Some_nth]
  have "4 \<le> length ?b" using parsed by simp
  from recv_exact_steady [OF st this, of "[]"] obtain r1 where
    r1: "recv_exact 4 [] turns = Some (Ready (take 4 ?b), r1)" "incoming r1 = drop 4 ?b" "list_all steady r1"
    by (simp only: append_Nil) blast
  have "payload_len p \<le> length (incoming r1)" unfolding r1(2) length_drop using parsed by linarith
  from recv_exact_steady [OF r1(3) this, of "[]"] obtain r2 where
    r2: "recv_exact (payload_len p) [] r1 = Some (Ready (payload p), r2)"
      "incoming r2 = drop (UCI_SIM_HEADER_SIZE + payload_len p) ?b" "list_all steady r2"
    using parsed r1(2) by (simp only: append_Nil drop_drop add.commute) metis
  have len: "payload_length_of (take 4 ?b) = payload_len p"
    using parsed by (simp add: payload_length_of_def header_length_same)
  have "read_command turns = Some (Ready p, r2)"
    unfolding read_command_def r1(1) using parsed r2(1) by (cases p) (simp add: len)
  with r2 show ?thesis by blast
qed


subsection \<open>The loop keeps the engine well formed\<close>

lemma serve_readable_inv:
  "engine_inv (tcp_engine s) \<Longrightarrow> serve_readable s = Some (b, s') \<Longrightarrow> engine_inv (tcp_engine s')"
  using submit_inv [OF _ surjective_pairing]
  by (auto simp: serve_readable_def split: option.splits read_result.splits)

lemma serve_tick_inv: "engine_inv (tcp_engine s) \<Longrightarrow> engine_inv (tcp_engine (serve_tick now s))"
  using tick_inv [OF _ surjective_pairing] by (simp add: serve_tick_def Let_def)

lemma serve_flush_inv:
  assumes "engine_inv (tcp_engine s)" and "serve_flush s = Some (b, s')"
  shows "engine_inv (tcp_engine s')"
proof -
  from assms(2) obtain c out e rest where f: "flush_to_client (tcp_engine s) (tcp_out s) = Some (c, out, e, rest)"
      "tcp_engine s' = e" by (auto simp: serve_flush_def)
  from flush_to_client_spec [OF f(1)] obtain k where "outbound_packets e = drop k (outbound_packets (tcp_engine s))"
      "device e = device (tcp_engine s)" by blast
  with assms(1) f(2) show ?thesis by (auto simp: engine_inv_def dest: in_set_dropD)
qed

lemma serve_turn_inv:
  assumes "engine_inv (tcp_engine s)" and "serve_turn t s = Some (b, s')"
  shows "engine_inv (tcp_engine s')"
  using assms serve_readable_inv [OF assms(1)] serve_flush_inv [OF serve_tick_inv]
  by (fastforce simp: serve_turn_def split: if_splits poll_result.splits option.splits turn_outcome.splits)

lemma serve_inv:
  "engine_inv (tcp_engine s) \<Longrightarrow> serve ts s = Some (b, s') \<Longrightarrow> engine_inv (tcp_engine s')"
proof (induction ts arbitrary: s)
  case (Cons t ts)
  obtain b1 s1 where turn: "serve_turn t s = Some (b1, s1)"
    using Cons.prems(2) by (cases "serve_turn t s") auto
  with Cons.prems(1) serve_turn_inv have "engine_inv (tcp_engine s1)" by blast
  with Cons turn show ?case by (cases b1) auto
qed simp

subsection \<open>Properties\<close>

text \<open>
  C20. A long control packet is cut into fragments that reassemble to it: each carries its type,
  group and opcode and at most 255 bytes, and putting the payloads together until the fragment
  marked complete gives the packet back.
\<close>

theorem fragments_reassemble:
  assumes "mt p \<noteq> UCI_MT_DATA" and "payload_len p > 255" and "pbf p = UCI_PBF_COMPLETE"
  shows "reassemble [] (frames p) = Some p \<and> list_all (fragment_of p) (frames p)"
proof -
  have f: "frames p = fragments p (payload p)" using assms by (simp add: frames_def)
  have "payload p \<noteq> []" using assms(2) by (auto simp: payload_len_def)
  from reassemble_fragments [OF this, of "[]" p] assms(3)
  have "reassemble [] (frames p) = Some p" unfolding f by (cases p) simp
  moreover have "list_all (fragment_of p) (frames p)"
    unfolding f list_all_iff using fragments_all by blast
  ultimately show ?thesis by simp
qed

lemma fragments_reassemble_witness:
  "reassemble [] (frames \<lparr>mt = UCI_MT_RESPONSE, pbf = UCI_PBF_COMPLETE, gid = 1, oid = 4, payload = replicate 307 0\<rparr>)
     = Some \<lparr>mt = UCI_MT_RESPONSE, pbf = UCI_PBF_COMPLETE, gid = 1, oid = 4, payload = replicate 307 0\<rparr>"
  using fragments_reassemble
    [of "\<lparr>mt = UCI_MT_RESPONSE, pbf = UCI_PBF_COMPLETE, gid = 1, oid = 4, payload = replicate 307 0\<rparr>"]
  by (simp add: payload_len_def)

text \<open>
  C21. A command is read the same however the stream is cut into segments and whatever
  interruptions come between: if the bytes that will arrive start with a packet, that packet is
  what read_command returns, and the bytes after it stay in the stream.
\<close>

theorem read_command_segmentation:
  assumes "list_all steady turns" and "uci_sim_packet_parse (incoming turns) = Some p"
  shows "\<exists>rest. read_command turns = Some (Ready p, rest) \<and> list_all steady rest
    \<and> incoming turns = take (UCI_SIM_HEADER_SIZE + payload_len p) (incoming turns) @ incoming rest"
  using read_command_steady [OF assms] by (metis append_take_drop_id)

lemma read_command_segmentation_witness:
  "\<exists>rest. read_command [Segment [0x20, 2], Recv_Again, Segment [0, 1, 7, 0x21], Recv_Interrupted False] =
      Some (Ready \<lparr>mt = UCI_MT_COMMAND, pbf = 0, gid = 0, oid = 2, payload = [7]\<rparr>, rest)
    \<and> list_all steady rest \<and> incoming rest = [0x21]"
proof -
  have "uci_sim_packet_parse [0x20, 2, 0, 1, 7, 0x21] =
      Some \<lparr>mt = UCI_MT_COMMAND, pbf = 0, gid = 0, oid = 2, payload = [7]\<rparr>" by code_simp
  then show ?thesis
    using read_command_segmentation
      [of "[Segment [0x20, 2], Recv_Again, Segment [0, 1, 7, 0x21], Recv_Interrupted False]"
        "\<lparr>mt = UCI_MT_COMMAND, pbf = 0, gid = 0, oid = 2, payload = [7]\<rparr>"]
    by (auto simp: payload_len_def)
qed

text \<open>
  C22. A flush that succeeds has put exactly the frames of the outbound packets on the wire, in
  order, and emptied the queue, however the socket took the bytes.
\<close>

theorem flush_sends_all:
  assumes "flush_to_client e turns = Some (RC_OK, out, e', rest)"
  shows "out = client_bytes (outbound_packets e) \<and> outbound_packets e' = [] \<and> device e' = device e"
  using flush_to_client_spec [OF assms] by simp

lemma flush_sends_all_witness:
  "\<exists>e' rest. flush_to_client
      \<lparr>device = uci_sim_device_init, outbound_packets =
         [\<lparr>mt = UCI_MT_RESPONSE, pbf = 0, gid = 0, oid = 2, payload = [0]\<rparr>]\<rparr>
      [Sent 2, Send_Again, Sent 9] = Some (RC_OK, [0x40, 2, 0, 1, 0], e', rest)
    \<and> [0x40, 2, 0, 1, 0] = client_bytes [\<lparr>mt = UCI_MT_RESPONSE, pbf = 0, gid = 0, oid = 2, payload = [0]\<rparr>]"
proof -
  let ?p = "\<lparr>mt = UCI_MT_RESPONSE, pbf = 0, gid = 0, oid = 2, payload = [0]\<rparr>"
  let ?e = "\<lparr>device = uci_sim_device_init, outbound_packets = [?p]\<rparr>"
  have "send_to_client ?p [Sent 2, Send_Again, Sent 9] = Some (RC_OK, [0x40, 2, 0, 1, 0], [])" by code_simp
  then have run: "flush_to_client ?e [Sent 2, Send_Again, Sent 9] =
      Some (RC_OK, [0x40, 2, 0, 1, 0], ?e\<lparr>outbound_packets := []\<rparr>, [])"
    by (simp add: flush_to_client.simps uci_sim_engine_dequeue_outbound_packet_def)
  from flush_sends_all [OF run] run show ?thesis by auto
qed

subsection \<open>A flush returns\<close>

text \<open>
  A socket that takes bytes, or asks to be tried again, without an error or a shutdown, and the
  number of its turns that take bytes.
\<close>

fun willing :: "send_turn \<Rightarrow> bool" where
  "willing (Sent n) = (n \<noteq> 0)"
| "willing (Send_Interrupted shutdown) = (\<not> shutdown)"
| "willing Send_Again = True"
| "willing Send_Failed = False"

fun is_sent :: "send_turn \<Rightarrow> bool" where
  "is_sent (Sent n) = True" | "is_sent t = False"

definition sends :: "send_turn list \<Rightarrow> nat" where
  "sends turns = length (filter is_sent turns)"

lemma sends_simps [simp]: "sends [] = 0" "sends (t # ts) = (if is_sent t then Suc (sends ts) else sends ts)"
  by (simp_all add: sends_def)

lemma send_all_returns:
  "list_all willing turns \<Longrightarrow> length wire \<le> sends turns \<Longrightarrow>
   \<exists>rest. send_all wire turns = Some (RC_OK, wire, rest) \<and> list_all willing rest
     \<and> sends turns \<le> sends rest + length wire"
proof (induction wire turns rule: send_all.induct)
  case (3 b wire n turns)
  then have n: "n \<noteq> 0" by simp
  with 3 obtain rest where "send_all (drop n (b # wire)) turns = Some (RC_OK, drop n (b # wire), rest)"
      "list_all willing rest" "sends turns \<le> sends rest + length (drop n (b # wire))"
    by fastforce
  with n show ?case by auto
qed auto

lemma send_frames_returns:
  "list_all willing turns \<Longrightarrow> \<forall>p\<in>set ps. uci_sim_packet_serialize p UCI_SIM_MAX_PACKET \<noteq> None
   \<Longrightarrow> length (concat (map wire_of ps)) \<le> sends turns \<Longrightarrow>
   \<exists>rest. send_frames ps turns = Some (RC_OK, concat (map wire_of ps), rest) \<and> list_all willing rest
     \<and> sends turns \<le> sends rest + length (concat (map wire_of ps))"
proof (induction ps arbitrary: turns)
  case (Cons p ps)
  then obtain wire where w: "uci_sim_packet_serialize p UCI_SIM_MAX_PACKET = Some wire" by auto
  then have wire: "wire_of p = wire" by (simp add: wire_of_def)
  with Cons.prems have "length wire \<le> sends turns" by simp
  from send_all_returns [OF Cons.prems(1) this] obtain rest where
    r: "send_all wire turns = Some (RC_OK, wire, rest)" "list_all willing rest" "sends turns \<le> sends rest + length wire"
    by blast
  have "length (concat (map wire_of ps)) \<le> sends rest" using Cons.prems(3) r(3) wire by simp
  with Cons.IH [OF r(2)] Cons.prems(2) obtain rest' where
    "send_frames ps rest = Some (RC_OK, concat (map wire_of ps), rest')" "list_all willing rest'"
    "sends rest \<le> sends rest' + length (concat (map wire_of ps))"
    by auto
  with w wire r show ?case by simp
qed simp

lemma frames_serialize:
  assumes "mt p \<noteq> UCI_MT_DATA" and "f \<in> set (frames p)"
  shows "uci_sim_packet_serialize f UCI_SIM_MAX_PACKET \<noteq> None"
proof -
  have "mt f \<noteq> UCI_MT_DATA \<and> payload_len f \<le> 255"
    using assms fragments_all [of f p "payload p"] by (auto simp: frames_def fragment_of_def split: if_splits)
  then show ?thesis by (simp add: uci_sim_packet_serialize_def)
qed

lemma outbound_not_data: "outbound_ok p \<Longrightarrow> mt p \<noteq> UCI_MT_DATA"
  by (auto simp: outbound_ok_def notification_ok_def)

lemma flush_to_client_returns:
  "\<forall>p\<in>set (outbound_packets e). outbound_ok p \<Longrightarrow> list_all willing turns
   \<Longrightarrow> length (client_bytes (outbound_packets e)) \<le> sends turns
   \<Longrightarrow> \<exists>out e' rest. flush_to_client e turns = Some (RC_OK, out, e', rest)"
proof (induction "outbound_packets e" arbitrary: e turns)
  case Nil
  then have "uci_sim_engine_dequeue_outbound_packet e = None" by (simp add: outbound.get_None_iff)
  then show ?case by (simp add: flush_to_client.simps [of e turns])
next
  case (Cons p ps)
  obtain e1 where deq: "uci_sim_engine_dequeue_outbound_packet e = Some (p, e1)" "outbound_packets e1 = ps"
    using outbound.get_next [OF Cons.hyps(2) [symmetric]] by blast
  have ser: "\<forall>f\<in>set (frames p). uci_sim_packet_serialize f UCI_SIM_MAX_PACKET \<noteq> None"
    using frames_serialize outbound_not_data Cons.hyps(2) Cons.prems(1) by (metis list.set_intros(1))
  let ?n = "length (concat (map wire_of (frames p)))"
  have total: "?n + length (client_bytes ps) \<le> sends turns"
    using Cons.prems(3) by (simp add: Cons.hyps(2) [symmetric] client_bytes_def)
  then have "?n \<le> sends turns" by simp
  from send_frames_returns [OF Cons.prems(2) ser this] obtain rest where
    r: "send_frames (frames p) turns = Some (RC_OK, concat (map wire_of (frames p)), rest)" "list_all willing rest"
      "sends turns \<le> sends rest + ?n" by blast
  have ok: "\<forall>p\<in>set (outbound_packets e1). outbound_ok p"
    using Cons.prems(1) by (simp add: deq(2) Cons.hyps(2) [symmetric])
  have "length (client_bytes (outbound_packets e1)) \<le> sends rest" using total r(3) by (simp add: deq(2))
  from Cons.hyps(1) [OF deq(2) [symmetric] ok r(2) this] obtain out e' rest' where
    "flush_to_client e1 rest = Some (RC_OK, out, e', rest')" by blast
  with r(1) show ?case by (simp add: flush_to_client_step [OF deq(1)] send_to_client_def)
qed

text \<open>
  C23. A flush returns: when the socket keeps taking at least a byte at a time, however often it
  asks to be tried again in between, every packet of a well-formed engine is sent and the flush
  succeeds with an empty queue.
\<close>

theorem flush_returns:
  assumes "engine_inv e" and "list_all willing turns"
    and "length (client_bytes (outbound_packets e)) \<le> sends turns"
  shows "\<exists>out e' rest. flush_to_client e turns = Some (RC_OK, out, e', rest) \<and> outbound_packets e' = []"
proof -
  have "\<forall>p\<in>set (outbound_packets e). outbound_ok p" using assms(1) by (simp add: engine_inv_def)
  from flush_to_client_returns [OF this assms(2,3)] obtain out e' rest where
    "flush_to_client e turns = Some (RC_OK, out, e', rest)" by blast
  with flush_to_client_spec [OF this] show ?thesis by simp
qed

lemma flush_returns_witness:
  "\<exists>out e' rest. flush_to_client \<lparr>device = uci_sim_device_init, outbound_packets =
        [\<lparr>mt = UCI_MT_RESPONSE, pbf = 0, gid = 0, oid = 2, payload = [0]\<rparr>]\<rparr>
      [Sent 1, Send_Again, Sent 1, Send_Interrupted False, Sent 1, Sent 1, Sent 1] = Some (RC_OK, out, e', rest)
    \<and> outbound_packets e' = []"
proof -
  let ?p = "\<lparr>mt = UCI_MT_RESPONSE, pbf = 0, gid = 0, oid = 2, payload = [0]\<rparr>"
  have "client_bytes [?p] = [0x40, 2, 0, 1, 0]" by code_simp
  then show ?thesis
    by (intro flush_returns) (simp_all add: engine_inv_def start_up_inv outbound_ok_def payload_len_def)
qed

end
