(* ===== verification/Tcp_Run.thy ===== *)
theory Tcp_Run
  imports Tcp_Server
begin

text \<open>
  A run of the TCP event loop as the engine and the client see it. The engine's history is a list
  of calls; the packets submitted are those the client's bytes encode, in order, the bytes sent
  are those of the packets taken, in order, and the engine's clock never runs ahead of the wall
  clock. The relation composes over turns, so that it holds for a whole run.
\<close>

abbreviation hosted :: "uci_sim_engine \<Rightarrow> host_call list \<Rightarrow> uci_sim_packet list \<times> uci_sim_engine" where
  "hosted \<equiv> host_run uci_sim_engine_submit_packet uci_sim_engine_tick uci_sim_engine_dequeue_outbound_packet"

lemma hosted_append:
  "fst (hosted e (xs @ ys)) = fst (hosted e xs) @ fst (hosted (snd (hosted e xs)) ys)"
  "snd (hosted e (xs @ ys)) = snd (hosted (snd (hosted e xs)) ys)"
proof (induction xs arbitrary: e)
  case (Cons c xs)
  { case 1 then show ?case using Cons by (cases c) (auto simp: split_def Let_def split: option.splits) }
  { case 2 then show ?case using Cons by (cases c) (auto simp: split_def Let_def split: option.splits) }
qed simp_all

fun submitted :: "host_call list \<Rightarrow> uci_sim_packet list" where
  "submitted [] = []"
| "submitted (Submit p # calls) = p # submitted calls"
| "submitted (_ # calls) = submitted calls"

fun ticked :: "host_call list \<Rightarrow> u32 list" where
  "ticked [] = []"
| "ticked (Tick t # calls) = t # ticked calls"
| "ticked (_ # calls) = ticked calls"

lemma calls_append [simp]:
  "submitted (xs @ ys) = submitted xs @ submitted ys" "ticked (xs @ ys) = ticked xs @ ticked ys"
  by (induction xs rule: submitted.induct) simp_all

lemma takes_calls [simp]: "submitted (replicate n Take) = []" "ticked (replicate n Take) = []"
  by (induction n) simp_all

text \<open>The packets one after the other at the front of a stream, and the bytes after them.\<close>

fun decodes :: "uci_sim_packet list \<Rightarrow> bytes \<Rightarrow> bytes \<Rightarrow> bool" where
  "decodes [] bs rest \<longleftrightarrow> rest = bs"
| "decodes (p # ps) bs rest \<longleftrightarrow>
     uci_sim_packet_parse bs = Some p \<and> decodes ps (drop (UCI_SIM_HEADER_SIZE + payload_len p) bs) rest"

lemma decodes_append: "decodes ps a b \<Longrightarrow> decodes qs b c \<Longrightarrow> decodes (ps @ qs) a c"
  by (induction ps arbitrary: a) auto

text \<open>A header that announces more than a packet can hold.\<close>

definition oversized :: "bytes \<Rightarrow> bool" where
  "oversized bs \<longleftrightarrow> UCI_SIM_HEADER_SIZE \<le> length bs
     \<and> payload_length_of (take UCI_SIM_HEADER_SIZE bs) > UCI_SIM_MAX_PAYLOAD"

text \<open>
  What a stretch of the loop has done. When it ended well all the bytes of the packets taken are
  sent and the stream starts after the packets submitted; when it broke off, a last part of the
  bytes may be missing, and an oversized header may have been read.
\<close>

definition tcp_history :: "bool \<Rightarrow> tcp_connection \<Rightarrow> host_call list \<Rightarrow> tcp_connection \<Rightarrow> bool" where
  "tcp_history well s calls s' \<longleftrightarrow>
     tcp_engine s' = snd (hosted (tcp_engine s) calls)
     \<and> (\<exists>lost. tcp_sent s @ client_bytes (fst (hosted (tcp_engine s) calls)) = tcp_sent s' @ lost \<and> (well \<longrightarrow> lost = []))
     \<and> (\<exists>left. decodes (submitted calls) (incoming (tcp_in s)) left
          \<and> (incoming (tcp_in s') = left
             \<or> \<not> well \<and> oversized left \<and> incoming (tcp_in s') = drop UCI_SIM_HEADER_SIZE left))
     \<and> list_all (\<lambda>t. t \<le> 50) (ticked calls)
     \<and> unat (last_tick_ms s) + sum_list (map unat (ticked calls)) \<le> unat (last_tick_ms s')"

lemma client_bytes_simps [simp]:
  "client_bytes [] = []" "client_bytes (p # ps) = concat (map wire_of (frames p)) @ client_bytes ps"
  "client_bytes (ps @ qs) = client_bytes ps @ client_bytes qs"
  by (simp_all add: client_bytes_def)

lemma history_refl: "tcp_history well s [] s"
  by (simp add: tcp_history_def)

lemma history_trans:
  assumes "tcp_history True s xs s1" and "tcp_history well s1 ys s'"
  shows "tcp_history well s (xs @ ys) s'"
proof -
  note a = assms(1) [unfolded tcp_history_def] and b = assms(2) [unfolded tcp_history_def]
  from a have d: "decodes (submitted xs) (incoming (tcp_in s)) (incoming (tcp_in s1))" by auto
  from b obtain left where left: "decodes (submitted ys) (incoming (tcp_in s1)) left"
      "incoming (tcp_in s') = left
       \<or> \<not> well \<and> oversized left \<and> incoming (tcp_in s') = drop UCI_SIM_HEADER_SIZE left" by blast
  from b obtain lost where lost: "tcp_sent s1 @ client_bytes (fst (hosted (tcp_engine s1) ys)) = tcp_sent s' @ lost"
      "well \<longrightarrow> lost = []" by blast
  have "tcp_sent s @ client_bytes (fst (hosted (tcp_engine s) xs)) = tcp_sent s1" using a by auto
  with lost a have "tcp_sent s @ client_bytes (fst (hosted (tcp_engine s) (xs @ ys))) = tcp_sent s' @ lost"
    by (simp add: hosted_append flip: append_assoc)
  moreover have "decodes (submitted (xs @ ys)) (incoming (tcp_in s)) left"
    using decodes_append [OF d left(1)] by simp
  ultimately show ?thesis
    using a b left(2) lost(2) unfolding tcp_history_def by (auto simp: hosted_append)
qed

subsection \<open>Reading\<close>

lemma recv_exact_outcome:
  "list_all steady turns \<Longrightarrow> recv_exact n acc turns = Some (r, rest) \<Longrightarrow>
   n \<le> length (incoming turns) \<and> r = Ready (acc @ take n (incoming turns))
   \<and> incoming rest = drop n (incoming turns) \<and> list_all steady rest"
proof (induction n acc turns arbitrary: r rest rule: recv_exact.induct)
  case (3 n acc bs turns)
  show ?case
  proof (cases "length bs > Suc n")
    case True
    with 3 show ?thesis by auto
  next
    case False
    with 3 show ?thesis by fastforce
  qed
qed auto

text \<open>On a steady stream a command is what the parser reads; only an oversized header fails.\<close>

lemma read_command_outcome:
  assumes st: "list_all steady turns" and out: "read_command turns = Some (r, rest)"
  shows "(\<exists>p. r = Ready p \<and> uci_sim_packet_parse (incoming turns) = Some p \<and> list_all steady rest
      \<and> incoming rest = drop (UCI_SIM_HEADER_SIZE + payload_len p) (incoming turns))
    \<or> r = Read_Failed \<and> oversized (incoming turns) \<and> incoming rest = drop UCI_SIM_HEADER_SIZE (incoming turns)"
proof (cases "uci_sim_packet_parse (incoming turns)")
  case (Some p)
  from read_command_steady [OF st Some] Some out show ?thesis by auto
next
  case None
  let ?b = "incoming turns" and ?n = "payload_length_of (take 4 (incoming turns))"
  obtain h r1 where h: "recv_exact 4 [] turns = Some (h, r1)"
    using out by (cases "recv_exact 4 [] turns") (auto simp: read_command_def)
  from recv_exact_outcome [OF st h] have
    r1: "4 \<le> length ?b" "h = Ready (take 4 ?b)" "incoming r1 = drop 4 ?b" "list_all steady r1" by simp_all
  show ?thesis
  proof (cases "?n > UCI_SIM_MAX_PAYLOAD")
    case True
    with out h r1 show ?thesis by (auto simp: read_command_def oversized_def)
  next
    case False
    then obtain r' r2 where r2: "recv_exact ?n [] r1 = Some (r', r2)"
      using out h r1(2) by (cases "recv_exact ?n [] r1") (auto simp: read_command_def)
    have len: "?n = unat (payload_length_from_header (drop_bit 5 (?b ! 0) AND 3) (?b ! 2) (?b ! 3))"
      using r1(1) by (simp add: payload_length_of_def header_length_same)
    have "?n \<le> length (drop 4 ?b)" using recv_exact_outcome [OF r1(4) r2] r1(3) by simp
    then have "uci_sim_packet_parse ?b \<noteq> None"
      using False r1(1) len by (auto simp: uci_sim_packet_parse_def Let_def)
    with None show ?thesis by simp
  qed
qed

lemma readable_history:
  assumes st: "list_all steady (tcp_in s)" and out: "serve_readable s = Some (b, s')"
  shows "\<exists>calls. tcp_history (b = Continue) s calls s' \<and> tcp_out s' = tcp_out s
    \<and> (b = Continue \<longrightarrow> list_all steady (tcp_in s') \<and> length (submitted calls) = 1)
    \<and> (b = Break \<longrightarrow> (\<exists>left. decodes (submitted calls) (incoming (tcp_in s)) left \<and> oversized left))"
proof -
  obtain r rest where r: "read_command (tcp_in s) = Some (r, rest)"
    using out by (cases "read_command (tcp_in s)") (auto simp: serve_readable_def)
  from read_command_outcome [OF st r] consider
      p where "r = Ready p" "uci_sim_packet_parse (incoming (tcp_in s)) = Some p" "list_all steady rest"
        "incoming rest = drop (UCI_SIM_HEADER_SIZE + payload_len p) (incoming (tcp_in s))"
    | "r = Read_Failed" "oversized (incoming (tcp_in s))" "incoming rest = drop UCI_SIM_HEADER_SIZE (incoming (tcp_in s))"
    by blast
  then show ?thesis
  proof cases
    case 1
    with r out have "b = Continue"
      "s' = s\<lparr>tcp_engine := snd (uci_sim_engine_submit_packet (tcp_engine s) p), tcp_in := rest\<rparr>"
      by (simp_all add: serve_readable_def)
    with 1 show ?thesis by (intro exI [of _ "[Submit p]"]) (simp add: tcp_history_def)
  next
    case 2
    with r out have "b = Break" "s' = s\<lparr>tcp_in := rest\<rparr>" by (simp_all add: serve_readable_def)
    with 2 show ?thesis by (intro exI [of _ "[]"]) (simp add: tcp_history_def)
  qed
qed

subsection \<open>The clock\<close>

lemma tick_history:
  "\<exists>calls. tcp_history True s calls (serve_tick now s) \<and> tcp_in (serve_tick now s) = tcp_in s
    \<and> tcp_out (serve_tick now s) = tcp_out s \<and> submitted calls = []"
proof (cases "now > last_tick_ms s")
  case True
  let ?el = "now - last_tick_ms s"
  define t :: u32 where "t = (if ?el > ENGINE_TICK_MS then ucast ENGINE_TICK_MS else ucast ?el)"
  have el: "unat ?el = unat now - unat (last_tick_ms s)" using True by (intro unat_sub) simp
  have small: "unat t \<le> 50 \<and> unat t \<le> unat ?el"
  proof (cases "?el > ENGINE_TICK_MS")
    case True
    then show ?thesis by (simp add: t_def word_less_nat_alt)
  next
    case False
    then have le: "unat ?el \<le> 50" by (simp add: word_le_nat_alt not_less)
    then have "unat (ucast ?el :: u32) = unat ?el"
      by (simp add: unsigned_ucast_eq take_bit_nat_eq_self)
    with False le show ?thesis by (simp add: t_def)
  qed
  have "unat (last_tick_ms s) < unat now" using True by (simp add: word_less_nat_alt)
  with small el have t: "t \<le> 50" "unat (last_tick_ms s) + unat t \<le> unat now"
    by (auto simp: word_le_nat_alt)
  have "serve_tick now s = s\<lparr>tcp_engine := snd (uci_sim_engine_tick (tcp_engine s) t), last_tick_ms := now\<rparr>"
    using True by (simp add: serve_tick_def Let_def t_def)
  with t show ?thesis by (intro exI [of _ "[Tick t]"]) (simp add: tcp_history_def)
next
  case False
  then show ?thesis using history_refl [of True s] by (intro exI [of _ "[]"]) (simp add: serve_tick_def)
qed

subsection \<open>Sending\<close>

lemma send_frames_prefix:
  "send_frames ps turns = Some (c, out, rest) \<Longrightarrow> \<exists>lost. concat (map wire_of ps) = out @ lost"
proof (induction ps arbitrary: turns out)
  case (Cons p ps)
  show ?case
  proof (cases "uci_sim_packet_serialize p UCI_SIM_MAX_PACKET")
    case None
    with Cons.prems show ?thesis by simp
  next
    case (Some wire)
    then have wire: "wire_of p = wire" by (simp add: wire_of_def)
    obtain c1 out1 rest1 where send: "send_all wire turns = Some (c1, out1, rest1)"
      using Cons.prems Some by (cases "send_all wire turns") auto
    from send_all_spec [OF send] obtain r where r: "wire = out1 @ r" "c1 = RC_OK \<longleftrightarrow> r = []" by blast
    show ?thesis
    proof (cases c1)
      case RC_FAIL
      with Cons.prems Some send have "out = out1" by simp
      with r wire show ?thesis by simp
    next
      case RC_OK
      with Cons.prems Some send obtain out2 where "send_frames ps rest1 = Some (c, out2, rest)" "out = out1 @ out2"
        by auto
      with Cons.IH [OF this(1)] r(1) RC_OK r(2) wire show ?thesis by auto
    qed
  qed
qed simp

text \<open>A flush is a number of packets taken; if it fails the last of them is cut short.\<close>

lemma flush_takes:
  "flush_to_client e turns = Some (c, out, e', rest) \<Longrightarrow>
   \<exists>n lost. e' = snd (hosted e (replicate n Take))
     \<and> client_bytes (fst (hosted e (replicate n Take))) = out @ lost \<and> (c = RC_OK \<longrightarrow> lost = [])"
proof (induction e turns arbitrary: c out e' rest rule: flush_to_client.induct)
  case (1 e turns)
  show ?case
  proof (cases "uci_sim_engine_dequeue_outbound_packet e")
    case None
    with "1.prems" show ?thesis by (intro exI [of _ 0]) (simp add: flush_to_client.simps [of e turns])
  next
    case (Some x)
    obtain p e1 where x: "x = (p, e1)" by (cases x)
    note deq = Some [unfolded x] and step = flush_to_client_step [OF Some [unfolded x], of turns]
    have run: "hosted e (replicate (Suc n) Take) =
        (p # fst (hosted e1 (replicate n Take)), snd (hosted e1 (replicate n Take)))" for n
      by (simp add: deq split_def Let_def)
    obtain c1 out1 rest1 where send: "send_to_client p turns = Some (c1, out1, rest1)"
      using "1.prems" unfolding step by (cases "send_to_client p turns") auto
    then obtain lost1 where lost1: "concat (map wire_of (frames p)) = out1 @ lost1"
      unfolding send_to_client_def using send_frames_prefix by blast
    show ?thesis
    proof (cases c1)
      case RC_FAIL
      with "1.prems" step send have "e' = e1" "c = RC_FAIL" "out = out1" by simp_all
      with lost1 run [of 0] show ?thesis by (intro exI [of _ "Suc 0"]) simp
    next
      case RC_OK
      with "1.prems" step send obtain out2 where
        flush: "flush_to_client e1 rest1 = Some (c, out2, e', rest)" "out = out1 @ out2" by auto
      from "1.IH" [OF deq refl send refl RC_OK refl flush(1)] obtain n lost where IH:
        "e' = snd (hosted e1 (replicate n Take))"
        "client_bytes (fst (hosted e1 (replicate n Take))) = out2 @ lost" "c = RC_OK \<longrightarrow> lost = []" by blast
      have "out1 = concat (map wire_of (frames p))"
        using send RC_OK send_frames_spec by (simp add: send_to_client_def)
      with IH flush(2) run [of n] show ?thesis by (intro exI [of _ "Suc n"] exI [of _ lost]) simp
    qed
  qed
qed

text \<open>With a well-formed engine and a willing socket it cannot fail.\<close>

lemma send_all_willing:
  "list_all willing turns \<Longrightarrow> send_all wire turns = Some (c, out, rest) \<Longrightarrow> c = RC_OK \<and> list_all willing rest"
  by (induction wire turns arbitrary: c out rest rule: send_all.induct) auto

lemma send_frames_willing:
  "list_all willing turns \<Longrightarrow> \<forall>p\<in>set ps. uci_sim_packet_serialize p UCI_SIM_MAX_PACKET \<noteq> None
   \<Longrightarrow> send_frames ps turns = Some (c, out, rest) \<Longrightarrow> c = RC_OK \<and> list_all willing rest"
proof (induction ps arbitrary: turns c out rest)
  case (Cons p ps)
  then obtain wire where w: "uci_sim_packet_serialize p UCI_SIM_MAX_PACKET = Some wire" by auto
  obtain c1 out1 rest1 where send: "send_all wire turns = Some (c1, out1, rest1)"
    using Cons.prems(3) w by (cases "send_all wire turns") auto
  with send_all_willing [OF Cons.prems(1) send] Cons w show ?case by auto
qed simp

lemma flush_willing:
  "\<forall>p\<in>set (outbound_packets e). outbound_ok p \<Longrightarrow> list_all willing turns
   \<Longrightarrow> flush_to_client e turns = Some (c, out, e', rest) \<Longrightarrow> c = RC_OK \<and> list_all willing rest"
proof (induction e turns arbitrary: c out e' rest rule: flush_to_client.induct)
  case (1 e turns)
  show ?case
  proof (cases "uci_sim_engine_dequeue_outbound_packet e")
    case None
    with "1.prems" show ?thesis by (simp add: flush_to_client.simps [of e turns])
  next
    case (Some x)
    obtain p e1 where x: "x = (p, e1)" by (cases x)
    note deq = Some [unfolded x] and step = flush_to_client_step [OF Some [unfolded x], of turns]
    have e1: "outbound_packets e = p # outbound_packets e1" using outbound.get_SomeD [OF deq] by simp
    obtain c1 out1 rest1 where send: "send_to_client p turns = Some (c1, out1, rest1)"
      using "1.prems"(3) unfolding step by (cases "send_to_client p turns") auto
    have "\<forall>f\<in>set (frames p). uci_sim_packet_serialize f UCI_SIM_MAX_PACKET \<noteq> None"
      using frames_serialize outbound_not_data e1 "1.prems"(1) by (metis list.set_intros(1))
    then have c1: "c1 = RC_OK" "list_all willing rest1"
      using send_frames_willing [OF "1.prems"(2)] send by (auto simp: send_to_client_def)
    then obtain out2 where "flush_to_client e1 rest1 = Some (c, out2, e', rest)"
      using "1.prems"(3) step send by auto
    with "1.IH" [OF deq refl send refl c1(1) refl] c1(2) e1 "1.prems"(1) show ?thesis by simp
  qed
qed

lemma serve_flush_history:
  assumes out: "serve_flush s = Some (b, s')"
  shows "\<exists>calls. tcp_history (b = Continue) s calls s' \<and> tcp_in s' = tcp_in s \<and> submitted calls = []
    \<and> (engine_inv (tcp_engine s) \<and> list_all willing (tcp_out s) \<longrightarrow> b = Continue \<and> list_all willing (tcp_out s'))"
proof -
  from out obtain c bytes e rest where
    f: "flush_to_client (tcp_engine s) (tcp_out s) = Some (c, bytes, e, rest)"
      "b = (if c = RC_OK then Continue else Break)"
      "s' = s\<lparr>tcp_engine := e, tcp_out := rest, tcp_sent := tcp_sent s @ bytes\<rparr>"
    by (auto simp: serve_flush_def)
  from flush_takes [OF f(1)] obtain n lost where n: "e = snd (hosted (tcp_engine s) (replicate n Take))"
      "client_bytes (fst (hosted (tcp_engine s) (replicate n Take))) = bytes @ lost" "c = RC_OK \<longrightarrow> lost = []" by blast
  have "engine_inv (tcp_engine s) \<and> list_all willing (tcp_out s) \<longrightarrow> b = Continue \<and> list_all willing (tcp_out s')"
    using flush_willing [OF _ _ f(1)] f(2,3) by (simp add: engine_inv_def)
  with n f(2,3) show ?thesis
    by (intro exI [of _ "replicate n Take"]) (simp add: tcp_history_def)
qed

subsection \<open>Turns and runs\<close>

text \<open>A turn in which nothing tells the loop to stop, and one in which it reads a command.\<close>

definition live :: "poll_turn \<Rightarrow> bool" where
  "live t \<longleftrightarrow> \<not> pt_shutdown_before t \<and> \<not> pt_shutdown_after t \<and> pt_poll t \<noteq> Poll_Failed
     \<and> (pt_poll t = Poll_Ok \<longrightarrow> \<not> pt_hangup t \<and> pt_now t \<noteq> None)"

definition reads :: "poll_turn \<Rightarrow> bool" where
  "reads t \<longleftrightarrow> pt_poll t = Poll_Ok \<and> pt_readable t"

text \<open>Why a stretch of the loop that broke off did: what it was told, the client's header, the socket.\<close>

definition tcp_stretch :: "poll_turn list \<Rightarrow> turn_outcome \<Rightarrow> tcp_connection \<Rightarrow> host_call list \<Rightarrow> tcp_connection \<Rightarrow> bool" where
  "tcp_stretch turns b s calls s' \<longleftrightarrow>
     tcp_history (b = Continue) s calls s'
     \<and> (case b of
          Continue \<Rightarrow> list_all live turns \<and> list_all steady (tcp_in s')
            \<and> length (submitted calls) = length (filter reads turns)
        | Break \<Rightarrow> \<not> list_all live turns \<or> \<not> (engine_inv (tcp_engine s) \<and> list_all willing (tcp_out s))
            \<or> (\<exists>left. decodes (submitted calls) (incoming (tcp_in s)) left \<and> oversized left))
     \<and> (engine_inv (tcp_engine s) \<and> list_all willing (tcp_out s) \<and> b = Continue \<longrightarrow> list_all willing (tcp_out s'))"

lemma history_weaken: "tcp_history True s calls s' \<Longrightarrow> tcp_history well s calls s'"
  by (cases well) (auto simp: tcp_history_def)

text \<open>The part of a turn after the poll.\<close>

lemma turn_finish:
  assumes st: "list_all steady (tcp_in s)" and out: "serve_flush (serve_tick now s) = Some (b, s')"
  obtains calls where "tcp_history (b = Continue) s calls s'" and "list_all steady (tcp_in s')"
    and "submitted calls = []"
    and "engine_inv (tcp_engine s) \<Longrightarrow> list_all willing (tcp_out s) \<Longrightarrow> b = Continue \<and> list_all willing (tcp_out s')"
proof -
  from tick_history obtain c1 where c1: "tcp_history True s c1 (serve_tick now s)"
      "tcp_in (serve_tick now s) = tcp_in s" "tcp_out (serve_tick now s) = tcp_out s" "submitted c1 = []" by blast
  from serve_flush_history [OF out] obtain c2 where c2: "tcp_history (b = Continue) (serve_tick now s) c2 s'"
      "tcp_in s' = tcp_in (serve_tick now s)" "submitted c2 = []"
      "engine_inv (tcp_engine (serve_tick now s)) \<and> list_all willing (tcp_out (serve_tick now s))
       \<longrightarrow> b = Continue \<and> list_all willing (tcp_out s')" by blast
  show thesis
    by (rule that [OF history_trans [OF c1(1) c2(1)]])
      (use c1 c2 st serve_tick_inv [of s now] in auto)
qed

lemma turn_stretch:
  assumes st: "list_all steady (tcp_in s)" and out: "serve_turn t s = Some (b, s')"
  shows "\<exists>calls. tcp_stretch [t] b s calls s'"
proof -
  have stop: ?thesis if "b = Break" "s' = s" "\<not> live t"
    using that history_refl [of False s] by (intro exI [of _ "[]"]) (simp add: tcp_stretch_def)
  have idle: ?thesis if "b = Continue" "s' = s" "live t" "\<not> reads t"
    using that history_refl [of True s] st by (intro exI [of _ "[]"]) (simp add: tcp_stretch_def)
  show ?thesis
  proof (cases "pt_shutdown_before t \<or> pt_shutdown_after t \<or> pt_poll t \<noteq> Poll_Ok")
    case True
    with out stop idle show ?thesis
      by (auto simp: serve_turn_def live_def reads_def split: if_splits poll_result.splits)
  next
    case False
    then obtain b1 s1 where rd: "(if pt_readable t then serve_readable s else Some (Continue, s)) = Some (b1, s1)"
      using out by (cases "if pt_readable t then serve_readable s else Some (Continue, s)") (auto simp: serve_turn_def)
    have "\<exists>c1. tcp_history (b1 = Continue) s c1 s1 \<and> tcp_out s1 = tcp_out s
        \<and> (b1 = Continue \<longrightarrow> list_all steady (tcp_in s1) \<and> length (submitted c1) = length (filter reads [t]))
        \<and> (b1 = Break \<longrightarrow> (\<exists>left. decodes (submitted c1) (incoming (tcp_in s)) left \<and> oversized left))"
    proof (cases "pt_readable t")
      case True
      with readable_history [OF st, of b1 s1] rd False show ?thesis by (simp add: reads_def)
    next
      case no: False
      with rd st history_refl [of True s] show ?thesis
        by (intro exI [of _ "[]"]) (auto simp: reads_def)
    qed
    then obtain c1 where c1: "tcp_history (b1 = Continue) s c1 s1" "tcp_out s1 = tcp_out s"
        "b1 = Continue \<Longrightarrow> list_all steady (tcp_in s1) \<and> length (submitted c1) = length (filter reads [t])"
        "b1 = Break \<Longrightarrow> \<exists>left. decodes (submitted c1) (incoming (tcp_in s)) left \<and> oversized left" by blast
    show ?thesis
    proof (cases b1)
      case Break
      then have "b = Break" "s' = s1" using out rd False by (simp_all add: serve_turn_def)
      with c1 Break show ?thesis by (intro exI [of _ c1]) (simp add: tcp_stretch_def)
    next
      case Continue
      show ?thesis
      proof (cases "pt_hangup t \<or> pt_now t = None")
        case True
        then have "b = Break" "s' = s1" using out rd False Continue by (auto simp: serve_turn_def split: if_splits)
        moreover have "\<not> live t" using True False by (auto simp: live_def)
        ultimately show ?thesis
          using c1(1) Continue history_weaken [of s c1 s1 False] by (intro exI [of _ c1]) (simp add: tcp_stretch_def)
      next
        case go: False
        then obtain now where "pt_now t = Some now" by blast
        with out rd False Continue go have fin: "serve_flush (serve_tick now s1) = Some (b, s')"
          by (simp add: serve_turn_def)
        have st1: "list_all steady (tcp_in s1)" using c1(3) Continue by simp
        from turn_finish [OF st1 fin] obtain c2 where c2: "tcp_history (b = Continue) s1 c2 s'"
            "list_all steady (tcp_in s')" "submitted c2 = []"
            "engine_inv (tcp_engine s1) \<Longrightarrow> list_all willing (tcp_out s1) \<Longrightarrow> b = Continue \<and> list_all willing (tcp_out s')" by blast
        have "engine_inv (tcp_engine s) \<Longrightarrow> engine_inv (tcp_engine s1)"
          using rd serve_readable_inv by (auto split: if_splits)
        moreover have "live t" using False go by (auto simp: live_def)
        moreover have "tcp_history (b = Continue) s (c1 @ c2) s'"
          using history_trans [OF _ c2(1)] c1(1) Continue by simp
        ultimately show ?thesis
          using c1 c2 Continue by (intro exI [of _ "c1 @ c2"]) (cases b; auto simp: tcp_stretch_def)
      qed
    qed
  qed
qed

lemma serve_stretch:
  "list_all steady (tcp_in s) \<Longrightarrow> serve turns s = Some (b, s') \<Longrightarrow> \<exists>calls. tcp_stretch turns b s calls s'"
proof (induction turns arbitrary: s)
  case Nil
  then show ?case using history_refl [of True s] by (intro exI [of _ "[]"]) (simp add: tcp_stretch_def)
next
  case (Cons t ts)
  obtain b1 s1 where turn: "serve_turn t s = Some (b1, s1)"
    using Cons.prems(2) by (cases "serve_turn t s") auto
  from turn_stretch [OF Cons.prems(1) turn] obtain c1 where c1: "tcp_stretch [t] b1 s c1 s1" by blast
  show ?case
  proof (cases b1)
    case Break
    with Cons.prems(2) turn have "b = Break" "s' = s1" by simp_all
    with c1 Break show ?thesis by (intro exI [of _ c1]) (auto simp: tcp_stretch_def)
  next
    case Continue
    with Cons.prems(2) turn have rest: "serve ts s1 = Some (b, s')" by simp
    have st1: "list_all steady (tcp_in s1)" using c1 Continue by (simp add: tcp_stretch_def)
    from Cons.IH [OF st1 rest] obtain c2 where c2: "tcp_stretch ts b s1 c2 s'" by blast
    have inv: "engine_inv (tcp_engine s) \<Longrightarrow> engine_inv (tcp_engine s1)" using serve_turn_inv [OF _ turn] .
    have h1: "tcp_history True s c1 s1" using c1 Continue by (simp add: tcp_stretch_def)
    have h: "tcp_history (b = Continue) s (c1 @ c2) s'"
      using history_trans [OF h1] c2 by (simp add: tcp_stretch_def)
    have d: "decodes (submitted c1) (incoming (tcp_in s)) (incoming (tcp_in s1))"
      using h1 by (auto simp: tcp_history_def)
    show ?thesis
      using c1 c2 h inv Continue decodes_append [OF d]
      by (intro exI [of _ "c1 @ c2"]) (cases b; auto simp: tcp_stretch_def)
  qed
qed

declare client_bytes_simps [simp del]

end
