(* ===== verification/Acceptance.thy ===== *)
theory Acceptance
  imports Engine
begin

text \<open>
  When the engine accepts a command. Outside the deferring scenario, with nothing left in the
  outbound queue, a submission cannot fail: what the handlers queue fits, the flush empties the
  device's queue, and the tick that ends the submission has room for what its event reports. All
  that is queued behind the response are notifications.
\<close>

subsection \<open>No command touches the scenario\<close>

definition kept :: "uci_sim_device \<Rightarrow> rc \<times> uci_sim_device \<times> uci_sim_result \<Rightarrow> bool" where
  "kept d out \<longleftrightarrow> dev_scenario (fst (snd out)) = dev_scenario d"

lemma deliver_scenario [simp]: "dev_scenario (fst (deliver d g o' bs r)) = dev_scenario d"
  by (simp add: deliver_def uci_sim_device_deliver_notification_def uci_sim_device_queue_notification_def)

lemma emit_scenario [simp]:
  "dev_scenario (fst (emit_session_status_ntf_with_reason d sid st reason r)) = dev_scenario d"
  "dev_scenario (fst (emit_session_status_ntf d sid st r)) = dev_scenario d"
  "dev_scenario (fst (emit_device_status_ntf d st r)) = dev_scenario d"
  "dev_scenario (fst (emit_core_generic_error_ntf d st r)) = dev_scenario d"
  "dev_scenario (fst (emit_logical_link_notification d r sid o' x y)) = dev_scenario d"
  by (simp_all add: emit_defs)

lemma kept_intros [simp]:
  "kept d (refuse st d request r)" "kept d (c, d, r')"
  "kept d (accept g o' bs d' r) \<longleftrightarrow> dev_scenario d' = dev_scenario d"
  by (simp_all add: kept_def refuse_def accept_def)

lemma operations_scenario [simp]:
  "dev_scenario (uci_sim_device_reset_runtime_state d) = dev_scenario d"
  "dev_scenario (uci_sim_scenario_on_session_stopped d i) = dev_scenario d"
  "dev_scenario (uci_sim_device_cancel_session_events d sid) = dev_scenario d"
  "dev_scenario (snd (uci_sim_scenario_on_session_started d i)) = dev_scenario d"
  by (simp_all add: uci_sim_device_reset_runtime_state_def uci_sim_scenario_on_session_stopped_def
      uci_sim_device_cancel_session_events_def uci_sim_scenario_on_session_started_def
      uci_sim_device_schedule_event_def Let_def)

lemma alloc_scenario: "alloc_session d sid = Some (d', i) \<Longrightarrow> dev_scenario d' = dev_scenario d"
  by (auto simp: alloc_session_def split: option.splits)

lemma handlers_kept:
  "kept d (handle_qorvo_ext2 d request r)" "kept d (handle_qorvo_mac d request r)"
  "kept d (handle_core_set_get_config b d request r)"
  "kept d (handle_session_init d request r)" "kept d (handle_session_deinit d request r)"
  "kept d (handle_session_get_count d request r)" "kept d (handle_session_query_data_size d request r)"
  "kept d (handle_session_get_state d request r)"
  "kept d (handle_session_update_multicast_list d request r)"
  "kept d (handle_session_data_transfer_phase_config d request r)"
  "kept d (handle_session_update_dt_rounds b d request r)"
  "kept d (handle_session_set_get_config b d request r)"
  "kept d (handle_logical_link_create i sid d request r)" "kept d (handle_logical_link_close i sid d request r)"
  "kept d (handle_logical_link_get_param i d request r)" "kept d (apply_transition i sid t d request r)"
  by (auto simp: handle_qorvo_ext2_def handle_qorvo_mac_def handle_core_set_get_config_def
      handle_session_init_def handle_session_deinit_def handle_session_get_count_def
      handle_session_query_data_size_def handle_session_get_state_def
      handle_session_update_multicast_list_def handle_session_data_transfer_phase_config_def
      handle_session_update_dt_rounds_def handle_session_set_get_config_def
      handle_logical_link_create_def handle_logical_link_close_def handle_logical_link_get_param_def
      apply_transition_def kept_def refuse_def accept_def Let_def split_def alloc_scenario split: option.splits)

lemma dispatch_kept: "kept d (dispatch_command d request r)"
proof -
  have "kept d (handle_core d request r)"
    by (auto simp: handle_core_def Let_def handlers_kept kept_def [of d "(RC_OK, x)" for x] split: option.splits)
  moreover have "kept d (handle_session_config d request r)"
    by (simp add: handle_session_config_def handlers_kept)
  moreover have "kept d (handle_session_transition i sid d request r)" for i sid
    by (auto simp: handle_session_transition_def handlers_kept kept_def [of d "(RC_OK, x)" for x]
        split: option.splits sum.splits)
  then have "kept d (handle_session_control d request r)"
    by (simp add: handle_session_control_def Let_def handlers_kept split: option.splits)
  ultimately show ?thesis by (simp add: dispatch_command_def handlers_kept)
qed

lemma finalize_scenario: "dev_scenario (fst (uci_sim_device_finalize_result d r k)) = dev_scenario d"
  by (auto simp: uci_sim_device_finalize_result_def uci_sim_device_dequeue_notification_def split: option.splits list.splits)

lemma command_scenario:
  assumes "mt request = UCI_MT_COMMAND"
  shows "dev_scenario (fst (snd (uci_sim_device_handle_packet d request))) = dev_scenario d"
  using assms dispatch_kept [of d request init_result]
  by (simp add: uci_sim_device_handle_packet_def Let_def split_def kept_def finalize_scenario split: option.splits)

subsection \<open>What a flush and a tick append\<close>

definition adds_ntfs :: "uci_sim_engine \<Rightarrow> uci_sim_engine \<Rightarrow> bool" where
  "adds_ntfs e e' \<longleftrightarrow> (\<exists>ns. outbound_packets e' = outbound_packets e @ ns \<and> (\<forall>n\<in>set ns. notification_ok n))"

lemma adds_ntfs_refl: "adds_ntfs e e"
  by (simp add: adds_ntfs_def)

lemma adds_ntfs_device [simp]:
  "adds_ntfs (e\<lparr>device := d\<rparr>) e' = adds_ntfs e e'" "adds_ntfs e (e'\<lparr>device := d\<rparr>) = adds_ntfs e e'"
  by (simp_all add: adds_ntfs_def)

lemma adds_ntfs_trans: "adds_ntfs e e' \<Longrightarrow> adds_ntfs e' e'' \<Longrightarrow> adds_ntfs e e''"
  unfolding adds_ntfs_def by (metis append.assoc set_append UnE)

lemma flush_adds: "device_inv (device e) \<Longrightarrow> adds_ntfs e (flush_device_notifications e)"
  by (auto simp: flush_device_notifications_def flush_loop_eq flushed_def Let_def adds_ntfs_def device_inv_def
      pending_ok_def dest: in_set_takeD)

lemma stop_accepts:
  assumes "length (pending_notifications d) < UCI_SIM_MAX_PENDING_NOTIFICATIONS"
  shows "fst (stop_at_maximum d i) = RC_OK
    \<and> length (scheduled_events (snd (stop_at_maximum d i))) \<le> length (scheduled_events d)"
  using assms
  by (simp add: stop_at_maximum_def Let_def uci_sim_device_cancel_session_events_def
      uci_sim_device_queue_session_status_notification_def uci_sim_device_queue_notification_def)

lemma emit_accepts:
  assumes inv: "device_inv d" and room: "length (pending_notifications d) + 2 \<le> UCI_SIM_MAX_PENDING_NOTIFICATIONS"
  shows "fst (uci_sim_device_emit_ranging_stream d i) = RC_OK
    \<and> length (scheduled_events (snd (uci_sim_device_emit_ranging_stream d i))) \<le> length (scheduled_events d)"
proof -
  let ?s = "sessions d ! i"
  have room': "length (pending_notifications d) < UCI_SIM_MAX_PENDING_NOTIFICATIONS" using room by simp
  have "length (sample_ntf (effective_profile d) (next_ranging_sequence d) ?s) \<le> 1"
    by (simp add: length_sample_ntf effective_profile_ok [OF inv])
  then have "length (pending_notifications (reported_device d ?s)) < UCI_SIM_MAX_PENDING_NOTIFICATIONS"
    using room by simp
  then have stop: "fst (stop_at_maximum (set_session (reported_device d ?s) i s') i) = RC_OK
      \<and> length (scheduled_events (snd (stop_at_maximum (set_session (reported_device d ?s) i s') i)))
        \<le> length (scheduled_events d)" for s'
    using stop_accepts [of "set_session (reported_device d ?s) i s'" i] by simp
  show ?thesis
    unfolding uci_sim_device_emit_ranging_stream_def Let_def sample_policy_def [symmetric]
      sample_reported [OF inv room'] prod.case
    using stop stop_accepts [OF room', of i] by simp
qed

lemma progress_accepts:
  assumes "length (pending_notifications d) + 2 \<le> UCI_SIM_MAX_PENDING_NOTIFICATIONS"
    and "allocated (sessions d ! i)" and "data_transfer_in_progress (sessions d ! i)"
  shows "fst (uci_sim_device_progress_data_transfer d i) = RC_OK
    \<and> scheduled_events (snd (uci_sim_device_progress_data_transfer d i)) = scheduled_events d"
  using assms
  by (simp add: uci_sim_device_progress_data_transfer_def Let_def uci_sim_device_queue_notification_def
      uci_sim_device_queue_data_transfer_status_notification_def uci_sim_device_queue_data_credit_notification_def)

text \<open>An event processed with room in the device's queue and table.\<close>

lemma process_event_accepts:
  assumes e: "engine_inv e" and none: "pending_notifications (device e) = []"
    and room: "length (scheduled_events (device e)) < UCI_SIM_MAX_SCENARIO_EVENTS"
  shows "fst (process_ready_event e ev) = RC_OK \<and> adds_ntfs e (snd (process_ready_event e ev))"
proof -
  have inv: "device_inv (device e)" using e by (simp add: engine_inv_def)
  have pend: "length (pending_notifications (device e)) + 2 \<le> UCI_SIM_MAX_PENDING_NOTIFICATIONS" using none by simp
  have flush: "adds_ntfs e (flush_device_notifications (e\<lparr>device := d\<rparr>))
      \<and> scheduled_events (device (flush_device_notifications (e\<lparr>device := d\<rparr>))) = scheduled_events d"
    if "device_inv d" for d
    using flush_adds [of "e\<lparr>device := d\<rparr>"] flush_inv [OF engine_inv_device [OF e that]] that by simp
  have range: "fst (process_range_data e i) = RC_OK \<and> adds_ntfs e (snd (process_range_data e i))"
    if i: "i < length (sessions (device e))" "allocated (sessions (device e) ! i)" for i
  proof -
    obtain d where d: "uci_sim_device_emit_ranging_stream (device e) i = (RC_OK, d)"
        "length (scheduled_events d) < UCI_SIM_MAX_SCENARIO_EVENTS"
      using emit_accepts [OF inv pend, of i] room by (cases "uci_sim_device_emit_ranging_stream (device e) i") auto
    have "device_inv d" using emit_ranging_stream_inv [OF inv i] d(1) by simp
    note fl = flush [OF this]
    show ?thesis
      using fl d(2) by (simp add: process_range_data_def d(1) Let_def split_def schedule_event_ok_iff)
  qed
  have data: "fst (process_data_transfer e i) = RC_OK \<and> adds_ntfs e (snd (process_data_transfer e i))"
    if i: "i < length (sessions (device e))" "allocated (sessions (device e) ! i)" for i
  proof (cases "data_transfer_in_progress (sessions (device e) ! i)")
    case True
    obtain d where d: "uci_sim_device_progress_data_transfer (device e) i = (RC_OK, d)"
        "length (scheduled_events d) < UCI_SIM_MAX_SCENARIO_EVENTS"
      using progress_accepts [OF pend i(2) True] room by (cases "uci_sim_device_progress_data_transfer (device e) i") auto
    have "device_inv d" using progress_data_transfer_inv [OF inv i(1)] d(1) by simp
    note fl = flush [OF this]
    show ?thesis
      using fl d(2) adds_ntfs_refl [of e]
      by (simp add: process_data_transfer_def d(1) Let_def split_def schedule_event_ok_iff)
  next
    case False
    then show ?thesis using adds_ntfs_refl [of e] by (simp add: process_data_transfer_def Let_def)
  qed
  show ?thesis
    using range data adds_ntfs_refl found_session(1,2) [OF _ inv]
    by (simp add: process_ready_event_def split: uci_sim_event_type.splits option.splits)
qed

lemma tick_accepts:
  assumes e: "engine_inv e" and none: "pending_notifications (device e) = []"
  shows "fst (uci_sim_engine_tick e t) = RC_OK \<and> adds_ntfs e (snd (uci_sim_engine_tick e t))"
proof -
  let ?d = "uci_sim_device_tick_events (device e) t"
  have inv: "device_inv ?d" using e by (simp add: engine_inv_def tick_events_inv)
  show ?thesis
  proof (cases "uci_sim_device_dequeue_ready_event ?d")
    case None
    then show ?thesis by (simp add: uci_sim_engine_tick_def Let_def adds_ntfs_refl)
  next
    case (Some x)
    obtain ev d' where x: "x = (ev, d')" by (cases x)
    obtain pre post where split: "scheduled_events ?d = pre @ ev # post" "d' = ?d\<lparr>scheduled_events := pre @ post\<rparr>"
      using dequeue_ready_event_SomeD [OF Some [unfolded x]] by metis
    have "device_inv d'" using dequeue_ready_event_inv [OF Some [unfolded x] inv] by simp
    then have "engine_inv (e\<lparr>device := d'\<rparr>)" by (rule engine_inv_device [OF e])
    moreover have "length (scheduled_events d') < UCI_SIM_MAX_SCENARIO_EVENTS"
      using inv split by (simp add: device_inv_def events_ok_def)
    moreover have "pending_notifications d' = []"
      using none split(2) by (simp add: uci_sim_device_tick_events_def)
    ultimately show ?thesis
      using process_event_accepts [of "e\<lparr>device := d'\<rparr>" ev]
      by (simp add: uci_sim_engine_tick_def Let_def Some x)
  qed
qed

subsection \<open>A command on an empty outbound queue\<close>

text \<open>
  It is accepted, and what is queued is its answer, followed by notifications only. The answer
  is that of the handlers, whatever its length.
\<close>

lemma submit_command_accepted:
  assumes e: "engine_inv e" and mt: "mt request = UCI_MT_COMMAND" and empty: "outbound_packets e = []"
    and direct: "\<not> uci_sim_scenario_should_defer_notification (dev_scenario (device e))"
  obtains a ns e' where "uci_sim_engine_submit_packet e request = (RC_OK, e')"
    and "outbound_packets e' = a # ns" and "is_answer request a" and "\<forall>n\<in>set ns. notification_ok n"
proof -
  obtain c d r where hp: "uci_sim_device_handle_packet (device e) request = (c, d, r)"
    by (cases "uci_sim_device_handle_packet (device e) request") auto
  have inv: "device_inv (device e)" using e by (simp add: engine_inv_def)
  note hpr = handle_packet_result [OF inv hp] and hc = handle_command [OF inv mt hp]
  from hc obtain a where a: "response r = Some a" "is_answer request a" by (auto simp: answers_def is_answer_def)
  have direct': "\<not> uci_sim_scenario_should_defer_notification (dev_scenario d)"
    using direct command_scenario [OF mt, of "device e"] hp by simp
  define qs where "qs = (case notification r of None \<Rightarrow> [] | Some n \<Rightarrow> [n])"
  let ?e2 = "e\<lparr>device := d, outbound_packets := [a]\<rparr>" and ?e3 = "e\<lparr>device := d, outbound_packets := a # qs\<rparr>"
  have q2: "queue_present (e\<lparr>device := d\<rparr>) (Some a) = (RC_OK, ?e2)"
    using empty by (simp add: queue_present_def queue_outbound_packet_def)
  have q3: "queue_present ?e2 (notification r) = (RC_OK, ?e3)"
    by (simp add: queue_present_def queue_outbound_packet_def qs_def split: option.splits)
  have qs: "length qs \<le> 1" "\<forall>n\<in>set qs. notification_ok n"
    using hc by (auto simp: qs_def result_ok_def split: option.splits)
  let ?e4 = "flush_device_notifications ?e3"
  have e3: "engine_inv ?e3"
    using e hpr(1) hpr(3) [OF a(1)] qs by (auto simp: engine_inv_def notification_outbound_ok)
  have pend: "length (pending_notifications d) \<le> UCI_SIM_MAX_PENDING_NOTIFICATIONS"
    using hpr(1) by (simp add: device_inv_def pending_ok_def)
  have none: "pending_notifications (device ?e4) = []"
    using direct' pend qs(1) by (simp add: flush_device_notifications_def flush_loop_eq flushed_def Let_def)
  have e4: "engine_inv ?e4" "adds_ntfs ?e3 ?e4" using flush_inv [OF e3] flush_adds [of ?e3] hpr(1) by simp_all
  from tick_accepts [OF e4(1) none, of 0] e4(2) adds_ntfs_trans
  have tick: "fst (uci_sim_engine_tick ?e4 0) = RC_OK" "adds_ntfs ?e3 (snd (uci_sim_engine_tick ?e4 0))" by blast+
  have "uci_sim_engine_submit_packet e request = (RC_OK, snd (uci_sim_engine_tick ?e4 0))"
    using a(1) tick(1) by (simp add: uci_sim_engine_submit_packet_def hp q2 q3 Let_def prod_eq_iff)
  moreover from tick(2) obtain ns where "outbound_packets (snd (uci_sim_engine_tick ?e4 0)) = a # qs @ ns"
      "\<forall>n\<in>set ns. notification_ok n" by (auto simp: adds_ntfs_def)
  ultimately show thesis using that [of _ a "qs @ ns"] a(2) qs(2) by (auto simp: ball_Un)
qed

subsection \<open>Properties\<close>

text \<open>
  C40. Outside the deferring scenario, a command submitted while nothing is queued is never
  refused by the engine, whatever the device's state and the events that fall due with it: the
  submission returns success, the first packet queued is the answer of the command's group and
  opcode, and every packet behind it is a notification that fits one control packet.
\<close>

theorem command_accepted:
  assumes "engine_inv e" and "mt request = UCI_MT_COMMAND" and "outbound_packets e = []"
    and "\<not> uci_sim_scenario_should_defer_notification (dev_scenario (device e))"
  shows "case uci_sim_engine_submit_packet e request of (c, e') \<Rightarrow>
    c = RC_OK \<and> (\<exists>a ns. outbound_packets e' = a # ns \<and> is_answer request a \<and> list_all notification_ok ns)"
proof -
  from submit_command_accepted [OF assms] obtain a ns e' where
    "uci_sim_engine_submit_packet e request = (RC_OK, e')" "outbound_packets e' = a # ns" "is_answer request a"
    "\<forall>n\<in>set ns. notification_ok n" .
  then show ?thesis by (auto simp: list_all_iff)
qed

lemma command_accepted_witness:
  "fst (uci_sim_engine_submit_packet
      (uci_sim_engine_init_with_profile (Some uci_sim_default_profile) UCI_SIM_SCENARIO_RANGING_STREAM)
      \<lparr>mt = UCI_MT_COMMAND, pbf = 0, gid = UCI_GID_CORE, oid = UCI_CORE_DEVICE_INFO, payload = []\<rparr>) = RC_OK"
proof -
  let ?e = "uci_sim_engine_init_with_profile (Some uci_sim_default_profile) UCI_SIM_SCENARIO_RANGING_STREAM"
  have "outbound_packets ?e = []" "dev_scenario (device ?e) = UCI_SIM_SCENARIO_RANGING_STREAM"
    by (simp_all add: uci_sim_engine_init_with_profile_def uci_sim_device_init_with_profile_def
        apply_profile_defaults_def zero_device_def)
  then show ?thesis
    using command_accepted [OF init_engine_inv [OF default_profile_ok], of "\<lparr>mt = UCI_MT_COMMAND, pbf = 0,
        gid = UCI_GID_CORE, oid = UCI_CORE_DEVICE_INFO, payload = []\<rparr>" UCI_SIM_SCENARIO_RANGING_STREAM]
    by (simp add: split_def uci_sim_scenario_should_defer_notification_def)
qed

end
