(* ===== verification/Chardev.thy ===== *)
theory Chardev
  imports Acceptance
begin

text \<open>
  The PTY transport of \<open>src/transport/chardev/uci_sim_chardev.c\<close>. \<open>cd_stream\<close> is
  \<open>stream[0..slen-1]\<close>; \<open>cd_written\<close> collects what the master has taken. What \<open>read\<close> and
  \<open>write\<close> return is a list of turns as in the TCP transport. The lemmas show that the host's
  bytes are taken the same however they are cut into reads, that complete packets reach the
  engine in order, and that the stream never outgrows its allocation.
\<close>

datatype write_turn = Written nat | Write_Interrupted | Write_Failed

record uci_sim_chardev =
  cd_engine :: uci_sim_engine
  cd_stream :: bytes
  cd_written :: bytes

subsection \<open>From the stream to the engine\<close>

text \<open>The length the loop reads from a header, before it parses the packet.\<close>

definition stream_payload_length :: "bytes \<Rightarrow> nat" where
  "stream_payload_length avail =
     (if drop_bit 5 (avail ! 0) AND 0x03 = UCI_MT_DATA
      then unat ((ucast (avail ! 2) :: u16) OR push_bit 8 (ucast (avail ! 3)))
      else unat (avail ! 3))"

text \<open>
  The loop of \<open>stream_feed_to_engine\<close>: \<open>avail\<close> is the stream from \<open>consumed\<close> on. The results
  are the return value, the bytes consumed when it returned and the engine.
\<close>

function feed_loop :: "bytes \<Rightarrow> nat \<Rightarrow> uci_sim_engine \<Rightarrow> rc \<times> nat \<times> uci_sim_engine" where
  "feed_loop avail consumed e =
     (if length avail < UCI_SIM_HEADER_SIZE then (RC_OK, consumed, e)
      else if stream_payload_length avail > 255 then (RC_FAIL, consumed, e)
      else if length avail < UCI_SIM_HEADER_SIZE + stream_payload_length avail then (RC_OK, consumed, e)
      else
        (case uci_sim_packet_parse (take (UCI_SIM_HEADER_SIZE + stream_payload_length avail) avail) of
           None \<Rightarrow> (RC_FAIL, consumed, e)
         | Some pkt \<Rightarrow>
             (case uci_sim_engine_submit_packet e pkt of
                (RC_FAIL, e') \<Rightarrow> (RC_FAIL, consumed, e')
              | (RC_OK, e') \<Rightarrow>
                  feed_loop (drop (UCI_SIM_HEADER_SIZE + stream_payload_length avail) avail)
                    (consumed + UCI_SIM_HEADER_SIZE + stream_payload_length avail) e')))"
  by pat_completeness auto
termination by (relation "measure (\<lambda>(avail, consumed, e). length avail)") auto

declare feed_loop.simps [simp del]

text \<open>After an error the consumed packets stay in the buffer.\<close>

definition stream_feed_to_engine :: "uci_sim_chardev \<Rightarrow> rc \<times> uci_sim_chardev" where
  "stream_feed_to_engine dev =
     (let (c, consumed, e) = feed_loop (cd_stream dev) 0 (cd_engine dev)
      in if c \<noteq> RC_OK then (RC_FAIL, dev\<lparr>cd_engine := e\<rparr>)
         else (RC_OK, dev\<lparr>cd_engine := e, cd_stream := drop consumed (cd_stream dev)\<rparr>))"

subsection \<open>From the engine to the master\<close>

fun write_all :: "bytes \<Rightarrow> write_turn list \<Rightarrow> (rc \<times> bytes \<times> write_turn list) option" where
  "write_all [] turns = Some (RC_OK, [], turns)"
| "write_all (b # wire) [] = None"
| "write_all (b # wire) (Written n # turns) =
     (if n = 0 then Some (RC_FAIL, [], turns)
      else map_option (\<lambda>(c, out, rest). (c, take n (b # wire) @ out, rest))
             (write_all (drop n (b # wire)) turns))"
| "write_all (b # wire) (Write_Interrupted # turns) = write_all (b # wire) turns"
| "write_all (b # wire) (Write_Failed # turns) = Some (RC_FAIL, [], turns)"

function flush_packets ::
    "uci_sim_engine \<Rightarrow> write_turn list \<Rightarrow> (rc \<times> bytes \<times> uci_sim_engine \<times> write_turn list) option" where
  "flush_packets e turns =
     (case uci_sim_engine_dequeue_outbound_packet e of
        None \<Rightarrow> Some (RC_OK, [], e, turns)
      | Some (p, e') \<Rightarrow>
          (case uci_sim_packet_serialize p UCI_SIM_MAX_PACKET of
             None \<Rightarrow> Some (RC_FAIL, [], e', turns)
           | Some wire \<Rightarrow>
               (case write_all wire turns of
                  None \<Rightarrow> None
                | Some (RC_FAIL, out, rest) \<Rightarrow> Some (RC_FAIL, out, e', rest)
                | Some (RC_OK, out, rest) \<Rightarrow>
                    map_option (\<lambda>(c, out', e'', rest'). (c, out @ out', e'', rest')) (flush_packets e' rest))))"
  by pat_completeness auto
termination
  by (relation "measure (\<lambda>(e, turns). length (outbound_packets e))")
    (auto simp: uci_sim_engine_dequeue_outbound_packet_def split: list.splits)

declare flush_packets.simps [simp del]

definition master_flush ::
    "uci_sim_chardev \<Rightarrow> write_turn list \<Rightarrow> (rc \<times> uci_sim_chardev \<times> write_turn list) option" where
  "master_flush dev turns =
     map_option (\<lambda>(c, out, e, rest). (c, dev\<lparr>cd_engine := e, cd_written := cd_written dev @ out\<rparr>, rest))
       (flush_packets (cd_engine dev) turns)"

subsection \<open>One turn of input\<close>

text \<open>
  The results of \<open>read\<close> on the master. \<open>Read_Nothing\<close> is \<open>EAGAIN\<close> or \<open>EIO\<close>; no data at all
  is the end of the stream.
\<close>

datatype read_turn = Read_Data bytes | Read_Interrupted | Read_Nothing | Read_Error

fun read_master :: "read_turn list \<Rightarrow> (read_turn \<times> read_turn list) option" where
  "read_master [] = None"
| "read_master (Read_Interrupted # turns) = read_master turns"
| "read_master (t # turns) = Some (t, turns)"

text \<open>The bytes of one read that fit behind those already there; the others are dropped.\<close>

definition append_input :: "bytes \<Rightarrow> uci_sim_chardev \<Rightarrow> uci_sim_chardev" where
  "append_input buf dev =
     (let copy_len = (if length (cd_stream dev) + length buf > UCI_SIM_MAX_PACKET
                      then UCI_SIM_MAX_PACKET - length (cd_stream dev) else length buf)
      in dev\<lparr>cd_stream := cd_stream dev @ take copy_len buf\<rparr>)"

definition uci_sim_chardev_process_input ::
    "uci_sim_chardev \<Rightarrow> read_turn list \<Rightarrow> write_turn list
       \<Rightarrow> (rc \<times> uci_sim_chardev \<times> read_turn list \<times> write_turn list) option" where
  "uci_sim_chardev_process_input dev reads writes =
     (let flush = (\<lambda>d rest. map_option (\<lambda>(c, d', ws). (c, d', rest, ws)) (master_flush d writes))
      in case read_master reads of
           None \<Rightarrow> None
         | Some (Read_Nothing, rest) \<Rightarrow> flush dev rest
         | Some (Read_Data bs, rest) \<Rightarrow>
             if bs = [] then Some (RC_FAIL, dev, rest, writes)
             else
               let (c, dev1) = stream_feed_to_engine (append_input (take UCI_SIM_MAX_PACKET bs) dev)
               in if c \<noteq> RC_OK then Some (RC_FAIL, dev1, rest, writes) else flush dev1 rest
         | Some (_, rest) \<Rightarrow> Some (RC_FAIL, dev, rest, writes))"

definition uci_sim_chardev_inject ::
    "uci_sim_chardev \<Rightarrow> bytes \<Rightarrow> write_turn list \<Rightarrow> (nat option \<times> uci_sim_chardev \<times> write_turn list) option" where
  "uci_sim_chardev_inject dev data writes =
     (if data = [] then Some (None, dev, writes)
      else map_option (\<lambda>(c, out, rest).
             (if c = RC_OK then Some (length data) else None, dev\<lparr>cd_written := cd_written dev @ out\<rparr>, rest))
           (write_all data writes))"


subsection \<open>Writing\<close>

lemma write_all_spec:
  "write_all wire turns = Some (c, out, rest) \<Longrightarrow> \<exists>r. wire = out @ r \<and> (c = RC_OK \<longleftrightarrow> r = [])"
proof (induction wire turns arbitrary: c out rest rule: write_all.induct)
  case (3 b wire n turns)
  show ?case
  proof (cases "n = 0")
    case True
    with "3.prems" show ?thesis by auto
  next
    case False
    with "3.prems" obtain out' where o: "write_all (drop n (b # wire)) turns = Some (c, out', rest)"
        "out = take n (b # wire) @ out'" by auto
    from "3.IH" [OF False o(1)] obtain r where r: "drop n (b # wire) = out' @ r" "c = RC_OK \<longleftrightarrow> r = []" by blast
    have "b # wire = take n (b # wire) @ drop n (b # wire)" by simp
    also have "\<dots> = out @ r" by (simp add: r(1) o(2))
    finally show ?thesis using r(2) by blast
  qed
qed auto

lemma flush_packets_step:
  "uci_sim_engine_dequeue_outbound_packet e = Some (p, e') \<Longrightarrow> flush_packets e turns =
     (case uci_sim_packet_serialize p UCI_SIM_MAX_PACKET of
        None \<Rightarrow> Some (RC_FAIL, [], e', turns)
      | Some wire \<Rightarrow>
          (case write_all wire turns of
             None \<Rightarrow> None
           | Some (RC_FAIL, out, rest) \<Rightarrow> Some (RC_FAIL, out, e', rest)
           | Some (RC_OK, out, rest) \<Rightarrow>
               map_option (\<lambda>(c, out', e'', rest'). (c, out @ out', e'', rest')) (flush_packets e' rest)))"
  by (subst flush_packets.simps) simp

text \<open>Two packets of the queue serialize, one after the other, as the whole queue does.\<close>

fun serialize_all :: "uci_sim_packet list \<Rightarrow> bytes option" where
  "serialize_all [] = Some []"
| "serialize_all (p # ps) =
     (case (uci_sim_packet_serialize p UCI_SIM_MAX_PACKET, serialize_all ps) of
        (Some w, Some ws) \<Rightarrow> Some (w @ ws) | _ \<Rightarrow> None)"

lemma flush_packets_spec:
  "flush_packets e turns = Some (c, out, e', rest) \<Longrightarrow>
   (\<exists>k. outbound_packets e' = drop k (outbound_packets e)) \<and> device e' = device e
   \<and> (c = RC_OK \<longrightarrow> outbound_packets e' = [] \<and> serialize_all (outbound_packets e) = Some out)"
proof (induction e turns arbitrary: c out e' rest rule: flush_packets.induct)
  case (1 e turns)
  show ?case
  proof (cases "uci_sim_engine_dequeue_outbound_packet e")
    case None
    then have "outbound_packets e = []" by (simp add: outbound.get_None_iff)
    with None "1.prems" show ?thesis by (simp add: flush_packets.simps [of e turns])
  next
    case (Some x)
    obtain p e1 where x: "x = (p, e1)" by (cases x)
    note deq = Some [unfolded x]
    have e1: "outbound_packets e = p # outbound_packets e1" "device e1 = device e"
      using outbound.get_SomeD [OF deq] dequeue_outbound_device [OF deq] by simp_all
    note step = flush_packets_step [OF deq, of turns]
    show ?thesis
    proof (cases "uci_sim_packet_serialize p UCI_SIM_MAX_PACKET")
      case None
      with "1.prems" step have "e' = e1" "c = RC_FAIL" by simp_all
      with e1 show ?thesis by (auto intro: exI [of _ 1])
    next
      case ser: (Some wire)
      obtain c1 out1 rest1 where wr: "write_all wire turns = Some (c1, out1, rest1)"
        using "1.prems" unfolding step ser by (cases "write_all wire turns") auto
      show ?thesis
      proof (cases c1)
        case RC_FAIL
        with "1.prems" step ser wr have "e' = e1" "c = RC_FAIL" by simp_all
        with e1 show ?thesis by (auto intro: exI [of _ 1])
      next
        case RC_OK
        have "flush_packets e turns =
            map_option (\<lambda>(c, out', e'', rest'). (c, out1 @ out', e'', rest')) (flush_packets e1 rest1)"
          unfolding step using ser wr RC_OK by simp
        with "1.prems" obtain out2 where
          flush: "flush_packets e1 rest1 = Some (c, out2, e', rest)" "out = out1 @ out2" by auto
        from "1.IH" [OF deq refl ser wr refl RC_OK refl flush(1)] have IH:
          "(\<exists>k. outbound_packets e' = drop k (outbound_packets e1)) \<and> device e' = device e1
           \<and> (c = RC_OK \<longrightarrow> outbound_packets e' = [] \<and> serialize_all (outbound_packets e1) = Some out2)" .
        then have "\<exists>k. outbound_packets e' = drop k (outbound_packets e)" using e1(1) by (metis drop_Suc_Cons)
        moreover have "out1 = wire" using write_all_spec [OF wr] RC_OK by simp
        ultimately show ?thesis using IH e1 flush(2) ser by auto
      qed
    qed
  qed
qed


subsection \<open>When the master takes everything\<close>

fun takes :: "write_turn \<Rightarrow> bool" where
  "takes (Written n) = (n \<noteq> 0)"
| "takes Write_Interrupted = True"
| "takes Write_Failed = False"

fun is_written :: "write_turn \<Rightarrow> bool" where
  "is_written (Written n) = True" | "is_written t = False"

definition written :: "write_turn list \<Rightarrow> nat" where
  "written turns = length (filter is_written turns)"

lemma written_simps [simp]: "written [] = 0" "written (t # ts) = (if is_written t then Suc (written ts) else written ts)"
  by (simp_all add: written_def)

lemma write_all_returns:
  "list_all takes turns \<Longrightarrow> length wire \<le> written turns \<Longrightarrow>
   \<exists>rest. write_all wire turns = Some (RC_OK, wire, rest) \<and> list_all takes rest
     \<and> written turns \<le> written rest + length wire"
proof (induction wire turns rule: write_all.induct)
  case (3 b wire n turns)
  then have n: "n \<noteq> 0" by simp
  with 3 obtain rest where "write_all (drop n (b # wire)) turns = Some (RC_OK, drop n (b # wire), rest)"
      "list_all takes rest" "written turns \<le> written rest + length (drop n (b # wire))"
    by fastforce
  with n show ?case by auto
qed auto

lemma flush_packets_returns:
  assumes "list_all takes turns" and "serialize_all (outbound_packets e) = Some bs" and "length bs \<le> written turns"
  shows "\<exists>rest. flush_packets e turns = Some (RC_OK, bs, e\<lparr>outbound_packets := []\<rparr>, rest)"
  using assms
proof (induction "outbound_packets e" arbitrary: e turns bs)
  case Nil
  then have "uci_sim_engine_dequeue_outbound_packet e = None" by (simp add: outbound.get_None_iff)
  moreover have "e\<lparr>outbound_packets := []\<rparr> = e" using Nil(1) by simp
  ultimately show ?case using Nil.prems(2) Nil(1) by (simp add: flush_packets.simps [of e turns] flip: Nil(1))
next
  case (Cons p ps)
  let ?e = "e\<lparr>outbound_packets := ps\<rparr>"
  have deq: "uci_sim_engine_dequeue_outbound_packet e = Some (p, ?e)"
    by (simp add: uci_sim_engine_dequeue_outbound_packet_def flip: Cons.hyps(2))
  from Cons.prems(2) obtain w ws where w: "uci_sim_packet_serialize p UCI_SIM_MAX_PACKET = Some w"
      "serialize_all ps = Some ws" "bs = w @ ws"
    unfolding Cons.hyps(2) [symmetric] by (auto split: option.splits)
  have "length w \<le> written turns" using Cons.prems(3) w(3) by simp
  from write_all_returns [OF Cons.prems(1) this] obtain rest where
    r: "write_all w turns = Some (RC_OK, w, rest)" "list_all takes rest" "written turns \<le> written rest + length w" by blast
  have "length ws \<le> written rest" using Cons.prems(3) r(3) w(3) by simp
  with Cons.hyps(1) [of ?e rest ws] r(2) w(2) obtain rest' where
    "flush_packets ?e rest = Some (RC_OK, ws, ?e\<lparr>outbound_packets := []\<rparr>, rest')" by auto
  then show ?case using w r(1) by (simp add: flush_packets_step [OF deq])
qed

lemma serialize_all_defined:
  assumes "\<forall>p\<in>set ps. mt p \<noteq> UCI_MT_DATA \<and> payload_len p \<le> 255"
  obtains bs where "serialize_all ps = Some bs" and "length bs \<le> 259 * length ps"
proof -
  have "\<exists>bs. serialize_all ps = Some bs \<and> length bs \<le> 259 * length ps"
    using assms
  proof (induction ps)
    case (Cons p ps)
    from Cons.prems have "\<exists>w. uci_sim_packet_serialize p UCI_SIM_MAX_PACKET = Some w"
      by (simp add: serialize_Some_iff)
    then obtain w where w: "uci_sim_packet_serialize p UCI_SIM_MAX_PACKET = Some w" by blast
    from Cons obtain bs where "serialize_all ps = Some bs" "length bs \<le> 259 * length ps" by auto
    with w serialize_length [OF w] Cons.prems show ?case by simp
  qed simp
  with that show thesis by blast
qed

subsection \<open>Feeding in pieces\<close>

lemma stream_length_prefix:
  "UCI_SIM_HEADER_SIZE \<le> length bs \<Longrightarrow> stream_payload_length (bs @ late) = stream_payload_length bs"
  by (auto simp: stream_payload_length_def nth_append)

text \<open>A stream with no complete packet at its front, and none that is refused.\<close>

definition partial :: "bytes \<Rightarrow> bool" where
  "partial bs \<longleftrightarrow> length bs < UCI_SIM_HEADER_SIZE
     \<or> stream_payload_length bs \<le> 255 \<and> length bs < UCI_SIM_HEADER_SIZE + stream_payload_length bs"

lemma partial_bound: "partial bs \<Longrightarrow> length bs < UCI_SIM_HEADER_SIZE + 255"
  by (auto simp: partial_def)

lemma feed_partial: "partial bs \<Longrightarrow> feed_loop bs k e = (RC_OK, k, e)"
  by (auto simp: partial_def feed_loop.simps [of bs k e])

text \<open>
  Feeding more bytes after a round gives what one round over all of them gives: where the
  host's writes are cut does not matter.
\<close>

lemma feed_append:
  "feed_loop bs k e = (RC_OK, k', e') \<Longrightarrow>
     feed_loop (bs @ late) k e = feed_loop (drop (k' - k) bs @ late) k' e'
     \<and> k \<le> k' \<and> k' - k \<le> length bs \<and> partial (drop (k' - k) bs)"
proof (induction bs k e rule: feed_loop.induct)
  case (1 bs k e)
  let ?n = "UCI_SIM_HEADER_SIZE + stream_payload_length bs"
  show ?case
  proof (cases "partial bs")
    case True
    with "1.prems" feed_partial have "k' = k" "e' = e" by simp_all
    with True show ?thesis by simp
  next
    case False
    note whole = False [unfolded partial_def]
    have len: "UCI_SIM_HEADER_SIZE \<le> length bs" using whole by simp
    have small: "\<not> stream_payload_length bs > 255"
      using "1.prems" len by (auto simp: feed_loop.simps [of bs k e])
    have all: "?n \<le> length bs" using whole small by simp
    obtain pkt where pkt: "uci_sim_packet_parse (take ?n bs) = Some pkt"
      using "1.prems" len small all by (auto simp: feed_loop.simps [of bs k e] split: option.splits)
    obtain c e1 where sub: "uci_sim_engine_submit_packet e pkt = (c, e1)"
      by (cases "uci_sim_engine_submit_packet e pkt")
    have c: "c = RC_OK"
      using "1.prems" len small all pkt sub by (cases c) (auto simp: feed_loop.simps [of bs k e])
    have step: "feed_loop bs k e = feed_loop (drop ?n bs) (k + ?n) e1"
      using len small all pkt sub c by (simp add: feed_loop.simps [of bs k e] add.assoc)
    have step': "feed_loop (bs @ late) k e = feed_loop (drop ?n bs @ late) (k + ?n) e1"
      using len small all pkt sub c
      by (simp add: feed_loop.simps [of "bs @ late" k e] stream_length_prefix [OF len] add.assoc)
    have "feed_loop (drop ?n bs) (k + UCI_SIM_HEADER_SIZE + stream_payload_length bs) e1 = (RC_OK, k', e')"
      using step "1.prems" by (simp add: add.assoc)
    from "1.IH" [OF _ small _ pkt sub [symmetric] c this] len all
    have IH: "feed_loop (drop ?n bs @ late) (k + ?n) e1 = feed_loop (drop (k' - (k + ?n)) (drop ?n bs) @ late) k' e'"
        "k + ?n \<le> k'" "k' - (k + ?n) \<le> length (drop ?n bs)" "partial (drop (k' - (k + ?n)) (drop ?n bs))"
      by (auto simp: add.assoc)
    have "drop (k' - (k + ?n)) (drop ?n bs) = drop (k' - k) bs" using IH(2) by simp
    with IH step' all show ?thesis by simp
  qed
qed

subsection \<open>Complete packets reach the engine in order\<close>

fun submit_all :: "uci_sim_engine \<Rightarrow> uci_sim_packet list \<Rightarrow> rc \<times> uci_sim_engine" where
  "submit_all e [] = (RC_OK, e)"
| "submit_all e (p # ps) =
     (case uci_sim_engine_submit_packet e p of
        (RC_FAIL, e') \<Rightarrow> (RC_FAIL, e')
      | (RC_OK, e') \<Rightarrow> submit_all e' ps)"

lemma stream_length_packet:
  assumes "uci_sim_packet_parse buffer = Some p"
  shows "stream_payload_length buffer = payload_len p"
proof -
  have "mt p = drop_bit 5 (buffer ! 0) AND 0x03"
    "payload_len p = unat (payload_length_from_header (mt p) (buffer ! 2) (buffer ! 3))"
    using assms unfolding parse_Some_nth by blast+
  then show ?thesis
    by (simp add: stream_payload_length_def payload_length_from_header_def unsigned_ucast_eq)
qed

lemma feed_frame:
  assumes ok: "packet_ok p" and small: "payload_len p \<le> 255"
    and w: "uci_sim_packet_serialize p UCI_SIM_MAX_PACKET = Some w"
  shows "feed_loop (w @ rest) k e =
    (case uci_sim_engine_submit_packet e p of
       (RC_FAIL, e') \<Rightarrow> (RC_FAIL, k, e')
     | (RC_OK, e') \<Rightarrow> feed_loop rest (k + length w) e')"
proof -
  have len: "length w = UCI_SIM_HEADER_SIZE + payload_len p" using serialize_length [OF w] .
  have sl: "stream_payload_length (w @ rest) = payload_len p"
    by (rule stream_length_packet [OF parse_serialize [OF ok w]])
  have "uci_sim_packet_parse w = Some p" using parse_serialize [OF ok w, of "[]"] by simp
  then show ?thesis
    using sl len small by (simp add: feed_loop.simps [of "w @ rest" k e] add.assoc split: prod.splits rc.splits)
qed

lemma feed_frames:
  "\<lbrakk> \<forall>p\<in>set ps. packet_ok p \<and> payload_len p \<le> 255; serialize_all ps = Some ws;
     submit_all e ps = (RC_OK, e'); partial rest \<rbrakk>
   \<Longrightarrow> feed_loop (ws @ rest) k e = (RC_OK, k + length ws, e')"
proof (induction ps arbitrary: ws e k)
  case Nil
  then show ?case by (simp add: feed_partial)
next
  case (Cons p ps)
  obtain w ws' where ser: "uci_sim_packet_serialize p UCI_SIM_MAX_PACKET = Some w" "serialize_all ps = Some ws'"
      "ws = w @ ws'" using Cons.prems(2) by (auto split: option.splits)
  obtain e1 where sub: "uci_sim_engine_submit_packet e p = (RC_OK, e1)" "submit_all e1 ps = (RC_OK, e')"
    using Cons.prems(3) by (auto split: prod.splits rc.splits)
  have "feed_loop (w @ ws' @ rest) k e = feed_loop (ws' @ rest) (k + length w) e1"
    using feed_frame [OF _ _ ser(1), of "ws' @ rest" k e] Cons.prems(1) sub(1) by simp
  also have "\<dots> = (RC_OK, k + length w + length ws', e')"
    using Cons.IH [OF _ ser(2) sub(2) Cons.prems(4)] Cons.prems(1) by simp
  finally show ?case by (simp add: ser(3) add.assoc)
qed


subsection \<open>What a turn keeps\<close>

definition chardev_inv :: "uci_sim_chardev \<Rightarrow> bool" where
  "chardev_inv dev \<longleftrightarrow> engine_inv (cd_engine dev) \<and> length (cd_stream dev) \<le> UCI_SIM_MAX_PACKET"

lemma feed_loop_inv:
  "engine_inv e \<Longrightarrow> engine_inv (snd (snd (feed_loop bs k e)))"
proof (induction bs k e rule: feed_loop.induct)
  case (1 bs k e)
  let ?n = "UCI_SIM_HEADER_SIZE + stream_payload_length bs"
  show ?case
  proof (cases "UCI_SIM_HEADER_SIZE \<le> length bs \<and> stream_payload_length bs \<le> 255 \<and> ?n \<le> length bs
      \<and> uci_sim_packet_parse (take ?n bs) \<noteq> None")
    case False
    with "1.prems" show ?thesis by (auto simp: feed_loop.simps [of bs k e])
  next
    case True
    then obtain pkt where pkt: "uci_sim_packet_parse (take ?n bs) = Some pkt" by blast
    obtain c e1 where sub: "uci_sim_engine_submit_packet e pkt = (c, e1)"
      by (cases "uci_sim_engine_submit_packet e pkt")
    have e1: "engine_inv e1" using submit_inv [OF "1.prems" sub] by simp
    show ?thesis
    proof (cases c)
      case RC_FAIL
      with True pkt sub e1 show ?thesis by (simp add: feed_loop.simps [of bs k e])
    next
      case RC_OK
      from "1.IH" [OF _ _ _ pkt sub [symmetric] RC_OK e1] True RC_OK pkt sub show ?thesis
        by (simp add: feed_loop.simps [of bs k e])
    qed
  qed
qed

lemma stream_feed_inv:
  assumes "chardev_inv dev" and "stream_feed_to_engine dev = (c, dev')"
  shows "chardev_inv dev' \<and> (c = RC_OK \<longrightarrow> partial (cd_stream dev'))"
proof -
  obtain c1 k e where f: "feed_loop (cd_stream dev) 0 (cd_engine dev) = (c1, k, e)"
    by (cases "feed_loop (cd_stream dev) 0 (cd_engine dev)") auto
  have "engine_inv e" using feed_loop_inv [of "cd_engine dev" "cd_stream dev" 0] f assms(1)
    by (simp add: chardev_inv_def)
  moreover have "partial (drop k (cd_stream dev))" if "c1 = RC_OK"
    using feed_append [of "cd_stream dev" 0 _ k e "[]"] f that by simp
  ultimately show ?thesis
    using assms f by (auto simp: stream_feed_to_engine_def chardev_inv_def split: if_splits)
qed

lemma append_input_inv: "chardev_inv dev \<Longrightarrow> chardev_inv (append_input buf dev)"
  by (simp add: append_input_def chardev_inv_def Let_def)

lemma master_flush_inv:
  assumes "chardev_inv dev" and "master_flush dev turns = Some (c, dev', rest)"
  shows "chardev_inv dev' \<and> cd_stream dev' = cd_stream dev"
proof -
  from assms(2) obtain out e where f: "flush_packets (cd_engine dev) turns = Some (c, out, e, rest)"
      "dev' = dev\<lparr>cd_engine := e, cd_written := cd_written dev @ out\<rparr>" by (auto simp: master_flush_def)
  from flush_packets_spec [OF f(1)] obtain k where "outbound_packets e = drop k (outbound_packets (cd_engine dev))"
      "device e = device (cd_engine dev)" by blast
  then have "engine_inv e" using assms(1) by (auto simp: chardev_inv_def engine_inv_def dest: in_set_dropD)
  with assms(1) f(2) show ?thesis by (simp add: chardev_inv_def)
qed

lemma process_input_inv:
  assumes inv: "chardev_inv dev"
    and out: "uci_sim_chardev_process_input dev reads writes = Some (c, dev', rest, ws)"
  shows "chardev_inv dev'"
proof -
  obtain t rd where rd: "read_master reads = Some (t, rd)"
    using out by (cases "read_master reads") (auto simp: uci_sim_chardev_process_input_def)
  show ?thesis
  proof (cases "\<exists>bs. t = Read_Data bs \<and> bs \<noteq> []")
    case False
    with out rd inv master_flush_inv [OF inv] show ?thesis
      by (cases t) (auto simp: uci_sim_chardev_process_input_def)
  next
    case True
    then obtain bs where bs: "t = Read_Data bs" "bs \<noteq> []" by blast
    obtain c1 dev1 where feed: "stream_feed_to_engine (append_input (take UCI_SIM_MAX_PACKET bs) dev) = (c1, dev1)"
      by (cases "stream_feed_to_engine (append_input (take UCI_SIM_MAX_PACKET bs) dev)")
    have "chardev_inv dev1" using stream_feed_inv [OF append_input_inv [OF inv] feed] by simp
    with out rd bs feed show ?thesis
      using master_flush_inv [of dev1] by (auto simp: uci_sim_chardev_process_input_def split: if_splits)
  qed
qed

text \<open>A command that arrives in one read on an empty stream goes to the engine, and the turn ends with a flush.\<close>

lemma process_input_command:
  assumes idle: "cd_stream dev = []" and cmd: "packet_ok p" "mt p = UCI_MT_COMMAND"
    and wire: "uci_sim_packet_serialize p UCI_SIM_MAX_PACKET = Some w"
    and sub: "uci_sim_engine_submit_packet (cd_engine dev) p = (RC_OK, e)"
  shows "uci_sim_chardev_process_input dev [Read_Data w] writes =
    map_option (\<lambda>(c, d', ws). (c, d', [], ws)) (master_flush (dev\<lparr>cd_engine := e, cd_stream := []\<rparr>) writes)"
proof -
  let ?e = "cd_engine dev"
  have small: "payload_len p \<le> 255" using cmd by (simp add: packet_ok_def)
  have len: "length w = UCI_SIM_HEADER_SIZE + payload_len p" using serialize_length [OF wire] .
  have "length w \<le> UCI_SIM_MAX_PACKET" using len small by simp
  then have tk: "take UCI_SIM_MAX_PACKET w = w" by (rule take_all)
  have app: "append_input w dev = dev\<lparr>cd_stream := w\<rparr>"
    using idle(1) len small by (simp add: append_input_def Let_def)
  have feed: "feed_loop w 0 ?e = (RC_OK, length w, e)"
    using feed_frame [OF cmd(1) small wire, of "[]" 0 ?e] sub feed_partial [of "[]"]
    by (simp add: partial_def)
  have "w \<noteq> []" using len by auto
  then show ?thesis
    unfolding uci_sim_chardev_process_input_def Let_def
    by (simp only: tk app read_master.simps option.case prod.case read_turn.case if_False)
      (simp add: stream_feed_to_engine_def feed Let_def)
qed

text \<open>
  The answer and the notifications behind it are written when they fit the wire; an answer that
  does not fit is taken from the queue and never written.
\<close>

lemma process_input_answers:
  assumes inv: "chardev_inv dev" and idle: "cd_stream dev = []" "outbound_packets (cd_engine dev) = []"
    and direct: "\<not> uci_sim_scenario_should_defer_notification (dev_scenario (device (cd_engine dev)))"
    and cmd: "packet_ok p" "mt p = UCI_MT_COMMAND"
    and wire: "uci_sim_packet_serialize p UCI_SIM_MAX_PACKET = Some w"
    and turns: "list_all takes writes" "259 * UCI_SIM_MAX_OUTBOUND_PACKETS \<le> written writes"
  shows "\<exists>a ns dev' ws. is_answer p a
    \<and> outbound_packets (snd (uci_sim_engine_submit_packet (cd_engine dev) p)) = a # ns
    \<and> (if payload_len a \<le> 255
       then \<exists>bs. serialize_all (a # ns) = Some bs
         \<and> uci_sim_chardev_process_input dev [Read_Data w] writes = Some (RC_OK, dev', [], ws)
         \<and> cd_written dev' = cd_written dev @ bs \<and> cd_stream dev' = [] \<and> outbound_packets (cd_engine dev') = []
       else uci_sim_chardev_process_input dev [Read_Data w] writes = Some (RC_FAIL, dev', [], ws)
         \<and> cd_written dev' = cd_written dev \<and> cd_stream dev' = [] \<and> outbound_packets (cd_engine dev') = ns)"
proof -
  have e: "engine_inv (cd_engine dev)" using inv by (simp add: chardev_inv_def)
  from submit_command_accepted [OF e cmd(2) idle(2) direct] obtain a ns e1 where
    sub: "uci_sim_engine_submit_packet (cd_engine dev) p = (RC_OK, e1)"
    and out: "outbound_packets e1 = a # ns" and a: "is_answer p a" and ns: "\<forall>n\<in>set ns. notification_ok n" .
  have "length (outbound_packets e1) \<le> UCI_SIM_MAX_OUTBOUND_PACKETS"
    using submit_inv [OF e sub] by (simp add: engine_inv_def)
  then have len: "length (a # ns) \<le> UCI_SIM_MAX_OUTBOUND_PACKETS" using out by simp
  note turn = process_input_command [OF idle(1) cmd wire sub, of writes]
  show ?thesis
  proof (cases "payload_len a \<le> 255")
    case True
    have "\<forall>q\<in>set (a # ns). mt q \<noteq> UCI_MT_DATA \<and> payload_len q \<le> 255"
      using a ns True by (auto simp: is_answer_def notification_ok_def packet_ok_def)
    then obtain bs where bs: "serialize_all (a # ns) = Some bs" "length bs \<le> 259 * length (a # ns)"
      by (rule serialize_all_defined)
    have "length bs \<le> 259 * UCI_SIM_MAX_OUTBOUND_PACKETS" using bs(2) len by linarith
    then have "length bs \<le> written writes" using turns(2) by linarith
    from flush_packets_returns [OF turns(1) _ this, of e1] bs(1) out obtain rest where
      "flush_packets e1 writes = Some (RC_OK, bs, e1\<lparr>outbound_packets := []\<rparr>, rest)" by auto
    with turn sub out a bs(1) True show ?thesis
      by (intro exI [of _ a] exI [of _ ns]) (simp add: master_flush_def)
  next
    case False
    have deq: "uci_sim_engine_dequeue_outbound_packet e1 = Some (a, e1\<lparr>outbound_packets := ns\<rparr>)"
      using out by (simp add: uci_sim_engine_dequeue_outbound_packet_def)
    have "uci_sim_packet_serialize a UCI_SIM_MAX_PACKET = None"
      using False a serialize_Some_iff [of a UCI_SIM_MAX_PACKET] by (auto simp: is_answer_def)
    then have "flush_packets e1 writes = Some (RC_FAIL, [], e1\<lparr>outbound_packets := ns\<rparr>, writes)"
      by (simp add: flush_packets_step [OF deq])
    with turn sub out a False show ?thesis
      by (intro exI [of _ a] exI [of _ ns]) (simp add: master_flush_def)
  qed
qed

text \<open>The count of consumed bytes is only carried along.\<close>

lemma feed_shift:
  "feed_loop bs (j + k) e = (case feed_loop bs k e of (c, n, e') \<Rightarrow> (c, j + n, e'))"
proof (induction bs k e rule: feed_loop.induct)
  case (1 bs k e)
  let ?n = "UCI_SIM_HEADER_SIZE + stream_payload_length bs"
  show ?case
  proof (cases "UCI_SIM_HEADER_SIZE \<le> length bs \<and> stream_payload_length bs \<le> 255 \<and> ?n \<le> length bs")
    case False
    then show ?thesis by (auto simp: feed_loop.simps [of bs])
  next
    case True
    show ?thesis
    proof (cases "uci_sim_packet_parse (take ?n bs)")
      case None
      with True show ?thesis by (simp add: feed_loop.simps [of bs])
    next
      case (Some pkt)
      obtain c e1 where sub: "uci_sim_engine_submit_packet e pkt = (c, e1)"
        by (cases "uci_sim_engine_submit_packet e pkt")
      show ?thesis
      proof (cases c)
        case RC_FAIL
        with True Some sub show ?thesis by (simp add: feed_loop.simps [of bs])
      next
        case RC_OK
        from "1.IH" [OF _ _ _ Some sub [symmetric] RC_OK] True
        have "feed_loop (drop ?n bs) (j + (k + ?n)) e1 =
            (case feed_loop (drop ?n bs) (k + ?n) e1 of (c, n, e') \<Rightarrow> (c, j + n, e'))"
          by (simp add: add.assoc)
        with True Some sub RC_OK show ?thesis by (simp add: feed_loop.simps [of bs] add.assoc)
      qed
    qed
  qed
qed

text \<open>A command of an unknown group, for trying things on: it is refused and reported.\<close>

definition unknown_command :: uci_sim_packet where
  "unknown_command = \<lparr>mt = UCI_MT_COMMAND, pbf = 0, gid = 9, oid = 5, payload = [1]\<rparr>"

definition boot_engine :: uci_sim_engine where
  "boot_engine = uci_sim_engine_init_with_profile (Some uci_sim_default_profile) UCI_SIM_SCENARIO_DEFAULT"

definition unknown_answers :: "uci_sim_packet list" where
  "unknown_answers =
     [\<lparr>mt = UCI_MT_RESPONSE, pbf = 0, gid = 9, oid = 5, payload = [UCI_STATUS_UNKNOWN_GID]\<rparr>,
      generic_error UCI_STATUS_UNKNOWN_GID]"

lemma submit_unknown:
  "uci_sim_engine_submit_packet boot_engine unknown_command =
     (RC_OK, boot_engine\<lparr>outbound_packets := unknown_answers\<rparr>)"
proof -
  let ?d = "uci_sim_device_init_with_profile (Some uci_sim_default_profile) UCI_SIM_SCENARIO_DEFAULT"
  have d: "dev_scenario ?d = UCI_SIM_SCENARIO_DEFAULT" "scheduled_events ?d = []" "pending_notifications ?d = []"
    by (simp_all add: uci_sim_device_init_with_profile_def apply_profile_defaults_def zero_device_def)
  have "uci_sim_device_handle_packet ?d unknown_command = (RC_FAIL, ?d,
      \<lparr>response = Some (unknown_answers ! 0), notification = Some (unknown_answers ! 1)\<rparr>)"
    by (simp add: uci_sim_device_handle_packet_def unknown_command_def dispatch_command_def refuse_def
        make_status_response_def respond_def emit_core_generic_error_ntf_def deliver_def
        uci_sim_device_deliver_notification_def uci_sim_scenario_should_defer_notification_def d init_result_def
        payload_len_def uci_sim_device_finalize_result_def unknown_answers_def generic_error_def)
  then show ?thesis
    by (simp add: boot_engine_def uci_sim_engine_init_with_profile_def uci_sim_engine_submit_packet_def
        queue_present_def queue_outbound_packet_def unknown_answers_def flush_device_notifications_def
        flush_loop.simps uci_sim_device_dequeue_notification_def d uci_sim_engine_tick_def
        uci_sim_device_tick_events_def uci_sim_device_dequeue_ready_event_def Let_def)
qed

lemma boot_engine_inv: "engine_inv boot_engine"
  unfolding boot_engine_def by (rule init_engine_inv [OF default_profile_ok])

lemma unknown_wire:
  "uci_sim_packet_serialize unknown_command UCI_SIM_MAX_PACKET = Some [0x29, 5, 0, 1, 1]"
  by code_simp

lemma partial_header [simp]: "partial []" "partial [b]" "partial [b, b']"
  by (simp_all add: partial_def)

lemma feed_unknown:
  "partial rest \<Longrightarrow> feed_loop ([0x29, 5, 0, 1, 1] @ rest) 0 boot_engine =
     (RC_OK, 5, boot_engine\<lparr>outbound_packets := unknown_answers\<rparr>)"
  using feed_frame [OF _ _ unknown_wire, of rest 0 boot_engine] submit_unknown feed_partial
  by (simp add: packet_ok_def unknown_command_def payload_len_def)

subsection \<open>Properties\<close>

text \<open>
  C26. Where the host's writes are cut does not matter: feeding a stream, keeping its tail and
  feeding more later gives the same engine as feeding everything at once.
\<close>

theorem feed_in_pieces:
  assumes "feed_loop bs 0 e = (RC_OK, k, e1)" and "feed_loop (drop k bs @ rest) 0 e1 = (RC_OK, k', e')"
  shows "\<exists>n. feed_loop (bs @ rest) 0 e = (RC_OK, n, e') \<and> drop n (bs @ rest) = drop k' (drop k bs @ rest)"
proof -
  have whole: "feed_loop (bs @ rest) 0 e = feed_loop (drop k bs @ rest) k e1" and k: "k \<le> length bs"
    using feed_append [OF assms(1), of rest] by simp_all
  have "feed_loop (drop k bs @ rest) (k + 0) e1 = (RC_OK, k + k', e')"
    using feed_shift [of "drop k bs @ rest" k 0 e1] assms(2) by simp
  then show ?thesis
    using whole k by (intro exI [of _ "k + k'"]) (simp add: drop_append add.commute)
qed

lemma feed_in_pieces_witness:
  "\<exists>n. feed_loop [0x29, 5, 0, 1, 1, 0x29] 0 boot_engine =
      (RC_OK, n, boot_engine\<lparr>outbound_packets := unknown_answers\<rparr>) \<and> drop n [0x29, 5, 0, 1, 1, 0x29 :: u8] = [0x29]"
proof -
  have first: "feed_loop [0x29, 5] 0 boot_engine = (RC_OK, 0, boot_engine)" by (simp add: feed_partial)
  have "feed_loop (drop 0 [0x29, 5] @ [0, 1, 1, 0x29]) 0 boot_engine =
      (RC_OK, 5, boot_engine\<lparr>outbound_packets := unknown_answers\<rparr>)"
    using feed_unknown [of "[0x29]"] by simp
  from feed_in_pieces [OF first this] show ?thesis by simp
qed

text \<open>
  C27. Complete packets of at most 255 payload bytes reach the engine in the order of the stream,
  each once, and an incomplete tail waits for more bytes.
\<close>

theorem packets_fed_in_order:
  assumes "\<forall>p\<in>set ps. packet_ok p \<and> payload_len p \<le> 255" and "serialize_all ps = Some ws"
    and "submit_all e ps = (RC_OK, e')" and "partial rest"
  shows "feed_loop (ws @ rest) 0 e = (RC_OK, length ws, e')"
  using feed_frames [OF assms, of 0] by simp

lemma packets_fed_in_order_witness:
  "feed_loop ([0x29, 5, 0, 1, 1] @ [0x20]) 0 boot_engine =
     (RC_OK, 5, boot_engine\<lparr>outbound_packets := unknown_answers\<rparr>)"
proof -
  have "serialize_all [unknown_command] = Some [0x29, 5, 0, 1, 1]" using unknown_wire by simp
  moreover have "submit_all boot_engine [unknown_command] = (RC_OK, boot_engine\<lparr>outbound_packets := unknown_answers\<rparr>)"
    by (simp add: submit_unknown)
  moreover have "\<forall>p\<in>set [unknown_command]. packet_ok p \<and> payload_len p \<le> 255"
    by (simp add: packet_ok_def unknown_command_def payload_len_def)
  ultimately show ?thesis
    using packets_fed_in_order [of "[unknown_command]" "[0x29, 5, 0, 1, 1]" boot_engine _ "[0x20]"] by simp
qed

text \<open>
  C28. A command that arrives in one read on an idle PTY is taken in the same turn, in every
  scenario but the deferring one and with a master that takes at least a byte a write. The engine
  accepts it and queues its answer, of the command's group and opcode, before all notifications.
  When the answer has at most 255 bytes the turn succeeds and the master has been given the
  answer and all the notifications, byte for byte; a longer answer makes the turn fail with
  nothing written, and the answer is lost.
\<close>

theorem pty_command_answered:
  assumes "chardev_inv dev" and "cd_stream dev = []" and "outbound_packets (cd_engine dev) = []"
    and "\<not> uci_sim_scenario_should_defer_notification (dev_scenario (device (cd_engine dev)))"
    and "packet_ok p" and "mt p = UCI_MT_COMMAND"
    and "uci_sim_packet_serialize p UCI_SIM_MAX_PACKET = Some w"
    and "list_all takes writes" and "259 * UCI_SIM_MAX_OUTBOUND_PACKETS \<le> written writes"
  shows "\<exists>a ns dev' ws. is_answer p a
    \<and> outbound_packets (snd (uci_sim_engine_submit_packet (cd_engine dev) p)) = a # ns
    \<and> (if payload_len a \<le> 255
       then \<exists>bs. serialize_all (a # ns) = Some bs
         \<and> uci_sim_chardev_process_input dev [Read_Data w] writes = Some (RC_OK, dev', [], ws)
         \<and> cd_written dev' = cd_written dev @ bs \<and> cd_stream dev' = [] \<and> outbound_packets (cd_engine dev') = []
       else uci_sim_chardev_process_input dev [Read_Data w] writes = Some (RC_FAIL, dev', [], ws)
         \<and> cd_written dev' = cd_written dev \<and> cd_stream dev' = [] \<and> outbound_packets (cd_engine dev') = ns)"
  by (rule process_input_answers [OF assms])

lemma pty_command_answered_witness:
  "\<exists>dev' ws. uci_sim_chardev_process_input \<lparr>cd_engine = boot_engine, cd_stream = [], cd_written = []\<rparr>
      [Read_Data [0x29, 5, 0, 1, 1]] (Write_Interrupted # replicate 4144 (Written 9)) = Some (RC_OK, dev', [], ws)
    \<and> cd_written dev' = [0x49, 5, 0, 1, 7, 0x60, 7, 0, 1, 7]"
proof -
  let ?dev = "\<lparr>cd_engine = boot_engine, cd_stream = [], cd_written = []\<rparr>"
  let ?turns = "Write_Interrupted # replicate 4144 (Written 9)"
  have inv: "chardev_inv ?dev" by (simp add: chardev_inv_def boot_engine_inv)
  have ok: "packet_ok unknown_command" by (simp add: packet_ok_def unknown_command_def payload_len_def)
  have wires: "uci_sim_packet_serialize (unknown_answers ! 0) UCI_SIM_MAX_PACKET = Some [0x49, 5, 0, 1, 7]
      \<and> uci_sim_packet_serialize (unknown_answers ! 1) UCI_SIM_MAX_PACKET = Some [0x60, 7, 0, 1, 7]" by code_simp
  have len: "payload_len (unknown_answers ! 0) = 1" by (simp add: unknown_answers_def payload_len_def)
  have boot: "outbound_packets boot_engine = []" "dev_scenario (device boot_engine) = UCI_SIM_SCENARIO_DEFAULT"
    by (simp_all add: boot_engine_def uci_sim_engine_init_with_profile_def uci_sim_device_init_with_profile_def
        apply_profile_defaults_def zero_device_def)
  have turns: "list_all takes ?turns" "259 * UCI_SIM_MAX_OUTBOUND_PACKETS \<le> written ?turns"
    by (simp_all add: list_all_iff written_def)
  have answers: "unknown_answers = [unknown_answers ! 0, unknown_answers ! 1]" by (simp add: unknown_answers_def)
  have sub: "outbound_packets (snd (uci_sim_engine_submit_packet (cd_engine ?dev) unknown_command)) =
      [unknown_answers ! 0, unknown_answers ! 1]"
    using answers by (simp add: submit_unknown)
  have all: "serialize_all [unknown_answers ! 0, unknown_answers ! 1] = Some [0x49, 5, 0, 1, 7, 0x60, 7, 0, 1, 7]"
    using wires by simp
  have cmd: "mt unknown_command = UCI_MT_COMMAND" by (simp add: unknown_command_def)
  have direct: "\<not> uci_sim_scenario_should_defer_notification (dev_scenario (device (cd_engine ?dev)))"
    by (simp add: boot uci_sim_scenario_should_defer_notification_def)
  have empty: "cd_stream ?dev = []" "outbound_packets (cd_engine ?dev) = []" by (simp_all add: boot)
  have "\<exists>dev' ws. uci_sim_chardev_process_input ?dev [Read_Data [0x29, 5, 0, 1, 1]] writes = Some (RC_OK, dev', [], ws)
      \<and> cd_written dev' = [0x49, 5, 0, 1, 7, 0x60, 7, 0, 1, 7]"
    if w: "list_all takes writes" "259 * UCI_SIM_MAX_OUTBOUND_PACKETS \<le> written writes" for writes
  proof -
    from pty_command_answered [OF inv empty direct ok cmd unknown_wire w] obtain a ns dev' ws where
      r: "[unknown_answers ! 0, unknown_answers ! 1] = a # ns"
        "if payload_len a \<le> 255
         then \<exists>bs. serialize_all (a # ns) = Some bs
           \<and> uci_sim_chardev_process_input ?dev [Read_Data [0x29, 5, 0, 1, 1]] writes = Some (RC_OK, dev', [], ws)
           \<and> cd_written dev' = cd_written ?dev @ bs \<and> cd_stream dev' = [] \<and> outbound_packets (cd_engine dev') = []
         else uci_sim_chardev_process_input ?dev [Read_Data [0x29, 5, 0, 1, 1]] writes = Some (RC_FAIL, dev', [], ws)
           \<and> cd_written dev' = cd_written ?dev \<and> cd_stream dev' = [] \<and> outbound_packets (cd_engine dev') = ns"
      unfolding sub by blast
    then have "payload_len a \<le> 255" using len by simp
    with r all show ?thesis by (intro exI [of _ dev'] exI [of _ ws]) simp
  qed
  from this [OF turns] show ?thesis .
qed

end
