(* ===== verification/Programs.thy ===== *)
theory Programs
  imports Tcp_Run Chardev
begin

text \<open>
  The two programs, \<open>src/main.c\<close> (TCP) and \<open>src/main_chardev.c\<close> (PTY), with the set-up of their
  transports: how the command line becomes a scenario, an engine and a server, and what ends a
  run. What the system calls answer is an argument. The lemmas carry the invariants of the
  transports over whole runs, and show two behaviours end to end: a command that reaches the TCP
  server is answered within the turn, and a packet the engine refuses blocks the PTY for ever.
\<close>

subsection \<open>The command line\<close>

text \<open>
  \<open>strtoul(s, NULL, 10)\<close>: white space, a sign, digits; \<open>ULONG_MAX\<close> when the value does not fit,
  0 when there is no digit. Only the low 16 bits become the port.
\<close>

definition c_isspace :: "char \<Rightarrow> bool" where
  "c_isspace c \<longleftrightarrow> (let n = (of_char c :: nat) in n = 32 \<or> 9 \<le> n \<and> n \<le> 13)"

definition c_isdigit :: "char \<Rightarrow> bool" where
  "c_isdigit c \<longleftrightarrow> (let n = (of_char c :: nat) in 48 \<le> n \<and> n \<le> 57)"

definition strtoul10 :: "string \<Rightarrow> u64" where
  "strtoul10 text =
     (let s = dropWhile c_isspace text;
          negative = (s \<noteq> [] \<and> hd s = CHR ''-'');
          digits = takeWhile c_isdigit (if s \<noteq> [] \<and> (hd s = CHR ''-'' \<or> hd s = CHR ''+'') then tl s else s);
          v = foldl (\<lambda>n c. 10 * n + (of_char c - 48)) (0 :: nat) digits
      in if v \<ge> 2 ^ 64 then - 1 else if negative then - of_nat v else of_nat v)"

text \<open>A run is still going when its turns are used up, or it has ended with an exit status.\<close>

datatype 'a run = Running 'a | Exited int "'a option"

subsection \<open>The TCP program\<close>

text \<open>
  What the set-up calls answer; \<open>ts_inet_addr\<close> and \<open>ts_bind\<close> are the functions of those names,
  \<open>ts_clock\<close> the first reading of the clock.
\<close>

record tcp_setup =
  ts_socket :: bool
  ts_inet_addr :: "string \<Rightarrow> u32"
  ts_bind :: "u32 \<Rightarrow> u16 \<Rightarrow> bool"
  ts_listen :: bool
  ts_accept :: bool
  ts_clock :: "u64 option"

abbreviation INADDR_ANY :: u32 where "INADDR_ANY \<equiv> 0"
abbreviation INADDR_NONE :: u32 where "INADDR_NONE \<equiv> 0xFFFFFFFF"

definition bind_address :: "(string \<Rightarrow> u32) \<Rightarrow> string option \<Rightarrow> u32 option" where
  "bind_address inet_addr host =
     (case host of
        None \<Rightarrow> Some INADDR_ANY
      | Some h \<Rightarrow>
          if h = ''0.0.0.0'' then Some INADDR_ANY
          else if inet_addr h = INADDR_NONE then None else Some (inet_addr h))"

text \<open>The return value is -1 when the set-up fails and 0 when the loop has been left.\<close>

definition uci_sim_tcp_serve ::
    "tcp_setup \<Rightarrow> string option \<Rightarrow> u16 \<Rightarrow> uci_sim_engine \<Rightarrow> poll_turn list \<Rightarrow> recv_turn list
       \<Rightarrow> send_turn list \<Rightarrow> tcp_connection run option" where
  "uci_sim_tcp_serve env host port engine turns ins outs =
     (if \<not> ts_socket env then Some (Exited (- 1) None)
      else case bind_address (ts_inet_addr env) host of
        None \<Rightarrow> Some (Exited (- 1) None)
      | Some addr \<Rightarrow>
          if \<not> ts_bind env addr port then Some (Exited (- 1) None)
          else if \<not> ts_listen env then Some (Exited (- 1) None)
          else if \<not> ts_accept env then Some (Exited (- 1) None)
          else
            (case ts_clock env of
               None \<Rightarrow> Some (Exited (- 1) None)
             | Some now \<Rightarrow>
                 map_option (\<lambda>(b, s). if b = Break then Exited 0 (Some s) else Running s)
                   (serve turns \<lparr>tcp_engine = engine, last_tick_ms = now, tcp_in = ins,
                                 tcp_out = outs, tcp_sent = []\<rparr>)))"

text \<open>The arguments are those after the program's name.\<close>

definition main_tcp ::
    "string list \<Rightarrow> tcp_setup \<Rightarrow> poll_turn list \<Rightarrow> recv_turn list \<Rightarrow> send_turn list
       \<Rightarrow> tcp_connection run option" where
  "main_tcp args env turns ins outs =
     (let host = (if length args \<ge> 1 then args ! 0 else ''127.0.0.1'');
          port = (if length args \<ge> 2 then ucast (strtoul10 (args ! 1)) else 9000)
      in case (if length args \<ge> 3 then uci_sim_scenario_parse (args ! 2) else Some UCI_SIM_SCENARIO_DEFAULT) of
           None \<Rightarrow> Some (Exited 1 None)
         | Some scenario \<Rightarrow>
             uci_sim_tcp_serve env (Some host) port (uci_sim_engine_init_with_scenario scenario) turns ins outs)"

subsection \<open>The PTY program\<close>

abbreviation TICK_MS :: u32 where "TICK_MS \<equiv> 50"

text \<open>Whether each set-up call succeeds; any failure gives back what was opened.\<close>

record pty_setup =
  ps_openpty :: bool
  ps_getfl :: bool
  ps_setfl :: bool
  ps_calloc :: bool
  ps_strdup :: bool

definition uci_sim_chardev_start :: "pty_setup \<Rightarrow> uci_sim_engine \<Rightarrow> uci_sim_chardev option" where
  "uci_sim_chardev_start env engine =
     (if ps_openpty env \<and> ps_getfl env \<and> ps_setfl env \<and> ps_calloc env \<and> ps_strdup env
      then Some \<lparr>cd_engine = engine, cd_stream = [], cd_written = []\<rparr> else None)"

text \<open>
  The event loop. A turn is what \<open>errno\<close> says when \<open>process_input\<close> fails: whether it is
  \<open>EAGAIN\<close>. The call that failed need not have set it, so any value is possible.
\<close>

record pty_process =
  pp_dev :: uci_sim_chardev
  pp_in :: "read_turn list"
  pp_out :: "write_turn list"

definition chardev_turn :: "bool \<Rightarrow> pty_process \<Rightarrow> (turn_outcome \<times> pty_process) option" where
  "chardev_turn errno_eagain s =
     (case uci_sim_chardev_process_input (pp_dev s) (pp_in s) (pp_out s) of
        None \<Rightarrow> None
      | Some (c, dev, ins, outs) \<Rightarrow>
          let s1 = s\<lparr>pp_dev := dev, pp_in := ins, pp_out := outs\<rparr>
          in if c \<noteq> RC_OK then Some (if errno_eagain then Continue else Break, s1)
             else
               let (c2, e) = uci_sim_engine_tick (cd_engine dev) TICK_MS
               in Some (if c2 \<noteq> RC_OK then Break else Continue, s1\<lparr>pp_dev := dev\<lparr>cd_engine := e\<rparr>\<rparr>))"

fun chardev_loop :: "bool list \<Rightarrow> pty_process \<Rightarrow> (turn_outcome \<times> pty_process) option" where
  "chardev_loop [] s = Some (Continue, s)"
| "chardev_loop (t # ts) s =
     (case chardev_turn t s of
        None \<Rightarrow> None
      | Some (Break, s') \<Rightarrow> Some (Break, s')
      | Some (Continue, s') \<Rightarrow> chardev_loop ts s')"

definition main_chardev ::
    "string list \<Rightarrow> pty_setup \<Rightarrow> bool list \<Rightarrow> read_turn list \<Rightarrow> write_turn list \<Rightarrow> pty_process run option" where
  "main_chardev args env turns ins outs =
     (case (if length args \<ge> 1 then uci_sim_scenario_parse (args ! 0) else Some UCI_SIM_SCENARIO_DEFAULT) of
        None \<Rightarrow> Some (Exited 1 None)
      | Some scenario \<Rightarrow>
          (case uci_sim_chardev_start env (uci_sim_engine_init_with_scenario scenario) of
             None \<Rightarrow> Some (Exited 1 None)
           | Some dev \<Rightarrow>
               map_option (\<lambda>(b, s). if b = Break then Exited 0 (Some s) else Running s)
                 (chardev_loop turns \<lparr>pp_dev = dev, pp_in = ins, pp_out = outs\<rparr>)))"

subsection \<open>What a run keeps\<close>

text \<open>An invariant of the state of a run; a run that never got a state has failed.\<close>

fun run_keeps :: "('a \<Rightarrow> bool) \<Rightarrow> 'a run \<Rightarrow> bool" where
  "run_keeps P (Running s) = P s"
| "run_keeps P (Exited status (Some s)) = (status = 0 \<and> P s)"
| "run_keeps P (Exited status None) = (status \<noteq> 0)"

lemma init_scenario_inv: "engine_inv (uci_sim_engine_init_with_scenario scenario)"
  unfolding uci_sim_engine_init_with_scenario_def by (rule init_engine_inv [OF default_profile_ok])

lemma chardev_turn_inv:
  assumes inv: "chardev_inv (pp_dev s)" and out: "chardev_turn t s = Some (b, s')"
  shows "chardev_inv (pp_dev s')"
proof -
  obtain c dev ins outs where p: "uci_sim_chardev_process_input (pp_dev s) (pp_in s) (pp_out s) = Some (c, dev, ins, outs)"
    using out by (auto simp: chardev_turn_def split: option.splits)
  have dev: "chardev_inv dev" using process_input_inv [OF inv p] .
  have "engine_inv (snd (uci_sim_engine_tick (cd_engine dev) TICK_MS))"
    using tick_inv [OF _ surjective_pairing] dev by (simp add: chardev_inv_def)
  with dev have "chardev_inv (dev\<lparr>cd_engine := snd (uci_sim_engine_tick (cd_engine dev) TICK_MS)\<rparr>)"
    by (simp add: chardev_inv_def)
  with dev out p show ?thesis
    by (auto simp: chardev_turn_def Let_def split_def split: if_splits)
qed

lemma chardev_loop_inv:
  "chardev_inv (pp_dev s) \<Longrightarrow> chardev_loop ts s = Some (b, s') \<Longrightarrow> chardev_inv (pp_dev s')"
proof (induction ts arbitrary: s)
  case (Cons t ts)
  obtain b1 s1 where turn: "chardev_turn t s = Some (b1, s1)"
    using Cons.prems(2) by (cases "chardev_turn t s") auto
  with Cons.prems(1) chardev_turn_inv have "chardev_inv (pp_dev s1)" by blast
  with Cons turn show ?case by (cases b1) auto
qed simp

subsection \<open>A refused packet blocks the PTY\<close>

text \<open>The engine takes COMMAND and DATA packets only.\<close>

lemma submit_other_type:
  assumes "mt p \<noteq> UCI_MT_COMMAND" and "mt p \<noteq> UCI_MT_DATA"
  shows "uci_sim_engine_submit_packet e p = (RC_FAIL, e)"
  using assms by (simp add: uci_sim_engine_submit_packet_def uci_sim_device_handle_packet_def init_result_def)

abbreviation engine_run :: "uci_sim_engine \<Rightarrow> host_call list \<Rightarrow> uci_sim_engine" where
  "engine_run e calls \<equiv> snd (host_run uci_sim_engine_submit_packet uci_sim_engine_tick
     uci_sim_engine_dequeue_outbound_packet e calls)"

lemma engine_run_append: "engine_run e (xs @ ys) = engine_run (engine_run e xs) ys"
proof (induction xs arbitrary: e)
  case (Cons c xs)
  then show ?case by (cases c) (auto simp: split_def Let_def split: option.splits)
qed simp

text \<open>An engine that has only seen time pass and packets taken.\<close>

definition left_alone :: "uci_sim_engine \<Rightarrow> uci_sim_engine \<Rightarrow> bool" where
  "left_alone e e' \<longleftrightarrow> (\<exists>calls. set calls \<subseteq> {Tick TICK_MS, Take} \<and> e' = engine_run e calls)"

lemma left_alone_refl [simp]: "left_alone e e"
  unfolding left_alone_def by (intro exI [of _ "[]"]) simp

lemma left_alone_trans [trans]: "left_alone e e' \<Longrightarrow> left_alone e' e'' \<Longrightarrow> left_alone e e''"
  unfolding left_alone_def using engine_run_append by (metis set_append Un_subset_iff)

lemma left_alone_tick: "left_alone e (snd (uci_sim_engine_tick e TICK_MS))"
  unfolding left_alone_def by (intro exI [of _ "[Tick TICK_MS]"]) simp

lemma left_alone_take:
  "uci_sim_engine_dequeue_outbound_packet e = Some (p, e') \<Longrightarrow> left_alone e e'"
  unfolding left_alone_def by (intro exI [of _ "[Take]"]) simp

lemma left_alone_flush: "flush_packets e turns = Some (c, out, e', rest) \<Longrightarrow> left_alone e e'"
proof (induction e turns arbitrary: c out e' rest rule: flush_packets.induct)
  case (1 e turns)
  show ?case
  proof (cases "uci_sim_engine_dequeue_outbound_packet e")
    case None
    with "1.prems" show ?thesis by (simp add: flush_packets.simps [of e turns])
  next
    case (Some x)
    obtain p e1 where x: "x = (p, e1)" by (cases x)
    note deq = Some [unfolded x]
    note step = flush_packets_step [OF deq, of turns]
    show ?thesis
    proof (cases "e' = e1")
      case True
      with left_alone_take [OF deq] show ?thesis by simp
    next
      case False
      then obtain wire out1 rest1 out2 where
        more: "uci_sim_packet_serialize p UCI_SIM_MAX_PACKET = Some wire"
          "write_all wire turns = Some (RC_OK, out1, rest1)" "flush_packets e1 rest1 = Some (c, out2, e', rest)"
        using "1.prems" unfolding step by (auto split: option.splits rc.splits prod.splits)
      from "1.IH" [OF deq refl more(1,2) refl refl refl more(3)] left_alone_take [OF deq]
      show ?thesis using left_alone_trans by blast
    qed
  qed
qed

text \<open>A stream that starts with a packet of another type.\<close>

definition blocked :: "uci_sim_packet \<Rightarrow> bytes \<Rightarrow> bool" where
  "blocked p w \<longleftrightarrow> packet_ok p \<and> mt p \<noteq> UCI_MT_COMMAND \<and> mt p \<noteq> UCI_MT_DATA
     \<and> uci_sim_packet_serialize p UCI_SIM_MAX_PACKET = Some w"

lemma feed_blocked: "blocked p w \<Longrightarrow> feed_loop (w @ rest) 0 e = (RC_FAIL, 0, e)"
  using feed_frame [of p w rest 0 e] submit_other_type [of p e]
  by (simp add: blocked_def packet_ok_def)

lemma process_input_blocked:
  assumes blk: "blocked p w" and stream: "cd_stream dev = w @ rest"
    and out: "uci_sim_chardev_process_input dev ins outs = Some (c, dev', ins', outs')"
  shows "left_alone (cd_engine dev) (cd_engine dev') \<and> (\<exists>more. cd_stream dev' = w @ rest @ more)"
proof -
  obtain t rd where rd: "read_master ins = Some (t, rd)"
    using out by (cases "read_master ins") (auto simp: uci_sim_chardev_process_input_def)
  show ?thesis
  proof (cases t)
    case (Read_Data bs)
    let ?dev = "append_input (take UCI_SIM_MAX_PACKET bs) dev"
    obtain late where late: "cd_stream ?dev = w @ rest @ late"
      by (simp add: append_input_def Let_def stream)
    have same: "cd_engine ?dev = cd_engine dev" "?dev\<lparr>cd_engine := cd_engine dev\<rparr> = ?dev"
      by (simp_all add: append_input_def Let_def)
    have "feed_loop (cd_stream ?dev) 0 (cd_engine ?dev) = (RC_FAIL, 0, cd_engine dev)"
      unfolding late same by (rule feed_blocked [OF blk])
    then have "stream_feed_to_engine ?dev = (RC_FAIL, ?dev)"
      unfolding stream_feed_to_engine_def Let_def by (simp only: prod.case same) simp
    with out rd Read_Data late same stream show ?thesis
      by (auto simp: uci_sim_chardev_process_input_def split: if_splits)
  next
    case Read_Nothing
    with out rd obtain bs e where "flush_packets (cd_engine dev) outs = Some (c, bs, e, outs')"
        "dev' = dev\<lparr>cd_engine := e, cd_written := cd_written dev @ bs\<rparr>"
      by (auto simp: uci_sim_chardev_process_input_def master_flush_def)
    with left_alone_flush stream show ?thesis by auto
  qed (use out rd stream in \<open>auto simp: uci_sim_chardev_process_input_def\<close>)
qed

lemma chardev_turn_blocked:
  assumes blk: "blocked p w" and stream: "cd_stream (pp_dev s) = w @ rest"
    and out: "chardev_turn t s = Some (b, s')"
  shows "left_alone (cd_engine (pp_dev s)) (cd_engine (pp_dev s')) \<and> (\<exists>more. cd_stream (pp_dev s') = w @ rest @ more)"
proof -
  obtain c dev ins outs where p: "uci_sim_chardev_process_input (pp_dev s) (pp_in s) (pp_out s) = Some (c, dev, ins, outs)"
    using out by (auto simp: chardev_turn_def split: option.splits)
  from process_input_blocked [OF blk stream p] have dev: "left_alone (cd_engine (pp_dev s)) (cd_engine dev)"
      "\<exists>more. cd_stream dev = w @ rest @ more" by blast+
  have "left_alone (cd_engine (pp_dev s)) (snd (uci_sim_engine_tick (cd_engine dev) TICK_MS))"
    using dev(1) left_alone_tick left_alone_trans by blast
  with dev out p show ?thesis
    by (auto simp: chardev_turn_def Let_def split_def split: if_splits)
qed

lemma chardev_loop_blocked:
  assumes blk: "blocked p w"
  shows "cd_stream (pp_dev s) = w @ rest \<Longrightarrow> chardev_loop ts s = Some (b, s') \<Longrightarrow>
    left_alone (cd_engine (pp_dev s)) (cd_engine (pp_dev s')) \<and> (\<exists>more. cd_stream (pp_dev s') = w @ rest @ more)"
proof (induction ts arbitrary: s rest)
  case (Cons t ts)
  obtain b1 s1 where turn: "chardev_turn t s = Some (b1, s1)"
    using Cons.prems(2) by (cases "chardev_turn t s") auto
  from chardev_turn_blocked [OF blk Cons.prems(1) turn] obtain more where
    s1: "left_alone (cd_engine (pp_dev s)) (cd_engine (pp_dev s1))" "cd_stream (pp_dev s1) = w @ (rest @ more)" by auto
  show ?case
  proof (cases b1)
    case Continue
    with Cons.prems(2) turn have "chardev_loop ts s1 = Some (b, s')" by simp
    from Cons.IH [OF s1(2) this] s1(1) show ?thesis using left_alone_trans by fastforce
  next
    case Break
    with Cons.prems(2) turn s1 show ?thesis by auto
  qed
qed auto

subsection \<open>A command over TCP is answered\<close>

lemma serve_turn_answers:
  assumes inv: "engine_inv (tcp_engine s)" and idle: "outbound_packets (tcp_engine s) = []"
    and st: "list_all steady (tcp_in s)" and p: "uci_sim_packet_parse (incoming (tcp_in s)) = Some p"
    and cmd: "mt p = UCI_MT_COMMAND" and rd: "pt_poll t = Poll_Ok" "pt_readable t"
    and out: "serve_turn t s = Some (Continue, s')"
  shows "\<exists>a ns. is_answer p a \<and> tcp_sent s' = tcp_sent s @ client_bytes (a # ns)
    \<and> outbound_packets (tcp_engine s') = [] \<and> incoming (tcp_in s') = drop (UCI_SIM_HEADER_SIZE + payload_len p) (incoming (tcp_in s))"
proof -
  from read_command_steady [OF st p] obtain rest where
    rest: "read_command (tcp_in s) = Some (Ready p, rest)"
      "incoming rest = drop (UCI_SIM_HEADER_SIZE + payload_len p) (incoming (tcp_in s))" by blast
  let ?s1 = "s\<lparr>tcp_engine := snd (uci_sim_engine_submit_packet (tcp_engine s) p), tcp_in := rest\<rparr>"
  have "serve_readable s = Some (Continue, ?s1)" by (simp add: serve_readable_def rest(1))
  with out rd obtain now where now: "serve_flush (serve_tick now ?s1) = Some (Continue, s')"
    by (auto simp: serve_turn_def split: if_splits option.splits)
  from submit_answers [OF inv cmd _ surjective_pairing] idle obtain a ns where
    a: "outbound_packets (tcp_engine ?s1) = a # ns" "is_answer p a" by auto
  have s1: "engine_inv (tcp_engine ?s1)" using submit_inv [OF inv surjective_pairing] by simp
  have keep: "tcp_sent (serve_tick now ?s1) = tcp_sent s" "tcp_in (serve_tick now ?s1) = rest"
    by (simp_all add: serve_tick_def Let_def)
  have "appends (tcp_engine ?s1) (tcp_engine (serve_tick now ?s1))"
    using tick_inv [OF s1 surjective_pairing] by (simp add: serve_tick_def Let_def)
  then obtain ms where ms: "outbound_packets (tcp_engine (serve_tick now ?s1)) = a # ns @ ms"
    using a(1) by (auto simp: appends_def)
  from now obtain bytes e outs where
    fl: "flush_to_client (tcp_engine (serve_tick now ?s1)) (tcp_out (serve_tick now ?s1)) = Some (RC_OK, bytes, e, outs)"
      "s' = (serve_tick now ?s1)\<lparr>tcp_engine := e, tcp_out := outs, tcp_sent := tcp_sent (serve_tick now ?s1) @ bytes\<rparr>"
    by (auto simp: serve_flush_def split: if_splits)
  from flush_to_client_spec [OF fl(1)] have "bytes = client_bytes (a # ns @ ms)" "outbound_packets e = []"
    by (simp_all add: ms)
  with fl(2) keep rest(2) a(2) show ?thesis by auto
qed

text \<open>
  When the TCP program gets to its loop: the scenario named is one of the known ones (the default
  when none is named), the server's socket is opened, bound to the address and port named
  (127.0.0.1 and 9000 when none are) and listening, and a client has been accepted.
\<close>

definition tcp_started ::
    "string list \<Rightarrow> tcp_setup \<Rightarrow> uci_sim_scenario_kind \<Rightarrow> u64 \<Rightarrow> bool" where
  "tcp_started args env scenario now \<longleftrightarrow>
     (if length args \<ge> 3 then uci_sim_scenario_parse (args ! 2) = Some scenario
      else scenario = UCI_SIM_SCENARIO_DEFAULT)
     \<and> ts_socket env
     \<and> (\<exists>addr. bind_address (ts_inet_addr env) (Some (if args = [] then ''127.0.0.1'' else args ! 0)) = Some addr
          \<and> ts_bind env addr (if length args \<ge> 2 then ucast (strtoul10 (args ! 1)) else 9000))
     \<and> ts_listen env \<and> ts_accept env \<and> ts_clock env = Some now"

lemma main_tcp_started:
  "main_tcp args env turns ins outs =
     (if \<exists>scenario now. tcp_started args env scenario now
      then let scenario = (if length args \<ge> 3 then the (uci_sim_scenario_parse (args ! 2)) else UCI_SIM_SCENARIO_DEFAULT)
           in map_option (\<lambda>(b, s). if b = Break then Exited 0 (Some s) else Running s)
             (serve turns \<lparr>tcp_engine = uci_sim_engine_init_with_scenario scenario,
                last_tick_ms = the (ts_clock env), tcp_in = ins, tcp_out = outs, tcp_sent = []\<rparr>)
      else if length args \<ge> 3 \<and> uci_sim_scenario_parse (args ! 2) = None then Some (Exited 1 None)
      else Some (Exited (- 1) None))"
  by (auto simp: main_tcp_def uci_sim_tcp_serve_def tcp_started_def Let_def Suc_le_eq split: option.splits)

text \<open>A turn to try things on: a command of an unknown group, in pieces, with a byte of the next.\<close>

lemma served_unknown:
  "\<exists>s'. serve_turn \<lparr>pt_shutdown_before = False, pt_poll = Poll_Ok, pt_shutdown_after = False,
        pt_readable = True, pt_hangup = False, pt_now = Some 0\<rparr>
      \<lparr>tcp_engine = boot_engine, last_tick_ms = 0, tcp_in = [Segment [0x29, 5], Recv_Again, Segment [0, 1, 1, 0x20]],
       tcp_out = [Sent 9, Send_Again, Sent 9], tcp_sent = []\<rparr> = Some (Continue, s')"
proof -
  have read: "read_command [Segment [0x29, 5], Recv_Again, Segment [0, 1, 1, 0x20]] =
      Some (Ready unknown_command, [Segment [0x20]])" by code_simp
  have "send_to_client (unknown_answers ! 0) [Sent 9, Send_Again, Sent 9] = Some (RC_OK, [0x49, 5, 0, 1, 7], [Send_Again, Sent 9])"
    "send_to_client (unknown_answers ! 1) [Send_Again, Sent 9] = Some (RC_OK, [0x60, 7, 0, 1, 7], [])"
    by code_simp+
  then have flush: "flush_to_client (boot_engine\<lparr>outbound_packets := unknown_answers\<rparr>) [Sent 9, Send_Again, Sent 9] =
      Some (RC_OK, [0x49, 5, 0, 1, 7, 0x60, 7, 0, 1, 7], boot_engine\<lparr>outbound_packets := []\<rparr>, [])"
    by (simp add: flush_to_client.simps uci_sim_engine_dequeue_outbound_packet_def unknown_answers_def)
  show ?thesis
    by (simp add: serve_turn_def serve_readable_def read submit_unknown serve_tick_def serve_flush_def flush)
qed

subsection \<open>Properties\<close>



text \<open>
  C29. A run of the PTY program, whatever its arguments, the system calls and the host: it ends
  with a status other than 0 without having served, or it serves, and while it does and when it
  ends with 0 its engine is well formed and its stream within the allocation of 1028 bytes.
\<close>

theorem pty_program_safe:
  assumes "main_chardev args env turns ins outs = Some r"
  shows "run_keeps (\<lambda>s. chardev_inv (pp_dev s)) r"
proof -
  have "chardev_inv (pp_dev s)"
    if "uci_sim_chardev_start env (uci_sim_engine_init_with_scenario scenario) = Some dev"
      "chardev_loop turns \<lparr>pp_dev = dev, pp_in = ins, pp_out = outs\<rparr> = Some (b, s)" for scenario dev b s
    using chardev_loop_inv [OF _ that(2)] that(1) init_scenario_inv [of scenario]
    by (auto simp: uci_sim_chardev_start_def chardev_inv_def split: if_splits)
  with assms show ?thesis
    by (fastforce simp: main_chardev_def split: option.splits if_splits)
qed

lemma pty_program_safe_witness:
  "\<exists>s. main_chardev [''default'']
      \<lparr>ps_openpty = True, ps_getfl = True, ps_setfl = True, ps_calloc = True, ps_strdup = True\<rparr>
      [True, False] [Read_Data [0x40, 2], Read_Data []] [] = Some (Exited 0 (Some s))
    \<and> chardev_inv (pp_dev s)"
proof -
  let ?e = "uci_sim_engine_init_with_scenario UCI_SIM_SCENARIO_DEFAULT"
  let ?env = "\<lparr>ps_openpty = True, ps_getfl = True, ps_setfl = True, ps_calloc = True, ps_strdup = True\<rparr>"
  have quiet: "outbound_packets ?e = []" "scheduled_events (device ?e) = []"
    by (simp_all add: uci_sim_engine_init_with_scenario_def uci_sim_engine_init_with_profile_def
        uci_sim_device_init_with_profile_def apply_profile_defaults_def zero_device_def)
  have first: "uci_sim_chardev_process_input \<lparr>cd_engine = ?e, cd_stream = [], cd_written = []\<rparr>
      [Read_Data [0x40, 2], Read_Data []] [] =
      Some (RC_OK, \<lparr>cd_engine = ?e, cd_stream = [0x40, 2], cd_written = []\<rparr>, [Read_Data []], [])"
    by (simp add: uci_sim_chardev_process_input_def append_input_def stream_feed_to_engine_def feed_partial
        master_flush_def flush_packets.simps [of ?e] uci_sim_engine_dequeue_outbound_packet_def quiet)
  have tick: "uci_sim_engine_tick ?e TICK_MS = (RC_OK, ?e)"
    by (simp add: uci_sim_engine_tick_def uci_sim_device_tick_events_def uci_sim_device_dequeue_ready_event_def quiet)
  have second: "uci_sim_chardev_process_input \<lparr>cd_engine = ?e, cd_stream = [0x40, 2], cd_written = []\<rparr>
      [Read_Data []] [] = Some (RC_FAIL, \<lparr>cd_engine = ?e, cd_stream = [0x40, 2], cd_written = []\<rparr>, [], [])"
    by (simp add: uci_sim_chardev_process_input_def)
  have "\<exists>s. main_chardev [''default''] ?env [True, False] [Read_Data [0x40, 2], Read_Data []] [] =
      Some (Exited 0 (Some s))"
    by (simp add: main_chardev_def uci_sim_scenario_parse_def uci_sim_chardev_start_def chardev_turn_def first second tick)
  then obtain s where s: "main_chardev [''default''] ?env [True, False] [Read_Data [0x40, 2], Read_Data []] [] =
      Some (Exited 0 (Some s))" ..
  from pty_program_safe [OF s] s show ?thesis by auto
qed

text \<open>
  C25. A command that is waiting on an idle TCP connection is answered in the turn that reads it:
  a turn that succeeds sends the frames of a response with the command's group and opcode before
  anything else, leaves nothing queued, and takes exactly the command's bytes from the stream.
\<close>

theorem tcp_command_answered:
  assumes "engine_inv (tcp_engine s)" and "outbound_packets (tcp_engine s) = []"
    and "list_all steady (tcp_in s)" and "uci_sim_packet_parse (incoming (tcp_in s)) = Some p"
    and "mt p = UCI_MT_COMMAND" and "pt_poll t = Poll_Ok" and "pt_readable t"
    and "serve_turn t s = Some (Continue, s')"
  shows "\<exists>a ns. is_answer p a \<and> tcp_sent s' = tcp_sent s @ client_bytes (a # ns)
    \<and> outbound_packets (tcp_engine s') = []
    \<and> incoming (tcp_in s') = drop (UCI_SIM_HEADER_SIZE + payload_len p) (incoming (tcp_in s))"
  by (rule serve_turn_answers [OF assms])

lemma tcp_command_answered_witness:
  "\<exists>s' a ns. serve_turn \<lparr>pt_shutdown_before = False, pt_poll = Poll_Ok, pt_shutdown_after = False,
        pt_readable = True, pt_hangup = False, pt_now = Some 0\<rparr>
      \<lparr>tcp_engine = boot_engine, last_tick_ms = 0, tcp_in = [Segment [0x29, 5], Recv_Again, Segment [0, 1, 1, 0x20]],
       tcp_out = [Sent 9, Send_Again, Sent 9], tcp_sent = []\<rparr> = Some (Continue, s')
    \<and> is_answer unknown_command a \<and> tcp_sent s' = client_bytes (a # ns) \<and> incoming (tcp_in s') = [0x20]"
proof -
  let ?t = "\<lparr>pt_shutdown_before = False, pt_poll = Poll_Ok, pt_shutdown_after = False,
        pt_readable = True, pt_hangup = False, pt_now = Some 0\<rparr>"
  let ?in = "[Segment [0x29, 5], Recv_Again, Segment [0, 1, 1, 0x20]] :: recv_turn list"
  let ?s = "\<lparr>tcp_engine = boot_engine, last_tick_ms = 0, tcp_in = ?in,
       tcp_out = [Sent 9, Send_Again, Sent 9], tcp_sent = []\<rparr>"
  have parse: "uci_sim_packet_parse (incoming ?in) = Some unknown_command" by code_simp
  have idle: "outbound_packets boot_engine = []"
    by (simp add: boot_engine_def uci_sim_engine_init_with_profile_def)
  have "\<exists>s'. serve_turn ?t ?s = Some (Continue, s')" by (rule served_unknown)
  then obtain s' where s': "serve_turn ?t ?s = Some (Continue, s')" ..
  have "\<exists>a ns. is_answer unknown_command a \<and> tcp_sent s' = tcp_sent ?s @ client_bytes (a # ns)
      \<and> outbound_packets (tcp_engine s') = []
      \<and> incoming (tcp_in s') = drop (UCI_SIM_HEADER_SIZE + payload_len unknown_command) (incoming (tcp_in ?s))"
    by (rule tcp_command_answered [OF _ _ _ _ _ _ _ s'])
      (simp_all add: boot_engine_inv idle parse [simplified], simp add: unknown_command_def)
  with s' show ?thesis by (auto simp: unknown_command_def payload_len_def)
qed

text \<open>
  C30. A complete packet of another type than COMMAND and DATA blocks the PTY for ever: once the
  stream starts with one it stays there however many turns follow and whatever the host sends,
  and the engine sees no packet any more, only time passing and its output being taken.
\<close>

theorem refused_packet_blocks_pty:
  assumes "packet_ok p" and "mt p \<noteq> UCI_MT_COMMAND" and "mt p \<noteq> UCI_MT_DATA"
    and "uci_sim_packet_serialize p UCI_SIM_MAX_PACKET = Some w"
    and "cd_stream (pp_dev s) = w @ rest" and "chardev_loop turns s = Some (b, s')"
  shows "(\<exists>more. cd_stream (pp_dev s') = w @ rest @ more)
    \<and> (\<exists>calls. set calls \<subseteq> {Tick TICK_MS, Take} \<and> cd_engine (pp_dev s') = engine_run (cd_engine (pp_dev s)) calls)"
  using chardev_loop_blocked [OF _ assms(5,6), of p] assms(1-4)
  by (simp add: blocked_def left_alone_def)

lemma refused_packet_blocks_pty_witness:
  "\<exists>s'. chardev_loop [True] \<lparr>pp_dev = \<lparr>cd_engine = boot_engine, cd_stream = [0x40, 2, 0, 0], cd_written = []\<rparr>,
        pp_in = [Read_Data [0x29, 5, 0, 1, 1]], pp_out = []\<rparr> = Some (Continue, s')
    \<and> (\<exists>more. cd_stream (pp_dev s') = [0x40, 2, 0, 0] @ more)
    \<and> (\<exists>calls. set calls \<subseteq> {Tick TICK_MS, Take} \<and> cd_engine (pp_dev s') = engine_run boot_engine calls)"
proof -
  let ?p = "\<lparr>mt = UCI_MT_RESPONSE, pbf = 0, gid = 0, oid = 2, payload = []\<rparr>"
  let ?s = "\<lparr>pp_dev = \<lparr>cd_engine = boot_engine, cd_stream = [0x40, 2, 0, 0], cd_written = []\<rparr>,
        pp_in = [Read_Data [0x29, 5, 0, 1, 1]], pp_out = []\<rparr>"
  have w: "uci_sim_packet_serialize ?p UCI_SIM_MAX_PACKET = Some [0x40, 2, 0, 0]" by code_simp
  have ok: "packet_ok ?p" by (simp add: packet_ok_def payload_len_def)
  have "feed_loop [0x40, 2, 0, 0, 0x29, 5, 0, 1, 1] 0 boot_engine = (RC_FAIL, 0, boot_engine)"
    using feed_blocked [of ?p "[0x40, 2, 0, 0]" "[0x29, 5, 0, 1, 1]" boot_engine] w ok by (simp add: blocked_def)
  then have "\<exists>s'. chardev_loop [True] ?s = Some (Continue, s')"
    by (simp add: chardev_turn_def uci_sim_chardev_process_input_def append_input_def stream_feed_to_engine_def)
  then obtain s' where s': "chardev_loop [True] ?s = Some (Continue, s')" ..
  from refused_packet_blocks_pty [OF ok _ _ w _ s', of "[]"] s' show ?thesis by simp
qed

end
