(* ===== verification/Spec2Isabelle.thy ===== *)
theory Spec2Isabelle
  imports Lifecycle Engine_Runs Programs
begin

text \<open>
  \<^bold>\<open>The UCI device simulator: a verified model.\<close>

  The simulator plays the device side of the UWB Command Interface: a host sends COMMAND and DATA
  packets, the device answers with a RESPONSE and, now or later, with NOTIFICATIONs. This
  development models the C sources under \<open>src/\<close> and \<open>include/\<close> function by function, under their
  C names, and proves what makes them correct.

  \<^bold>\<open>The program.\<close> A transport (\<open>src/transport/tcp\<close>, \<open>src/transport/chardev\<close>) collects bytes
  until a packet is complete, parses it (\<open>src/core/uci_sim_packet.c\<close>) and submits it to the
  engine (\<open>src/core/uci_sim_engine.c\<close>). The engine hands it to the device
  (\<open>src/handlers/uci_sim_handlers.c\<close>), whose state, sessions, pending notifications and scheduled
  events are kept by \<open>src/model/uci_sim_device.c\<close>; the handlers ask
  \<open>src/core/uci_sim_validation.c\<close> whether parameters are acceptable and the profile
  (\<open>src/spec/uci_sim_profile.c\<close>) what the device supports. The engine queues the response and
  the notifications; as time passes it runs the scheduled events, which produce range data
  (\<open>src/core/uci_sim_measurement.c\<close>) and data-transfer statuses. The transport takes the queued
  packets out and writes them. The scenario (\<open>src/spec/uci_sim_scenario.c\<close>) decides whether
  notifications come with their response, with the next tick, or as a stream.

  \<^bold>\<open>The theories\<close>, each importing what its part of the program calls:

    \<^item> \<open>Prelude\<close>: machine types, return codes, the search loops over C arrays, little-endian reads
      and writes. \<open>Uci_Spec\<close>: the constants of \<open>include/uci_sim_spec.h\<close>.
    \<^item> \<open>Packet\<close>: the packet and its wire format.
    \<^item> \<open>Profile\<close>: the profile record, the default profile with its tables, the queries.
    \<^item> \<open>Config_Store\<close>: the arrays of (id, value) parameters, as a locale whose contract is a finite
      map of bounded size; interpreted on a session's 80 entries and the device's 8.
    \<^item> \<open>Session\<close>, \<open>Device\<close>: the records of \<open>include/uci_sim_device.h\<close> and all operations of
      \<open>src/model/uci_sim_device.c\<close> but the stream, which is \<open>Streaming\<close>. \<open>device_inv\<close> is the
      invariant of the whole device.
    \<^item> \<open>Bounded_Fifo\<close>: the contract of the two bounded queues (a device's pending notifications,
      the engine's outbound packets) as a locale, interpreted in \<open>Device\<close> and \<open>Engine\<close>.
    \<^item> \<open>Scenario\<close>, \<open>Measurement\<close>, \<open>Validation\<close>: the files of these names.
    \<^item> \<open>Handlers_Core\<close>, \<open>Handlers_Session\<close>, \<open>Handlers_Control\<close>: the handlers, in the order of
      the file; the last one ends with \<open>uci_sim_device_handle_packet\<close>.
    \<^item> \<open>Engine\<close>: the engine. Its contract to a transport is the locale of operations that keep
      \<open>engine_inv\<close> and yield packets that fit the wire, interpreted on the three operations.
    \<^item> \<open>Engine_Runs\<close>: runs over many ticks. \<open>Lifecycle\<close>: the session state machine as an inductive
      relation, labelled by the host's calls, and the simulation that relates the program to it.
      \<open>Acceptance\<close>: when a submission can not fail.
    \<^item> \<open>Tcp_Server\<close>, \<open>Chardev\<close>: the transports. \<open>Tcp_Run\<close>: a whole run of the TCP loop as a history of
      the engine's calls and the client's bytes. \<open>Programs\<close>: their set-up and the two main programs.

  \<^bold>\<open>How the C state is represented.\<close> A struct is a record with the source's fields. An array with
  a count is a list as long as the count; \<open>device_inv\<close> bounds the lists by the capacities of the
  header: 8 sessions, 80 parameters, 8 multicast entries and 8 links a session, 8 pending
  notifications, 8 scheduled events, 16 outbound packets, 64 bytes a parameter value. Integers
  are words of their C width where the code can overflow. A pointer into the session array is an
  index; a packet's payload is the list of its \<open>payload_len\<close> bytes. A C function that returns a
  status and writes through pointers returns a tuple; \<open>RC_OK\<close> and \<open>RC_FAIL\<close> are 0 and -1. The
  device's result, which the C code builds up in place, is passed along and returned.

  \<^bold>\<open>What the environment returns\<close> is an argument: each loop on a socket or terminal consumes a
  list of turns saying what \<open>recv\<close>, \<open>send\<close>, \<open>poll\<close>, \<open>clock_gettime\<close>, \<open>read\<close> or \<open>write\<close> gave.
  A loop that has used up its turns is still blocked, and its value is \<open>None\<close>; that the TCP flush
  does return, given a socket that takes bytes, is the theorem \<open>flush_returns\<close>. All other loops
  are total functions by the bounds of the arrays and buffers they run over; a tick of the engine
  runs one ready event and leaves further ones, with delay 0, to the ticks that follow.

  \<^bold>\<open>What is proved\<close>, by part:

    \<^item> packets: both round trips of parser and serialiser.
    \<^item> sessions and device: the parameter store and the multicast list refine finite maps; scheduled
      events are taken in order; rescheduling replaces.
    \<^item> validation: the long sequence of checks before START equals the specification
      \<open>start_valid\<close>; START acts by that specification; every read of the start checks fits its
      variable but one.
    \<^item> measurement and streaming: every byte of a range-data notification, which fields are
      reported, how a stream stops at its maximum.
    \<^item> handlers: for every packet, the invariant, one response to a command, an error notification
      for a refused one; the effect of SESSION_INIT, of setting parameters and of opening a logical
      link on every branch, and that parameters are read back.
    \<^item> engine: safety of every run, order of answers, acceptance of commands, the closed form of a
      flush of notifications, two end-to-end runs packet for packet (a data transfer, and a ranging
      stream up to its maximum), and the refinement of the labelled session state machine.
    \<^item> transports: fragmentation and reassembly, independence of how the stream is segmented,
      order, completeness and termination of flushes.
    \<^item> programs: the history of a whole TCP run from the command line on and what ends it, the
      invariant of a PTY run, the answer to a command within one turn over TCP and over the PTY, and
      the way a refused packet blocks the PTY.

  \<^bold>\<open>Bounds.\<close> The runs of \<open>Engine_Runs\<close> state the room they need in the outbound queue of 16
  packets when the host takes none out: two packets for the answer to START, one for each sample
  and one for the closing status. The PTY turn of \<open>Chardev\<close> asks for as many successful writes as
  sixteen packets of at most 259 bytes have bytes, one write a byte being the least the terminal
  can do. A response over 255 bytes is sent in fragments over TCP and never over the PTY. A session
  whose MAX_NUMBER_OF_MEASUREMENTS is 0 has no maximum by the documents, while the code ends its
  stream after the profile's burst; the theorem on streams is about finite maxima.

  \<^bold>\<open>Not modelled.\<close> What the programs print, the allocation and release of memory and of file
  descriptors, sleeping, the installation of signal handlers (their effect, the shutdown flag, is
  an argument of each turn), and the closing of a second TCP client, which changes no state.
  Guards against NULL pointers are left out where every caller passes the address of an object;
  where NULL is a value the callers use (an absent profile, an absent host) it is \<open>None\<close>. Where
  the C code leaves the bounds of an object the model says so in a comment at the definition
  (\<open>config_read_overruns\<close> tells when a getter of a session does). The simulated device has no
  concurrency: both programs are single loops.
\<close>

subsection \<open>Starting a session\<close>

text \<open>What a command does to the sessions' states is what its handler does.\<close>

lemma command_view:
  assumes "mt request = UCI_MT_COMMAND"
  shows "session_view (fst (snd (uci_sim_device_handle_packet d request))) =
    session_view (fst (snd (dispatch_command d request init_result)))"
proof (rule session_view_cong)
  have fin: "skeleton (fst (uci_sim_device_finalize_result d' r k)) = skeleton d'" for d' r k
    by (simp add: skeleton_def)
  show "skeleton (fst (snd (uci_sim_device_handle_packet d request))) =
      skeleton (fst (snd (dispatch_command d request init_result)))"
    using assms by (simp add: uci_sim_device_handle_packet_def Let_def split_def fin split: option.splits)
qed

lemma apply_transition_view:
  assumes inv: "device_inv d" and i: "i < length (sessions d)" "allocated (sessions d ! i)"
  shows "session_view (fst (snd (apply_transition i sid t d request r))) =
    (session_view d)(session_id (sessions d ! i) \<mapsto> tr_next_state t)"
proof -
  let ?s = "sessions d ! i"
  have "skeleton (fst (snd (apply_transition i sid t d request r))) =
      skeleton (set_session d i (?s\<lparr>state := tr_next_state t\<rparr>))"
    using i by (simp add: apply_transition_def Let_def split_def skeleton_set skeleton_of_def)
  then have "session_view (fst (snd (apply_transition i sid t d request r))) =
      session_view (set_session d i (?s\<lparr>state := tr_next_state t\<rparr>))" by (rule session_view_cong)
  with session_view_set [OF inv i, of "?s\<lparr>state := tr_next_state t\<rparr>"] i show ?thesis by simp
qed

text \<open>
  C5. START decides by the specification: for a session in a state it is allowed in, the command
  makes it ACTIVE exactly when its stored parameters satisfy the specification of validity,
  start_valid; otherwise every session keeps its state.
\<close>

theorem start_decides:
  assumes inv: "device_inv d" and req: "start_request request"
    and supported: "uci_sim_profile_supports_command (dev_profile d) UCI_GID_SESSION_CONTROL UCI_SESSION_START"
    and found: "find_session_by_id d (read_u32_le (payload request)) = Some i"
    and t: "uci_sim_profile_get_session_transition (dev_profile d) UCI_SESSION_START = Some t"
    and allowed: "state_allowed t (state (sessions d ! i))"
  shows "case uci_sim_device_handle_packet d request of (c, d', r) \<Rightarrow>
    session_view d' =
      (if start_valid (effective_profile d) (sessions d ! i)
       then (session_view d)(read_u32_le (payload request) \<mapsto> UCI_SESSION_STATE_ACTIVE) else session_view d)"
proof -
  let ?sid = "read_u32_le (payload request)"
  let ?out = "handle_session_transition i ?sid d request init_result"
  note r = req [unfolded start_request_def]
  note i = found_session(1,2) [OF found inv]
  have id: "session_id (sessions d ! i) = ?sid" by (rule find_session_SomeD(3) [OF found inv])
  from transition_found [OF t inv] have next': "tr_next_state t = UCI_SESSION_STATE_ACTIVE"
    by (auto simp: transition_ok_def)
  have "dispatch_command d request init_result = ?out"
    using r supported found by (simp add: dispatch_command_def handle_session_control_def Let_def)
  then have view: "session_view (fst (snd (uci_sim_device_handle_packet d request))) = session_view (fst (snd ?out))"
    using command_view [of request d] r by simp
  show ?thesis
  proof (cases "uci_sim_validate_session_start (Some (effective_profile d)) (sessions d ! i)")
    case (Inl f)
    then have "\<not> start_valid (effective_profile d) (sessions d ! i)"
      using session_start_ok [of "effective_profile d" "sessions d ! i" "()"] by simp
    moreover have "skeleton (fst (snd ?out)) = skeleton d"
      using r t allowed Inl by (simp add: handle_session_transition_def refuse_def)
    then have "session_view (fst (snd ?out)) = session_view d" by (rule session_view_cong)
    ultimately show ?thesis using view by (simp add: split_def)
  next
    case (Inr u)
    then have "start_valid (effective_profile d) (sessions d ! i)" by (simp add: session_start_ok)
    moreover have "?out = apply_transition i ?sid t d request init_result"
      using r t allowed Inr by (simp add: handle_session_transition_def)
    ultimately show ?thesis
      using view apply_transition_view [OF inv i, of ?sid t request init_result] next' id by (simp add: split_def)
  qed
qed

lemma start_decides_witness:
  "case uci_sim_device_handle_packet (demo_device UCI_SIM_SCENARIO_RANGING_STREAM) demo_start of (c, d', r) \<Rightarrow>
    session_view d' = (session_view (demo_device UCI_SIM_SCENARIO_RANGING_STREAM))(7 \<mapsto> UCI_SESSION_STATE_ACTIVE)"
proof -
  let ?d = "demo_device UCI_SIM_SCENARIO_RANGING_STREAM"
  note st = demo_startable [unfolded startable_def Let_def]
  have req: "start_request demo_start" by (simp add: start_request_def demo_start_def payload_len_def)
  have sid: "read_u32_le (payload demo_start) = 7" by (simp add: demo_start_def read_u32_le_def)
  have found: "find_session_by_id ?d (read_u32_le (payload demo_start)) = Some 0"
    using st by (simp add: find_session_eq_Some)
  obtain t where t: "uci_sim_profile_get_session_transition (dev_profile ?d) UCI_SESSION_START = Some t"
    using st by blast
  from transition_found [OF t] have "tr_allowed_states_mask t = 0x09" by (auto simp: transition_ok_def)
  then have allowed: "state_allowed t (state (sessions ?d ! 0))"
    using st by (auto simp: state_allowed_def)
  from start_decides [OF demo_device_inv req _ found t allowed] st sid show ?thesis by simp
qed

text \<open>
  C7. Before it accepts a session the start checks have read eighteen parameters into local
  variables, and every one was stored. Each copy stays within the variable it goes to, with one
  exception: that of KEY_ROTATION_RATE always leaves its variable of one byte, since the checks
  require the parameter to be two bytes long.
\<close>

theorem start_reads_fit:
  assumes "uci_sim_validate_session_start (Some p) s = Inr ()"
  shows "list_all (\<lambda>(k, room). uci_sim_session_get_config s k \<noteq> None
    \<and> (config_read_overruns s k room \<longleftrightarrow> k = UCI_APP_CONFIG_KEY_ROTATION_RATE)) start_reads"
proof -
  let ?cfg = "uci_sim_session_get_config s"
  from assms have v: "start_valid p s" by (simp add: session_start_ok)
  then obtain x where x: "sts_valid p ?cfg x" "keys_valid p ?cfg x"
    and rest: "phy_valid p ?cfg" "schedule_valid p ?cfg"
    unfolding start_valid_def Let_def by blast
  from v obtain sl c where topo: "?cfg UCI_APP_CONFIG_SLOT_DURATION = Some sl" "length sl = 2"
      "?cfg UCI_APP_CONFIG_CHANNEL_NUMBER = Some [c]" unfolding start_valid_def Let_def by blast
  have sts: "?cfg UCI_APP_CONFIG_STS_CONFIG = Some [x]" using x(1) by (simp add: sts_valid_def)
  from x(2) obtain r lo hi n rr where keys: "?cfg UCI_APP_CONFIG_KEY_ROTATION = Some [r]"
      "?cfg UCI_APP_CONFIG_KEY_ROTATION_RATE = Some [lo, hi]" "?cfg UCI_APP_CONFIG_NUMBER_OF_STS_SEGMENTS = Some [n]"
      "?cfg UCI_APP_CONFIG_MAX_RR_RETRY = Some rr" "length rr = 2" unfolding keys_valid_def by blast
  from rest(1) obtain m pc d ra t l where phy: "?cfg UCI_APP_CONFIG_PRF_MODE = Some [m]"
      "?cfg UCI_APP_CONFIG_PREAMBLE_CODE_INDEX = Some [pc]" "?cfg UCI_APP_CONFIG_SFD_ID = Some [d]"
      "?cfg UCI_APP_CONFIG_PSDU_DATA_RATE = Some [ra]" "?cfg UCI_APP_CONFIG_PREAMBLE_DURATION = Some [t]"
      "?cfg UCI_APP_CONFIG_STS_LENGTH = Some [l]" unfolding phy_valid_def by blast
  from rest(2) obtain ll rt sm bs sn where sched: "?cfg UCI_APP_CONFIG_LINK_LAYER_MODE = Some [ll]"
      "?cfg UCI_APP_CONFIG_RANGING_TIME_STRUCT = Some [rt]" "?cfg UCI_APP_CONFIG_SCHEDULED_MODE = Some [sm]"
      "?cfg UCI_APP_CONFIG_BLOCK_STRIDE_LENGTH = Some [bs]" "?cfg UCI_APP_CONFIG_SLOTS_PER_RR = Some [sn]"
    unfolding schedule_valid_def stride_valid_def slots_valid_def by blast
  show ?thesis
    by (simp add: start_reads_def config_read_overruns_def topo sts keys phy sched)
qed

lemma start_reads_fit_witness:
  "list_all (\<lambda>(k, room). uci_sim_session_get_config (sessions (demo_device UCI_SIM_SCENARIO_RANGING_STREAM) ! 0) k \<noteq> None
    \<and> (config_read_overruns (sessions (demo_device UCI_SIM_SCENARIO_RANGING_STREAM) ! 0) k room
       \<longleftrightarrow> k = UCI_APP_CONFIG_KEY_ROTATION_RATE)) start_reads"
  using demo_startable
  by (intro start_reads_fit [of "effective_profile (demo_device UCI_SIM_SCENARIO_RANGING_STREAM)"])
    (simp add: session_start_ok startable_def Let_def)

end
